theory Spec2Isabelle
  imports Main "HOL-Library.AList" "HOL-Library.Sublist" "HOL-Library.Word"
begin

section \<open>JavaScript values and objects\<close>

text \<open>
  The configuration of md-to-pdf is a plain JavaScript object that is filled from three
  untyped sources (defaults, YAML front matter, command-line arguments).  Its values are
  modelled by a datatype of the data values JavaScript has: \<open>undefined\<close>, \<open>null\<close>,
  booleans, numbers, strings, arrays and objects.  The numbers represented are \<open>NaN\<close> and
  the integers from \<open>-2\<^sup>5\<^sup>3\<close> to \<open>2\<^sup>5\<^sup>3 - 1\<close>, held as a 54-bit word that is read as a
  signed number: a double holds each of them exactly, and \<open>String\<close> prints each of them
  in plain decimal notation (the exponent notation starts at \<open>10\<^sup>2\<^sup>1\<close>).  Fractions and
  larger numbers play no role in the code modelled here.  An object is an association
  list in property order; a well-formed object has distinct keys.  Function values (callbacks inside
  extension descriptors) are not represented.  Line numbers refer to
  \<open>src/lib/get-marked-with-highlighter.ts\<close>, which holds \<open>getMarked\<close> (lines 1--20) and the
  module of \<open>convertMdToPdf\<close> (lines 21--226).
\<close>

datatype jsval =
    JUndefined
  | JNull
  | JBool bool
  | JNum "54 word"
  | JNaN
  | JStr string
  | JArr "jsval list"
  | JObj "(string \<times> jsval) list"

type_synonym obj = "(string \<times> jsval) list"

datatype error = TypeError | SyntaxError | IOError string | YAMLException | OtherError

text \<open>\<open>Boolean(v)\<close>: the falsy values are \<open>undefined\<close>, \<open>null\<close>, \<open>false\<close>, \<open>0\<close>,
  \<open>NaN\<close> and the empty string.\<close>

fun truthy :: "jsval \<Rightarrow> bool" where
  "truthy JUndefined = False"
| "truthy JNull = False"
| "truthy (JBool b) = b"
| "truthy (JNum n) = (n \<noteq> 0)"
| "truthy JNaN = False"
| "truthy (JStr s) = (s \<noteq> [])"
| "truthy (JArr xs) = True"
| "truthy (JObj kvs) = True"

text \<open>\<open>Array.isArray(v)\<close>.\<close>

fun isArray :: "jsval \<Rightarrow> bool" where
  "isArray (JArr xs) = True"
| "isArray v = False"

text \<open>\<open>o[k]\<close> on an object: the value of the property, \<open>undefined\<close> when it is absent.\<close>

definition get_prop :: "obj \<Rightarrow> string \<Rightarrow> jsval" where
  "get_prop ob k = (case map_of ob k of None \<Rightarrow> JUndefined | Some v \<Rightarrow> v)"

text \<open>\<open>o[k] = v\<close>: an existing property keeps its place, a new one is appended.\<close>

definition set_prop :: "string \<Rightarrow> jsval \<Rightarrow> obj \<Rightarrow> obj" where
  "set_prop k v ob = AList.update k v ob"

text \<open>Decimal numerals, for array indices used as property names and for \<open>String(n)\<close>.\<close>

function show_nat :: "nat \<Rightarrow> string" where
  "show_nat n =
     (if n < 10 then [''0123456789'' ! n]
      else show_nat (n div 10) @ [''0123456789'' ! (n mod 10)])"
  by pat_completeness auto
termination
  by (relation "measure id") auto

declare show_nat.simps [simp del]

definition show_int :: "int \<Rightarrow> string" where
  "show_int i = (if i < 0 then CHR ''-'' # show_nat (nat (- i)) else show_nat (nat i))"

text \<open>
  The own enumerable properties that an object spread \<open>{...v}\<close> copies: those of an
  object, the indexed elements of an array, the indexed characters of a string, and
  nothing for \<open>undefined\<close>, \<open>null\<close>, booleans and numbers.
\<close>

fun own_entries :: "jsval \<Rightarrow> obj" where
  "own_entries (JObj kvs) = kvs"
| "own_entries (JArr xs) = zip (map show_nat [0..<length xs]) xs"
| "own_entries (JStr s) = zip (map show_nat [0..<length s]) (map (\<lambda>c. JStr [c]) s)"
| "own_entries v = []"

text \<open>\<open>{...a, ...b}\<close>: the properties of \<open>b\<close> are assigned over those of \<open>a\<close>, in order.\<close>

definition spread :: "obj \<Rightarrow> obj \<Rightarrow> obj" where
  "spread a b = fold (\<lambda>(k, v). set_prop k v) b a"

text \<open>\<open>String(v)\<close>, as a template literal and \<open>JSON.parse\<close> apply it to their argument.\<close>

fun to_string :: "jsval \<Rightarrow> string"
  and join_elems :: "jsval list \<Rightarrow> string" where
  "to_string JUndefined = ''undefined''"
| "to_string JNull = ''null''"
| "to_string (JBool b) = (if b then ''true'' else ''false'')"
| "to_string (JNum n) = show_int (sint n)"
| "to_string JNaN = ''NaN''"
| "to_string (JStr s) = s"
| "to_string (JArr xs) = join_elems xs"
| "to_string (JObj kvs) = ''[object Object]''"
| "join_elems [] = []"
| "join_elems (x # xs) =
     (if x = JUndefined \<or> x = JNull then [] else to_string x)
       @ (if xs = [] then [] else CHR '','' # join_elems xs)"

section \<open>convertMdToPdf: resolving the configuration\<close>

text \<open>
  The \<open>data\<close> of what \<open>grayMatter(...)\<close> returns: an \<open>Error\<close> instance, which line 147 tests
  for, or the parsed object.  (A call of \<open>grayMatter\<close> that throws returns nothing; see
  \<open>convertMdToPdf\<close> below.)
\<close>

datatype frontMatter = FmError string | FmData obj

text \<open>
  Lines 146--155.  On an \<open>Error\<close> the configuration is left as it is and one warning is
  printed; otherwise
  \<open>config = {...config, ...frontMatterConfig,
      pdf_options: {...config.pdf_options, ...frontMatterConfig.pdf_options}}\<close>.
  The second component is the list of warnings printed by \<open>console.warn\<close>.
\<close>

definition mergeFrontMatter :: "obj \<Rightarrow> frontMatter \<Rightarrow> obj \<times> string list" where
  "mergeFrontMatter config fmc =
     (case fmc of
        FmError msg \<Rightarrow>
          (config,
           [''Warning: the front-matter was ignored because it could not be parsed:''
              @ [CHR 0x0A] @ '' '' @ msg])
      | FmData fm \<Rightarrow>
          (set_prop ''pdf_options''
             (JObj (spread (own_entries (get_prop config ''pdf_options''))
                           (own_entries (get_prop fm ''pdf_options''))))
             (spread config fm),
           []))"

text \<open>
  Lines 157--161.  Destructuring \<open>config.pdf_options\<close> throws a \<open>TypeError\<close> when it is
  \<open>undefined\<close> or \<open>null\<close>; on any other value that is not an object the three properties
  read as \<open>undefined\<close> and nothing is assigned.
\<close>

definition deriveDisplayHeaderFooter :: "obj \<Rightarrow> error + obj" where
  "deriveDisplayHeaderFooter config =
     (case get_prop config ''pdf_options'' of
        JUndefined \<Rightarrow> Inl TypeError
      | JNull \<Rightarrow> Inl TypeError
      | JObj po \<Rightarrow>
          (if (truthy (get_prop po ''headerTemplate'') \<or> truthy (get_prop po ''footerTemplate''))
              \<and> get_prop po ''displayHeaderFooter'' = JUndefined
           then Inr (set_prop ''pdf_options''
                       (JObj (set_prop ''displayHeaderFooter'' (JBool True) po)) config)
           else Inr config)
      | _ \<Rightarrow> Inr config)"

text \<open>Lines 163--170: \<open>if (!Array.isArray(config[option]))
  config[option] = [config[option]].filter(Boolean)\<close> for each of the four options.\<close>

definition arrayOptions :: "string list" where
  "arrayOptions = [''body_class'', ''script'', ''stylesheet'', ''marked_extensions'']"

definition sanitizeOption :: "string \<Rightarrow> obj \<Rightarrow> obj" where
  "sanitizeOption option config =
     (if isArray (get_prop config option) then config
      else set_prop option (JArr (filter truthy [get_prop config option])) config)"

definition sanitizeArrayOptions :: "obj \<Rightarrow> obj" where
  "sanitizeArrayOptions config = fold sanitizeOption arrayOptions config"

text \<open>
  Lines 172--180.  \<open>args\<close> is the list \<open>Object.entries(args)\<close>.  The key of an argument is
  \<open>argKey.slice(2).replace(/-/g, '_')\<close>; the value of one of the four JSON arguments is
  \<open>JSON.parse(argValue)\<close>, which may throw a \<open>SyntaxError\<close>, and the value of any other
  argument is stored as it is.  \<open>JSON.parse\<close> is a parameter of the model: a function
  from the text to the parsed value, \<open>None\<close> when it throws.
\<close>

definition jsonArgs :: "string list" where
  "jsonArgs = [''--marked-options'', ''--pdf-options'', ''--launch-options'',
               ''--math-engine-options'']"

definition argToKey :: "string \<Rightarrow> string" where
  "argToKey argKey = map (\<lambda>c. if c = CHR ''-'' then CHR ''_'' else c) (drop 2 argKey)"

definition argToValue :: "(string \<Rightarrow> jsval option) \<Rightarrow> string \<Rightarrow> jsval \<Rightarrow> jsval option" where
  "argToValue json_parse argKey argValue =
     (if argKey \<in> set jsonArgs then json_parse (to_string argValue) else Some argValue)"

fun mergeCliArgs :: "(string \<Rightarrow> jsval option) \<Rightarrow> (string \<times> jsval) list \<Rightarrow> obj \<Rightarrow> error + obj" where
  "mergeCliArgs json_parse [] config = Inr config"
| "mergeCliArgs json_parse ((argKey, argValue) # rest) config =
     (case argToValue json_parse argKey argValue of
        None \<Rightarrow> Inl SyntaxError
      | Some v \<Rightarrow> mergeCliArgs json_parse rest (set_prop (argToKey argKey) v config))"

text \<open>Lines 157--180: what follows the front-matter step up to the overlay of the
  invocation overrides.\<close>

definition finishMerge ::
  "(string \<Rightarrow> jsval option) \<Rightarrow> obj \<Rightarrow> (string \<times> jsval) list \<Rightarrow> error + obj" where
  "finishMerge json_parse config args =
     (case deriveDisplayHeaderFooter config of
        Inl e \<Rightarrow> Inl e
      | Inr c \<Rightarrow> mergeCliArgs json_parse args (sanitizeArrayOptions c))"

text \<open>Lines 146--180 together: the configuration after the three layers are merged.\<close>

definition mergeConfig ::
  "(string \<Rightarrow> jsval option) \<Rightarrow> obj \<Rightarrow> frontMatter \<Rightarrow> (string \<times> jsval) list \<Rightarrow> error + obj" where
  "mergeConfig json_parse config fmc args =
     finishMerge json_parse (fst (mergeFrontMatter config fmc)) args"

section \<open>The math stylesheet: getMimeType and loadKatexCss\<close>

definition getMimeType :: "string \<Rightarrow> string" where
  "getMimeType extension =
     (if extension = ''.woff2'' then ''font/woff2''
      else if extension = ''.woff'' then ''font/woff''
      else if extension = ''.ttf'' then ''font/ttf''
      else if extension = ''.otf'' then ''font/otf''
      else if extension = ''.eot'' then ''application/vnd.ms-fontobject''
      else if extension = ''.svg'' then ''image/svg+xml''
      else ''application/octet-stream'')"

text \<open>\<open>String.prototype.toLowerCase\<close> on the letters A--Z; other characters are kept.\<close>

definition toLowerCase :: "string \<Rightarrow> string" where
  "toLowerCase s =
     map (\<lambda>c. case map_of (zip ''ABCDEFGHIJKLMNOPQRSTUVWXYZ'' ''abcdefghijklmnopqrstuvwxyz'') c of
                 None \<Rightarrow> c | Some l \<Rightarrow> l) s"

text \<open>\<open>Buffer.toString('base64')\<close>: the standard alphabet with \<open>=\<close> padding.  A file's
  content is a list of bytes, that is, a \<open>string\<close>.\<close>

definition b64alphabet :: string where
  "b64alphabet = ''ABCDEFGHIJKLMNOPQRSTUVWXYZabcdefghijklmnopqrstuvwxyz0123456789+/''"

definition b64 :: "nat \<Rightarrow> char" where
  "b64 n = b64alphabet ! (n mod 64)"

fun base64 :: "string \<Rightarrow> string" where
  "base64 [] = []"
| "base64 [a] =
     (let n = (of_char a :: nat)
      in [b64 (n div 4), b64 ((n mod 4) * 16), CHR ''='', CHR ''=''])"
| "base64 [a, b] =
     (let n = (of_char a :: nat) * 256 + of_char b
      in [b64 (n div 1024), b64 (n div 16), b64 ((n mod 16) * 4), CHR ''=''])"
| "base64 (a # b # c # rest) =
     (let n = (of_char a :: nat) * 65536 + of_char b * 256 + of_char c
      in [b64 (n div 262144), b64 (n div 4096), b64 (n div 64), b64 n]) @ base64 rest"

text \<open>
  What the process reads from: the resolved path of \<open>katex/dist/katex.min.css\<close>, the
  file system (\<open>None\<close> when \<open>fs.readFile\<close> rejects), and the functions \<open>resolve\<close>,
  \<open>dirname\<close> and \<open>extname\<close> of Node's \<open>path\<close> module, which are parameters of the model.
\<close>

record files =
  katexCssPath :: string
  readFile :: "string \<Rightarrow> string option"
  resolve :: "string \<Rightarrow> string \<Rightarrow> string"
  dirname :: "string \<Rightarrow> string"
  extname :: "string \<Rightarrow> string"

text \<open>
  The module state: the \<open>WeakSet\<close> of configuration objects that already received the
  stylesheet (a configuration object is identified by a number), the cached stylesheet
  (\<open>None\<close> is \<open>undefined\<close>), and, as instrumentation, the paths handed to \<open>fs.readFile\<close>
  and the warnings printed by \<open>console.warn\<close>, both in order.
\<close>

record state =
  configsWithKatexCss :: "nat set"
  cachedKatexCss :: "string option"
  reads :: "string list"
  console :: "string list"

text \<open>
  One match of \<open>/url\((['"]?)(fonts\/[^'")]+)\1\)/\<close> at the start of a string: the quote
  that group 1 captured, the path of group 2 and the length of the match.  The optional
  quote is taken when the next character is one (without it \<open>fonts\/\<close> cannot match
  there), and the path is the longest run of characters other than the two quotes and
  \<open>)\<close> (a shorter run is followed by a character of the run, which is neither the
  quote nor \<open>)\<close>), so backtracking never finds another match.
\<close>

definition isQuote :: "char \<Rightarrow> bool" where
  "isQuote c = (c = CHR 0x27 \<or> c = CHR 0x22)"

definition isPathChar :: "char \<Rightarrow> bool" where
  "isPathChar c = (\<not> isQuote c \<and> c \<noteq> CHR '')'')"

definition matchFontUrl :: "string \<Rightarrow> (string \<times> string \<times> nat) option" where
  "matchFontUrl s =
     (if prefix ''url('' s then
        let r = drop 4 s;
            q = (case r of [] \<Rightarrow> [] | c # _ \<Rightarrow> if isQuote c then [c] else []);
            r1 = drop (length q) r
        in if prefix ''fonts/'' r1 then
             let r2 = drop 6 r1;
                 run = takeWhile isPathChar r2;
                 r3 = drop (length run) r2
             in if run \<noteq> [] \<and> prefix (q @ '')'') r3
                then Some (q, ''fonts/'' @ run, 4 + length q + 6 + length run + length q + 1)
                else None
           else None
      else None)"

text \<open>\<open>css.matchAll(...)\<close> with the \<open>g\<close> flag: the matches from left to right, the search
  resuming after each match.\<close>

function matchAll :: "string \<Rightarrow> (string \<times> string) list" where
  "matchAll s =
     (case s of
        [] \<Rightarrow> []
      | c # cs \<Rightarrow>
          (case matchFontUrl s of
             None \<Rightarrow> matchAll cs
           | Some (q, p, n) \<Rightarrow> (q, p) # matchAll (drop (n - 1) cs)))"
  by pat_completeness auto
termination
  by (relation "measure length") auto

declare matchAll.simps [simp del]

text \<open>\<open>new Set(xs)\<close> turned back into an array: the first occurrence of each element.\<close>

definition uniq :: "'a list \<Rightarrow> 'a list" where
  "uniq xs = fold (\<lambda>x seen. if x \<in> set seen then seen else seen @ [x]) xs []"

definition fontMatches :: "string \<Rightarrow> string list" where
  "fontMatches css = uniq (filter (\<lambda>relativePath. relativePath \<noteq> []) (map snd (matchAll css)))"

text \<open>
  The replacement text of \<open>String.prototype.replace\<close>: \<open>$$\<close> is a dollar sign, \<open>$&\<close> the
  matched text, \<open>$`\<close> the text before the match and \<open>$'\<close> the text after it.  The
  patterns used here have no capture group, so every other \<open>$\<close> stands for itself.
\<close>

fun expandReplacement :: "string \<Rightarrow> string \<Rightarrow> string \<Rightarrow> string \<Rightarrow> string" where
  "expandReplacement [] matched passed rest = []"
| "expandReplacement [c] matched passed rest = [c]"
| "expandReplacement (c # d # r) matched passed rest =
     (if c = CHR ''$'' \<and> d = CHR ''$'' then CHR ''$'' # expandReplacement r matched passed rest
      else if c = CHR ''$'' \<and> d = CHR ''&'' then matched @ expandReplacement r matched passed rest
      else if c = CHR ''$'' \<and> d = CHR 0x60 then passed @ expandReplacement r matched passed rest
      else if c = CHR ''$'' \<and> d = CHR 0x27 then rest @ expandReplacement r matched passed rest
      else c # expandReplacement (d # r) matched passed rest)"

text \<open>
  \<open>s.replace(new RegExp(escaped, 'g'), replacement)\<close> where \<open>escaped\<close> is a text with
  every regular-expression metacharacter escaped, so that the pattern matches the text
  \<open>pat\<close> and nothing else.  \<open>passed\<close> is the part of the subject before the current
  position.  An empty pattern matches at every position.
\<close>

fun replaceAll :: "string \<Rightarrow> string \<Rightarrow> string \<Rightarrow> string \<Rightarrow> string" where
  "replaceAll pat replacement passed [] =
     (if pat = [] then expandReplacement replacement [] passed [] else [])"
| "replaceAll pat replacement passed (c # cs) =
     (if pat = [] then
        expandReplacement replacement [] passed (c # cs)
          @ c # replaceAll pat replacement (passed @ [c]) cs
      else if prefix pat (c # cs) then
        expandReplacement replacement pat passed (drop (length pat - 1) cs)
          @ replaceAll pat replacement (passed @ pat) (drop (length pat - 1) cs)
      else c # replaceAll pat replacement (passed @ [c]) cs)"

text \<open>Lines 86--90: the reference unquoted, in single quotes and in double quotes.\<close>

definition patterns :: "string \<Rightarrow> string list" where
  "patterns fontRelativePath =
     [''url('' @ fontRelativePath @ '')'',
      ''url('' @ [CHR 0x27] @ fontRelativePath @ [CHR 0x27] @ '')'',
      ''url('' @ [CHR 0x22] @ fontRelativePath @ [CHR 0x22] @ '')'']"

text \<open>Lines 81--84: the data URI of a font reference, from the content of its file.\<close>

definition absoluteFontPath :: "files \<Rightarrow> string \<Rightarrow> string" where
  "absoluteFontPath fs fontRelativePath =
     resolve fs (dirname fs (katexCssPath fs)) fontRelativePath"

definition dataUri :: "files \<Rightarrow> string \<Rightarrow> string \<Rightarrow> string" where
  "dataUri fs fontRelativePath fontData =
     ''url('' @ [CHR 0x22] @ ''data:''
       @ getMimeType (toLowerCase (extname fs (absoluteFontPath fs fontRelativePath)))
       @ '';base64,'' @ base64 fontData @ [CHR 0x22] @ '')''"

text \<open>Lines 80--95: the loop over the font references.  A font that cannot be read
  ends the loop with the error.\<close>

fun inlineFonts :: "files \<Rightarrow> string list \<Rightarrow> string \<Rightarrow> state \<Rightarrow> (error + string) \<times> state" where
  "inlineFonts fs [] css st = (Inr css, st)"
| "inlineFonts fs (fontRelativePath # rest) css st =
     (let path = absoluteFontPath fs fontRelativePath;
          st' = st\<lparr>reads := reads st @ [path]\<rparr>
      in case readFile fs path of
           None \<Rightarrow> (Inl (IOError path), st')
         | Some fontData \<Rightarrow>
             inlineFonts fs rest
               (fold (\<lambda>pattern css. replaceAll pattern (dataUri fs fontRelativePath fontData) [] css)
                  (patterns fontRelativePath) css)
               st')"

text \<open>Lines 70--99: the stylesheet is read, its fonts are inlined and the result is
  stored in the cache.\<close>

definition readKatexCss :: "files \<Rightarrow> state \<Rightarrow> (error + string) \<times> state" where
  "readKatexCss fs st =
     (let st1 = st\<lparr>reads := reads st @ [katexCssPath fs]\<rparr>
      in case readFile fs (katexCssPath fs) of
           None \<Rightarrow> (Inl (IOError (katexCssPath fs)), st1)
         | Some css \<Rightarrow>
             (case inlineFonts fs (fontMatches css) css st1 of
                (Inl e, st2) \<Rightarrow> (Inl e, st2)
              | (Inr css', st2) \<Rightarrow> (Inr css', st2\<lparr>cachedKatexCss := Some css'\<rparr>)))"

text \<open>Lines 65--100.  \<open>if (cachedKatexCss)\<close> tests the cache for truthiness: an empty
  string counts as no cache.\<close>

definition loadKatexCss :: "files \<Rightarrow> state \<Rightarrow> (error + string) \<times> state" where
  "loadKatexCss fs st =
     (case cachedKatexCss st of
        Some cached \<Rightarrow> if cached \<noteq> [] then (Inr cached, st) else readKatexCss fs st
      | None \<Rightarrow> readKatexCss fs st)"

text \<open>
  Lines 71--99 once \<open>fs.readFile\<close> has been called for the stylesheet: what a call does
  from the moment the \<open>await\<close> of line 71 resumes it.
\<close>

definition resumeKatexCss :: "files \<Rightarrow> state \<Rightarrow> (error + string) \<times> state" where
  "resumeKatexCss fs st1 =
     (case readFile fs (katexCssPath fs) of
        None \<Rightarrow> (Inl (IOError (katexCssPath fs)), st1)
      | Some css \<Rightarrow>
          (case inlineFonts fs (fontMatches css) css st1 of
             (Inl e, st2) \<Rightarrow> (Inl e, st2)
           | (Inr css', st2) \<Rightarrow> (Inr css', st2\<lparr>cachedKatexCss := Some css'\<rparr>)))"

text \<open>
  Two calls of \<open>loadKatexCss\<close> of which the second is made while the first is suspended,
  as when two conversions are started together.  An \<open>async\<close> function runs up to its
  first \<open>await\<close> when it is called: both calls evaluate the test of line 66 in the state
  \<open>st\<close>, and both call \<open>fs.readFile\<close> for the stylesheet at line 71, before either goes
  on.  The first call is then run to its end and the second after it, which is one of
  the orders in which the pending reads may complete.  The result holds what the two
  calls return and the state after both.
\<close>

definition loadKatexCssTwice :: "files \<Rightarrow> state \<Rightarrow> (error + string) \<times> (error + string) \<times> state" where
  "loadKatexCssTwice fs st =
     (case (case cachedKatexCss st of
              Some cached \<Rightarrow> if cached \<noteq> [] then Some cached else None
            | None \<Rightarrow> None) of
        Some cached \<Rightarrow> (Inr cached, Inr cached, st)
      | None \<Rightarrow>
          (case resumeKatexCss fs (st\<lparr>reads := reads st @ [katexCssPath fs, katexCssPath fs]\<rparr>) of
             (first, st1) \<Rightarrow>
               (case resumeKatexCss fs st1 of
                  (second, st2) \<Rightarrow> (first, second, st2))))"

section \<open>ensureKatexSupport\<close>

text \<open>\<open>candidate?.name\<close>: \<open>undefined\<close> unless the candidate is an object with that
  property.\<close>

fun candidateName :: "jsval \<Rightarrow> jsval" where
  "candidateName (JObj kvs) = get_prop kvs ''name''"
| "candidateName v = JUndefined"

text \<open>Lines 36--44.  Only an object passes the first test (\<open>null\<close> is falsy, and an array
  has no property \<open>extensions\<close>).\<close>

fun isKatexExtension :: "jsval \<Rightarrow> bool" where
  "isKatexExtension (JObj kvs) =
     (case get_prop kvs ''extensions'' of
        JArr candidates \<Rightarrow> list_ex (\<lambda>candidate. candidateName candidate = JStr ''inlineKatex'') candidates
      | _ \<Rightarrow> False)"
| "isKatexExtension v = False"

text \<open>
  Lines 102--118.  The configuration object is passed with its identity \<open>ident\<close>; the
  result holds the error, if any, the object as the call leaves it, and the module state.
  \<open>markedKatex\<close>, the constructor of the extension from the package
  \<open>marked-katex-extension\<close>, is a parameter.  Calling \<open>some\<close> on a value that is not an
  array throws a \<open>TypeError\<close>.
\<close>

definition ensureKatexSupport ::
  "files \<Rightarrow> (jsval \<Rightarrow> jsval) \<Rightarrow> nat \<Rightarrow> obj \<Rightarrow> state \<Rightarrow> error option \<times> obj \<times> state" where
  "ensureKatexSupport fs markedKatex ident config st =
     (if get_prop config ''math_engine'' \<noteq> JStr ''katex'' then (None, config, st)
      else
        case get_prop config ''marked_extensions'' of
          JArr extensions \<Rightarrow>
            (let config1 =
                   (if \<not> list_ex isKatexExtension extensions
                    then set_prop ''marked_extensions''
                           (JArr (extensions @ [markedKatex (get_prop config ''math_engine_options'')]))
                           config
                    else config)
             in if ident \<in> configsWithKatexCss st then (None, config1, st)
                else
                  case loadKatexCss fs st of
                    (Inl e, st1) \<Rightarrow> (Some e, config1, st1)
                  | (Inr katexCss, st1) \<Rightarrow>
                      (None,
                       set_prop ''css''
                         (if truthy (get_prop config1 ''css'')
                          then JStr (to_string (get_prop config1 ''css'') @ [CHR 0x0A] @ katexCss)
                          else JStr katexCss)
                         config1,
                       st1\<lparr>configsWithKatexCss := insert ident (configsWithKatexCss st1)\<rparr>))
        | _ \<Rightarrow> (Some TypeError, config, st))"

section \<open>convertMdToPdf: margin and destination\<close>

text \<open>
  Lines 184--187.  \<open>getMarginObject\<close> (from \<open>./helpers\<close>) is a parameter: the margin object
  of a string, \<open>None\<close> when it throws.  Reading \<open>margin\<close> from \<open>undefined\<close> or \<open>null\<close>
  throws a \<open>TypeError\<close>.
\<close>

definition sanitizeMargin :: "(string \<Rightarrow> jsval option) \<Rightarrow> obj \<Rightarrow> error + obj" where
  "sanitizeMargin getMarginObject config =
     (case get_prop config ''pdf_options'' of
        JUndefined \<Rightarrow> Inl TypeError
      | JNull \<Rightarrow> Inl TypeError
      | JObj po \<Rightarrow>
          (case get_prop po ''margin'' of
             JStr margin \<Rightarrow>
               (case getMarginObject margin of
                  None \<Rightarrow> Inl OtherError
                | Some m \<Rightarrow> Inr (set_prop ''pdf_options'' (JObj (set_prop ''margin'' m po)) config))
           | _ \<Rightarrow> Inr config)
      | _ \<Rightarrow> Inr config)"

text \<open>The input of a conversion: \<open>{ path: string } | { content: string }\<close>.\<close>

datatype input = Path string | Content string

text \<open>
  Lines 189--192.  \<open>getOutputFilePath\<close> (from \<open>./get-output-file-path\<close>) is a parameter:
  the path of the output file from the path of the markdown file and the extension.
\<close>

definition setDest :: "(string \<Rightarrow> string \<Rightarrow> string) \<Rightarrow> input \<Rightarrow> obj \<Rightarrow> obj" where
  "setDest getOutputFilePath inp config =
     (if get_prop config ''dest'' = JUndefined
      then set_prop ''dest''
             (case inp of
                Path path \<Rightarrow>
                  JStr (getOutputFilePath path
                          (if truthy (get_prop config ''as_html'') then ''html'' else ''pdf''))
              | Content content \<Rightarrow> JStr ''stdout'')
             config
      else config)"

text \<open>
  The functions that the module takes from elsewhere: \<open>JSON.parse\<close>, \<open>markedKatex\<close>,
  \<open>getMarginObject\<close> and \<open>getOutputFilePath\<close>.
\<close>

record externals =
  json_parse :: "string \<Rightarrow> jsval option"
  markedKatex :: "jsval \<Rightarrow> jsval"
  getMarginObject :: "string \<Rightarrow> jsval option"
  getOutputFilePath :: "string \<Rightarrow> string \<Rightarrow> string"

text \<open>
  Lines 157--192 in sequence, on the configuration object \<open>config\<close> with the identity
  \<open>ident\<close>: the identity and the content of the configuration at line 192, or the error
  thrown on the way.
\<close>

definition resolveFrom ::
  "files \<Rightarrow> externals \<Rightarrow> input \<Rightarrow> nat \<Rightarrow> obj \<Rightarrow> (string \<times> jsval) list \<Rightarrow> state
     \<Rightarrow> (error + nat \<times> obj) \<times> state" where
  "resolveFrom fs ext inp ident config args st =
     (case finishMerge (json_parse ext) config args of
        Inl e \<Rightarrow> (Inl e, st)
      | Inr config1 \<Rightarrow>
          (case ensureKatexSupport fs (markedKatex ext) ident config1 st of
             (Some e, config2, st1) \<Rightarrow> (Inl e, st1)
           | (None, config2, st1) \<Rightarrow>
               (case sanitizeMargin (getMarginObject ext) config2 of
                  Inl e \<Rightarrow> (Inl e, st1)
                | Inr config3 \<Rightarrow>
                    (Inr (ident, setDest (getOutputFilePath ext) inp config3), st1))))"

text \<open>
  Lines 146--192: the conversion from the data \<open>frontMatterConfig\<close> that the call of
  \<open>grayMatter\<close> at line 141 has returned (the call itself, which may throw, is part of
  \<open>convertMdToPdf\<close> below).  Merging the front matter builds a new configuration object;
  its identity \<open>fresh\<close> is chosen by the caller (a new object is in no \<open>WeakSet\<close>).
  After an \<open>Error\<close> returned as the data the caller's own object, with the identity
  \<open>ident\<close>, is used.
\<close>

definition resolveConfig ::
  "files \<Rightarrow> externals \<Rightarrow> input \<Rightarrow> nat \<Rightarrow> nat \<Rightarrow> obj \<Rightarrow> frontMatter \<Rightarrow> (string \<times> jsval) list
     \<Rightarrow> state \<Rightarrow> (error + nat \<times> obj) \<times> state" where
  "resolveConfig fs ext inp ident fresh config fmc args st =
     resolveFrom fs ext inp
       (case fmc of FmError msg \<Rightarrow> ident | FmData fm \<Rightarrow> fresh)
       (fst (mergeFrontMatter config fmc)) args
       (st\<lparr>console := console st @ snd (mergeFrontMatter config fmc)\<rparr>)"

text \<open>\<open>a ?? b\<close>.\<close>

definition nullish :: "jsval \<Rightarrow> jsval \<Rightarrow> jsval" where
  "nullish a b = (if a = JUndefined \<or> a = JNull then b else a)"

text \<open>
  What the conversion reads the document with: \<open>readFile\<close> of \<open>./read-file\<close>, from the
  path and the encoding (\<open>None\<close> when it rejects), and \<open>grayMatter\<close> of the package
  \<open>gray-matter\<close>, from the text and the options: the content and the data of the
  document, or \<open>None\<close> when the call throws.  gray-matter hands the front matter to
  its engine and catches nothing, so that the call throws the engine's exception on a
  front matter that is not well-formed YAML.
\<close>

record reader =
  readMdFile :: "string \<Rightarrow> jsval \<Rightarrow> string option"
  grayMatter :: "string \<Rightarrow> jsval \<Rightarrow> (string \<times> frontMatter) option"

text \<open>
  Lines 136--192: \<open>convertMdToPdf\<close> up to the resolved configuration.  The document is
  read (lines 136--139), \<open>grayMatter\<close> is called on it with the options of
  \<open>--gray-matter-options\<close> or of the configuration (lines 141--144), and the configuration
  is resolved from the data it returns.  There is no \<open>try\<close> in the function: what
  \<open>readFile\<close>, \<open>JSON.parse\<close> or \<open>grayMatter\<close> throws ends the conversion, before anything is
  printed.
\<close>

definition convertMdToPdf ::
  "files \<Rightarrow> externals \<Rightarrow> reader \<Rightarrow> input \<Rightarrow> nat \<Rightarrow> nat \<Rightarrow> obj \<Rightarrow> (string \<times> jsval) list
     \<Rightarrow> state \<Rightarrow> (error + nat \<times> obj) \<times> state" where
  "convertMdToPdf fs ext rd inp ident fresh config args st =
     (case (case inp of
              Content content \<Rightarrow> Inr content
            | Path path \<Rightarrow>
                (case readMdFile rd path
                        (nullish (get_prop args ''--md-file-encoding'')
                                 (get_prop config ''md_file_encoding'')) of
                   None \<Rightarrow> Inl (IOError path)
                 | Some fileContent \<Rightarrow> Inr fileContent)) of
        Inl e \<Rightarrow> (Inl e, st)
      | Inr mdFileContent \<Rightarrow>
          (case (if truthy (get_prop args ''--gray-matter-options'')
                 then json_parse ext (to_string (get_prop args ''--gray-matter-options''))
                 else Some (get_prop config ''gray_matter_options'')) of
             None \<Rightarrow> (Inl SyntaxError, st)
           | Some options \<Rightarrow>
               (case grayMatter rd mdFileContent options of
                  None \<Rightarrow> (Inl YAMLException, st)
                | Some (md, frontMatterConfig) \<Rightarrow>
                    resolveConfig fs ext inp ident fresh config frontMatterConfig args st)))"

section \<open>getMarked\<close>

text \<open>
  The part of highlight.js that \<open>getMarked\<close> uses: \<open>hljs.getLanguage(name)\<close> as the test
  whether the language is known, and \<open>hljs.highlight(code, { language }).value\<close>, \<open>None\<close>
  when it throws.
\<close>

record hljs =
  getLanguage :: "string \<Rightarrow> bool"
  highlight :: "string \<Rightarrow> string \<Rightarrow> string option"

text \<open>Lines 6--10: the default \<open>highlight\<close> callback.\<close>

definition defaultHighlight :: "hljs \<Rightarrow> string \<Rightarrow> string \<Rightarrow> string option" where
  "defaultHighlight h code languageName =
     (let language = (if getLanguage h languageName then languageName else ''plaintext'')
      in highlight h code language)"

text \<open>A value of a marked option: the \<open>highlight\<close> callback, or data.\<close>

datatype markedOption = Callback "string \<Rightarrow> string \<Rightarrow> string option" | Data jsval

text \<open>Lines 5--13: the object passed to \<open>marked.setOptions\<close>,
  \<open>{ highlight: ..., langPrefix: 'hljs ', ...options }\<close>.\<close>

definition markedOptions :: "hljs \<Rightarrow> (string \<times> markedOption) list \<Rightarrow> (string \<times> markedOption) list" where
  "markedOptions h options =
     fold (\<lambda>(k, v). AList.update k v) options
       [(''highlight'', Callback (defaultHighlight h)), (''langPrefix'', Data (JStr ''hljs ''))]"

text \<open>Lines 4--20: what \<open>getMarked\<close> installs: the options, and the extensions handed to
  \<open>marked.use\<close> (no call when there are none).\<close>

definition getMarked ::
  "hljs \<Rightarrow> (string \<times> markedOption) list \<Rightarrow> 'e list \<Rightarrow> (string \<times> markedOption) list \<times> 'e list option" where
  "getMarked h options extensions =
     (markedOptions h options, if length extensions > 0 then Some extensions else None)"

section \<open>What inlining the fonts should achieve\<close>

text \<open>The text of a reference to the font \<open>p\<close> with the quote \<open>q\<close> (none, single or
  double).\<close>

definition reference :: "string \<Rightarrow> string \<Rightarrow> string" where
  "reference q p = ''url('' @ q @ p @ q @ '')''"

definition isQuoteMark :: "string \<Rightarrow> bool" where
  "isQuoteMark q = (q = [] \<or> q = [CHR 0x27] \<or> q = [CHR 0x22])"

text \<open>A relative font path as group 2 of the regular expression matches it.\<close>

definition isFontPath :: "string \<Rightarrow> bool" where
  "isFontPath p = (prefix ''fonts/'' p \<and> drop 6 p \<noteq> [] \<and> list_all isPathChar (drop 6 p))"

text \<open>The data URI that the loop builds for a font reference (the font file is read
  with success when this is used).\<close>

definition fontUri :: "files \<Rightarrow> string \<Rightarrow> string" where
  "fontUri fs p =
     dataUri fs p (case readFile fs (absoluteFontPath fs p) of None \<Rightarrow> [] | Some fontData \<Rightarrow> fontData)"

text \<open>
  The stylesheet with references rewritten in one pass from left to right: each
  occurrence of a reference, as \<open>matchFontUrl\<close> finds it, is replaced by the URI of its
  path when the reference is selected, and copied otherwise; all other text is copied.
\<close>

function rewriteRefs :: "(string \<times> string \<Rightarrow> bool) \<Rightarrow> (string \<Rightarrow> string) \<Rightarrow> string \<Rightarrow> string" where
  "rewriteRefs sel uri s =
     (case s of
        [] \<Rightarrow> []
      | c # cs \<Rightarrow>
          (case matchFontUrl s of
             None \<Rightarrow> c # rewriteRefs sel uri cs
           | Some (q, p, n) \<Rightarrow>
               (if sel (q, p) then uri p else reference q p) @ rewriteRefs sel uri (drop (n - 1) cs)))"
  by pat_completeness auto
termination
  by (relation "measure (\<lambda>(sel, uri, s). length s)") auto

declare rewriteRefs.simps [simp del]

text \<open>What the specification asks of the inliner: every occurrence of every font
  reference is replaced by the data URI of its path.\<close>

definition inlineAll :: "files \<Rightarrow> string \<Rightarrow> string" where
  "inlineAll fs css = rewriteRefs (\<lambda>r. True) (fontUri fs) css"

text \<open>The shape of a data URI as far as the rewriting depends on it: \<open>url("d\<dots>")\<close> with
  no parenthesis, no dollar sign and no double quote in between.\<close>

definition dataUriLike :: "string \<Rightarrow> bool" where
  "dataUriLike u =
     (\<exists>b. u = ''url('' @ [CHR 0x22, CHR ''d''] @ b @ [CHR 0x22] @ '')''
          \<and> CHR ''('' \<notin> set b \<and> CHR '')'' \<notin> set b \<and> CHR ''$'' \<notin> set b
          \<and> CHR 0x22 \<notin> set b)"

section \<open>Properties of objects and of the merge steps\<close>

lemma get_set_prop [simp]:
  "get_prop (set_prop k v ob) k' = (if k' = k then v else get_prop ob k')"
  by (simp add: get_prop_def set_prop_def update_conv')

lemma get_prop_Nil [simp]: "get_prop [] k = JUndefined"
  by (simp add: get_prop_def)

lemma spread_Nil [simp]: "spread a [] = a"
  by (simp add: spread_def)

lemma spread_Cons [simp]: "spread a ((k, v) # b) = spread (set_prop k v a) b"
  by (simp add: spread_def)

lemma get_spread:
  "distinct (map fst b) \<Longrightarrow>
   get_prop (spread a b) k = (case map_of b k of Some v \<Rightarrow> v | None \<Rightarrow> get_prop a k)"
proof (induction b arbitrary: a)
  case Nil
  then show ?case by simp
next
  case (Cons x b)
  obtain k' v' where x: "x = (k', v')" by (cases x)
  from Cons.prems x have d: "distinct (map fst b)" and nin: "k' \<notin> fst ` set b" by auto
  from nin have none: "map_of b k' = None" by (simp add: map_of_eq_None_iff)
  show ?case
    using Cons.IH [OF d, of "set_prop k' v' a"] none
    by (auto simp: x split: option.splits)
qed

lemma get_sanitizeOption:
  "get_prop (sanitizeOption opt c) k =
     (if k = opt \<and> \<not> isArray (get_prop c opt) then JArr (filter truthy [get_prop c opt])
      else get_prop c k)"
  by (simp add: sanitizeOption_def)

lemma get_sanitizeArrayOptions:
  "get_prop (sanitizeArrayOptions c) k =
     (if k \<in> set arrayOptions \<and> \<not> isArray (get_prop c k) then JArr (filter truthy [get_prop c k])
      else get_prop c k)"
  by (auto simp add: sanitizeArrayOptions_def arrayOptions_def get_sanitizeOption)

text \<open>An argument changes only its own key, and the last argument for a key decides it.\<close>

lemma mergeCliArgs_other:
  "mergeCliArgs jp args c = Inr m \<Longrightarrow> k \<notin> argToKey ` fst ` set args \<Longrightarrow>
   get_prop m k = get_prop c k"
proof (induction args arbitrary: c)
  case Nil
  then show ?case by simp
next
  case (Cons a args)
  obtain ak av where a: "a = (ak, av)" by (cases a)
  from Cons.prems a obtain v where v: "argToValue jp ak av = Some v"
    and r: "mergeCliArgs jp args (set_prop (argToKey ak) v c) = Inr m"
    by (auto split: option.splits)
  from Cons.prems(2) a have "k \<noteq> argToKey ak" "k \<notin> argToKey ` fst ` set args" by auto
  with Cons.IH [OF r] show ?case by simp
qed

lemma mergeCliArgs_last:
  "mergeCliArgs jp (pre @ (ak, av) # post) c = Inr m \<Longrightarrow>
   argToKey ak \<notin> argToKey ` fst ` set post \<Longrightarrow>
   argToValue jp ak av = Some (get_prop m (argToKey ak))"
proof (induction pre arbitrary: c)
  case Nil
  from Nil.prems(1) obtain v where v: "argToValue jp ak av = Some v"
    and r: "mergeCliArgs jp post (set_prop (argToKey ak) v c) = Inr m"
    by (auto split: option.splits)
  from mergeCliArgs_other [OF r Nil.prems(2)] v show ?case by simp
next
  case (Cons a pre)
  obtain bk bv where a: "a = (bk, bv)" by (cases a)
  from Cons.prems(1) a obtain v where
    r: "mergeCliArgs jp (pre @ (ak, av) # post) (set_prop (argToKey bk) v c) = Inr m"
    by (auto split: option.splits)
  from Cons.IH [OF r Cons.prems(2)] show ?case .
qed

lemma mergeConfig_InrD:
  "mergeConfig jp config fmc args = Inr m \<Longrightarrow>
   \<exists>c. deriveDisplayHeaderFooter (fst (mergeFrontMatter config fmc)) = Inr c
      \<and> mergeCliArgs jp args (sanitizeArrayOptions c) = Inr m"
  by (auto simp: mergeConfig_def finishMerge_def split: sum.splits)

lemma get_deriveDisplayHeaderFooter:
  "deriveDisplayHeaderFooter c = Inr c' \<Longrightarrow> k \<noteq> ''pdf_options'' \<Longrightarrow>
   get_prop c' k = get_prop c k"
  by (auto simp: deriveDisplayHeaderFooter_def split: jsval.splits if_splits)

lemma get_mergeFrontMatter:
  "distinct (map fst fm) \<Longrightarrow> k \<noteq> ''pdf_options'' \<Longrightarrow>
   get_prop (fst (mergeFrontMatter config (FmData fm))) k =
     (case map_of fm k of Some v \<Rightarrow> v | None \<Rightarrow> get_prop config k)"
  by (simp add: mergeFrontMatter_def get_spread)

text \<open>The equations that evaluate the functions on given inputs.\<close>

lemmas merge_eval = mergeConfig_def finishMerge_def mergeFrontMatter_def deriveDisplayHeaderFooter_def
  sanitizeArrayOptions_def arrayOptions_def sanitizeOption_def argToKey_def argToValue_def
  jsonArgs_def get_prop_def set_prop_def spread_def

lemmas katex_eval = loadKatexCss_def readKatexCss_def fontMatches_def uniq_def matchAll.simps
  matchFontUrl_def isQuote_def isPathChar_def patterns_def dataUri_def absoluteFontPath_def
  getMimeType_def toLowerCase_def b64_def b64alphabet_def Let_def

section \<open>Precedence of the three layers\<close>

text \<open>
  C1 (as amended).  Let the merge of defaults \<open>config\<close>, front matter \<open>fm\<close> and invocation
  overrides \<open>args\<close> succeed with the configuration \<open>m\<close>.
  \<^item> Every key set by an invocation override holds the override's value in \<open>m\<close>, whatever
    the lower layers hold: the parsed JSON for one of the four JSON arguments, the
    argument as given otherwise; among several arguments for one key the last decides.
  \<^item> Every key of the front matter that no invocation override sets holds the
    front-matter value in \<open>m\<close>, whatever the defaults hold, except the key
    \<open>pdf_options\<close> (which is merged field by field) and a value of one of the four
    list-valued options that is not a list (which is coerced to a list).
\<close>

theorem merge_precedence:
  assumes "mergeConfig jp config (FmData fm) args = Inr m"
    and "distinct (map fst fm)"
  shows "(\<forall>pre argKey argValue post.
            args = pre @ (argKey, argValue) # post \<and> argToKey argKey \<notin> argToKey ` fst ` set post
            \<longrightarrow> argToValue jp argKey argValue = Some (get_prop m (argToKey argKey)))
       \<and> (\<forall>k v. map_of fm k = Some v \<and> k \<notin> argToKey ` fst ` set args
                 \<and> k \<noteq> ''pdf_options'' \<and> (k \<in> set arrayOptions \<longrightarrow> isArray v)
            \<longrightarrow> get_prop m k = v)"
proof -
  from mergeConfig_InrD [OF assms(1)] obtain c where
    d: "deriveDisplayHeaderFooter (fst (mergeFrontMatter config (FmData fm))) = Inr c"
    and a: "mergeCliArgs jp args (sanitizeArrayOptions c) = Inr m" by blast
  have one: "argToValue jp argKey argValue = Some (get_prop m (argToKey argKey))"
    if "args = pre @ (argKey, argValue) # post" "argToKey argKey \<notin> argToKey ` fst ` set post"
    for pre argKey argValue post
    using mergeCliArgs_last [of jp pre argKey argValue post] a that by simp
  have two: "get_prop m k = v"
    if "map_of fm k = Some v" "k \<notin> argToKey ` fst ` set args" "k \<noteq> ''pdf_options''"
       "k \<in> set arrayOptions \<longrightarrow> isArray v" for k v
  proof -
    have "get_prop m k = get_prop (sanitizeArrayOptions c) k"
      using mergeCliArgs_other [OF a that(2)] .
    moreover have "get_prop c k = v"
      using get_deriveDisplayHeaderFooter [OF d that(3)]
        get_mergeFrontMatter [OF assms(2) that(3), of config] that(1)
      by simp
    ultimately show ?thesis using that(4)
      by (auto simp add: get_sanitizeArrayOptions)
  qed
  from one two show ?thesis by blast
qed

text \<open>The theorem at work: \<open>dest\<close> is set by all three layers and holds the override's
  value; \<open>highlight_style\<close> is set by the defaults and the front matter and holds the
  front-matter value.\<close>

theorem merge_precedence_witness:
  "mergeConfig (\<lambda>s. None)
     [(''dest'', JStr ''a.pdf''), (''highlight_style'', JStr ''github''), (''pdf_options'', JObj [])]
     (FmData [(''dest'', JStr ''b.pdf''), (''highlight_style'', JStr ''monokai'')])
     [(''--dest'', JStr ''c.pdf'')]
   = Inr [(''dest'', JStr ''c.pdf''), (''highlight_style'', JStr ''monokai''),
          (''pdf_options'', JObj []), (''body_class'', JArr []), (''script'', JArr []),
          (''stylesheet'', JArr []), (''marked_extensions'', JArr [])]
   \<and> distinct (map fst [(''dest'', JStr ''b.pdf''), (''highlight_style'', JStr ''monokai'')])
   \<and> argToValue (\<lambda>s. None) ''--dest'' (JStr ''c.pdf'')
       = Some (get_prop [(''dest'', JStr ''c.pdf''), (''highlight_style'', JStr ''monokai''),
          (''pdf_options'', JObj []), (''body_class'', JArr []), (''script'', JArr []),
          (''stylesheet'', JArr []), (''marked_extensions'', JArr [])] (argToKey ''--dest''))
   \<and> get_prop [(''dest'', JStr ''c.pdf''), (''highlight_style'', JStr ''monokai''),
          (''pdf_options'', JObj []), (''body_class'', JArr []), (''script'', JArr []),
          (''stylesheet'', JArr []), (''marked_extensions'', JArr [])] ''highlight_style''
       = JStr ''monokai''"
proof -
  let ?m = "[(''dest'', JStr ''c.pdf''), (''highlight_style'', JStr ''monokai''),
          (''pdf_options'', JObj []), (''body_class'', JArr []), (''script'', JArr []),
          (''stylesheet'', JArr []), (''marked_extensions'', JArr [])]"
  let ?fm = "[(''dest'', JStr ''b.pdf''), (''highlight_style'', JStr ''monokai'')]"
  have m: "mergeConfig (\<lambda>s. None)
     [(''dest'', JStr ''a.pdf''), (''highlight_style'', JStr ''github''), (''pdf_options'', JObj [])]
     (FmData ?fm) [(''--dest'', JStr ''c.pdf'')] = Inr ?m"
    by (simp add: merge_eval)
  have d: "distinct (map fst ?fm)" by simp
  note t = merge_precedence [OF m d]
  from t [THEN conjunct1, rule_format, of "[]" "''--dest''" "JStr ''c.pdf''" "[]"]
  have a: "argToValue (\<lambda>s. None) ''--dest'' (JStr ''c.pdf'') = Some (get_prop ?m (argToKey ''--dest''))"
    by simp
  from t [THEN conjunct2, rule_format, of "''highlight_style''" "JStr ''monokai''"]
  have b: "get_prop ?m ''highlight_style'' = JStr ''monokai''"
    by (simp add: argToKey_def arrayOptions_def)
  from m d a b show ?thesis by blast
qed

text \<open>
  The claim as stated fails for the key \<open>pdf_options\<close>: it is present in the defaults and
  in the front matter and absent from the invocation overrides, and the merged
  configuration holds \<open>{scale: 2, format: 'A4'}\<close>, not the front-matter value
  \<open>{scale: 2}\<close>.
\<close>

theorem merge_precedence_counterexample:
  "mergeConfig (\<lambda>s. None)
     [(''pdf_options'', JObj [(''scale'', JNum 1), (''format'', JStr ''A4'')])]
     (FmData [(''pdf_options'', JObj [(''scale'', JNum 2)])]) []
   = Inr [(''pdf_options'', JObj [(''scale'', JNum 2), (''format'', JStr ''A4'')]),
          (''body_class'', JArr []), (''script'', JArr []), (''stylesheet'', JArr []),
          (''marked_extensions'', JArr [])]
   \<and> get_prop [(''pdf_options'', JObj [(''scale'', JNum 2), (''format'', JStr ''A4'')]),
          (''body_class'', JArr []), (''script'', JArr []), (''stylesheet'', JArr []),
          (''marked_extensions'', JArr [])] ''pdf_options''
     \<noteq> get_prop [(''pdf_options'', JObj [(''scale'', JNum 2)])] ''pdf_options''"
  by (simp add: merge_eval)

section \<open>Coercion of the list-valued options\<close>

lemma isArray_sanitizeArrayOptions:
  "opt \<in> set arrayOptions \<Longrightarrow> isArray (get_prop (sanitizeArrayOptions c) opt)"
  by (auto simp add: get_sanitizeArrayOptions)

lemma sanitizeArrayOptions_id:
  "\<forall>opt \<in> set arrayOptions. isArray (get_prop c opt) \<Longrightarrow> sanitizeArrayOptions c = c"
  by (simp add: sanitizeArrayOptions_def arrayOptions_def sanitizeOption_def)

lemma sanitizeArrayOptions_idem:
  "sanitizeArrayOptions (sanitizeArrayOptions c) = sanitizeArrayOptions c"
  by (rule sanitizeArrayOptions_id) (simp add: isArray_sanitizeArrayOptions)

lemma pdf_options_not_arrayOption: "''pdf_options'' \<notin> set arrayOptions"
  by (simp add: arrayOptions_def)

text \<open>
  C3.  Let the merge succeed with the configuration \<open>m\<close>.
  \<^item> For each of the four options \<open>body_class\<close>, \<open>script\<close>, \<open>stylesheet\<close> and
    \<open>marked_extensions\<close> that no invocation override sets, \<open>m\<close> holds the value \<open>v\<close> that
    the option has after the defaults and the front matter are merged, coerced: \<open>v\<close>
    itself when it is a list, the one-element list \<open>[v]\<close> when it is not a list and
    truthy, the empty list when it is falsy.
  \<^item> No other option is coerced: apart from these four and \<open>pdf_options\<close>, an option that
    no invocation override sets holds in \<open>m\<close> the value it has after the defaults and the
    front matter are merged.
  \<^item> The coercion (lines 163--170, on any configuration \<open>c\<close>) gives each of the four
    options the coerced value, and it is idempotent.
  \<^item> A value assigned by an invocation override (other than the four JSON arguments,
    whose value is parsed) is stored as given, also for one of the four options and a
    value that is not a list.
\<close>

theorem list_coercion:
  assumes "mergeConfig jp config fmc args = Inr m"
  shows "(\<forall>option \<in> {''body_class'', ''script'', ''stylesheet'', ''marked_extensions''}.
            option \<notin> argToKey ` fst ` set args \<longrightarrow>
            get_prop m option =
              (let v = get_prop (fst (mergeFrontMatter config fmc)) option
               in if isArray v then v else if truthy v then JArr [v] else JArr []))
       \<and> (\<forall>k. k \<notin> {''body_class'', ''script'', ''stylesheet'', ''marked_extensions'', ''pdf_options''}
               \<and> k \<notin> argToKey ` fst ` set args \<longrightarrow>
            get_prop m k = get_prop (fst (mergeFrontMatter config fmc)) k)
       \<and> (\<forall>option \<in> {''body_class'', ''script'', ''stylesheet'', ''marked_extensions''}.
            get_prop (sanitizeArrayOptions c) option =
              (let v = get_prop c option
               in if isArray v then v else if truthy v then JArr [v] else JArr []))
       \<and> sanitizeArrayOptions (sanitizeArrayOptions c) = sanitizeArrayOptions c
       \<and> (\<forall>pre argKey argValue post.
            args = pre @ (argKey, argValue) # post \<and> argToKey argKey \<notin> argToKey ` fst ` set post
              \<and> argKey \<notin> set jsonArgs
            \<longrightarrow> get_prop m (argToKey argKey) = argValue)"
proof -
  let ?four = "{''body_class'', ''script'', ''stylesheet'', ''marked_extensions''}"
  have four: "set arrayOptions = ?four"
    by (simp add: arrayOptions_def)
  from mergeConfig_InrD [OF assms] obtain c' where
    d: "deriveDisplayHeaderFooter (fst (mergeFrontMatter config fmc)) = Inr c'"
    and a: "mergeCliArgs jp args (sanitizeArrayOptions c') = Inr m" by blast
  have zero: "get_prop (sanitizeArrayOptions x) option =
              (let v = get_prop x option
               in if isArray v then v else if truthy v then JArr [v] else JArr [])"
    if "option \<in> ?four" for option x
    using that unfolding four [symmetric] by (simp add: get_sanitizeArrayOptions Let_def)
  have one: "get_prop m option =
              (let v = get_prop (fst (mergeFrontMatter config fmc)) option
               in if isArray v then v else if truthy v then JArr [v] else JArr [])"
    if "option \<in> ?four" "option \<notin> argToKey ` fst ` set args" for option
  proof -
    from that(1) have ne: "option \<noteq> ''pdf_options''" by auto
    have "get_prop m option = get_prop (sanitizeArrayOptions c') option"
      using mergeCliArgs_other [OF a that(2)] .
    also have "\<dots> = (let v = get_prop c' option
               in if isArray v then v else if truthy v then JArr [v] else JArr [])"
      by (rule zero [OF that(1)])
    finally show ?thesis
      using get_deriveDisplayHeaderFooter [OF d ne] by simp
  qed
  have two: "get_prop m k = get_prop (fst (mergeFrontMatter config fmc)) k"
    if "k \<notin> insert ''pdf_options'' ?four" "k \<notin> argToKey ` fst ` set args" for k
  proof -
    from that(1) have ne: "k \<noteq> ''pdf_options''" and nf: "k \<notin> set arrayOptions"
      unfolding four by auto
    have "get_prop m k = get_prop (sanitizeArrayOptions c') k"
      using mergeCliArgs_other [OF a that(2)] .
    also have "\<dots> = get_prop c' k"
      using nf by (simp add: get_sanitizeArrayOptions)
    finally show ?thesis
      using get_deriveDisplayHeaderFooter [OF d ne] by simp
  qed
  have three: "get_prop m (argToKey argKey) = argValue"
    if "args = pre @ (argKey, argValue) # post" "argToKey argKey \<notin> argToKey ` fst ` set post"
       "argKey \<notin> set jsonArgs" for pre argKey argValue post
    using mergeCliArgs_last [of jp pre argKey argValue post] a that
    by (simp add: argToValue_def)
  have "\<forall>k. k \<notin> {''body_class'', ''script'', ''stylesheet'', ''marked_extensions'', ''pdf_options''}
               \<and> k \<notin> argToKey ` fst ` set args \<longrightarrow>
            get_prop m k = get_prop (fst (mergeFrontMatter config fmc)) k"
    using two by auto
  moreover have "\<forall>option \<in> ?four. option \<notin> argToKey ` fst ` set args \<longrightarrow>
            get_prop m option =
              (let v = get_prop (fst (mergeFrontMatter config fmc)) option
               in if isArray v then v else if truthy v then JArr [v] else JArr [])"
    using one by blast
  moreover have "\<forall>option \<in> ?four. get_prop (sanitizeArrayOptions c) option =
              (let v = get_prop c option
               in if isArray v then v else if truthy v then JArr [v] else JArr [])"
    using zero by blast
  moreover have "\<forall>pre argKey argValue post.
            args = pre @ (argKey, argValue) # post \<and> argToKey argKey \<notin> argToKey ` fst ` set post
              \<and> argKey \<notin> set jsonArgs
            \<longrightarrow> get_prop m (argToKey argKey) = argValue"
    using three by blast
  ultimately show ?thesis
    using sanitizeArrayOptions_idem [of c] by blast
qed

text \<open>
  The theorem at work.  With \<open>body_class: 'dark'\<close> in the defaults (a string), the list
  \<open>script: ['a.js']\<close> in the defaults, \<open>stylesheet: 'a.css'\<close> (a string) and
  \<open>marked_extensions: ''\<close> (falsy) in the front matter, and no invocation override, the
  merged configuration holds \<open>['dark']\<close>, \<open>['a.js']\<close>, \<open>['a.css']\<close> and \<open>[]\<close>, and the
  option \<open>document_title\<close> keeps its string.  With the invocation override
  \<open>--stylesheet b.css\<close> in addition, \<open>stylesheet\<close> holds the string \<open>'b.css'\<close> as given.
\<close>

theorem list_coercion_witness:
  "mergeConfig (\<lambda>s. None)
     [(''pdf_options'', JObj []), (''body_class'', JStr ''dark''), (''script'', JArr [JStr ''a.js'']),
      (''document_title'', JStr ''T'')]
     (FmData [(''stylesheet'', JStr ''a.css''), (''marked_extensions'', JStr [])]) []
   = Inr [(''pdf_options'', JObj []), (''body_class'', JArr [JStr ''dark'']),
          (''script'', JArr [JStr ''a.js'']), (''document_title'', JStr ''T''),
          (''stylesheet'', JArr [JStr ''a.css'']), (''marked_extensions'', JArr [])]
   \<and> get_prop [(''pdf_options'', JObj []), (''body_class'', JArr [JStr ''dark'']),
          (''script'', JArr [JStr ''a.js'']), (''document_title'', JStr ''T''),
          (''stylesheet'', JArr [JStr ''a.css'']), (''marked_extensions'', JArr [])] ''body_class''
       = JArr [JStr ''dark'']
   \<and> get_prop [(''pdf_options'', JObj []), (''body_class'', JArr [JStr ''dark'']),
          (''script'', JArr [JStr ''a.js'']), (''document_title'', JStr ''T''),
          (''stylesheet'', JArr [JStr ''a.css'']), (''marked_extensions'', JArr [])] ''script''
       = JArr [JStr ''a.js'']
   \<and> get_prop [(''pdf_options'', JObj []), (''body_class'', JArr [JStr ''dark'']),
          (''script'', JArr [JStr ''a.js'']), (''document_title'', JStr ''T''),
          (''stylesheet'', JArr [JStr ''a.css'']), (''marked_extensions'', JArr [])] ''stylesheet''
       = JArr [JStr ''a.css'']
   \<and> get_prop [(''pdf_options'', JObj []), (''body_class'', JArr [JStr ''dark'']),
          (''script'', JArr [JStr ''a.js'']), (''document_title'', JStr ''T''),
          (''stylesheet'', JArr [JStr ''a.css'']), (''marked_extensions'', JArr [])] ''marked_extensions''
       = JArr []
   \<and> get_prop [(''pdf_options'', JObj []), (''body_class'', JArr [JStr ''dark'']),
          (''script'', JArr [JStr ''a.js'']), (''document_title'', JStr ''T''),
          (''stylesheet'', JArr [JStr ''a.css'']), (''marked_extensions'', JArr [])] ''document_title''
       = JStr ''T''
   \<and> mergeConfig (\<lambda>s. None)
     [(''pdf_options'', JObj []), (''body_class'', JStr ''dark''), (''script'', JArr [JStr ''a.js'']),
      (''document_title'', JStr ''T'')]
     (FmData [(''stylesheet'', JStr ''a.css''), (''marked_extensions'', JStr [])])
     [(''--stylesheet'', JStr ''b.css'')]
   = Inr [(''pdf_options'', JObj []), (''body_class'', JArr [JStr ''dark'']),
          (''script'', JArr [JStr ''a.js'']), (''document_title'', JStr ''T''),
          (''stylesheet'', JStr ''b.css''), (''marked_extensions'', JArr [])]
   \<and> get_prop [(''pdf_options'', JObj []), (''body_class'', JArr [JStr ''dark'']),
          (''script'', JArr [JStr ''a.js'']), (''document_title'', JStr ''T''),
          (''stylesheet'', JStr ''b.css''), (''marked_extensions'', JArr [])] ''stylesheet''
       = JStr ''b.css''"
proof -
  let ?c = "[(''pdf_options'', JObj []), (''body_class'', JStr ''dark''), (''script'', JArr [JStr ''a.js'']),
      (''document_title'', JStr ''T'')]"
  let ?fm = "FmData [(''stylesheet'', JStr ''a.css''), (''marked_extensions'', JStr [])]"
  let ?m = "[(''pdf_options'', JObj []), (''body_class'', JArr [JStr ''dark'']),
          (''script'', JArr [JStr ''a.js'']), (''document_title'', JStr ''T''),
          (''stylesheet'', JArr [JStr ''a.css'']), (''marked_extensions'', JArr [])]"
  let ?m' = "[(''pdf_options'', JObj []), (''body_class'', JArr [JStr ''dark'']),
          (''script'', JArr [JStr ''a.js'']), (''document_title'', JStr ''T''),
          (''stylesheet'', JStr ''b.css''), (''marked_extensions'', JArr [])]"
  have m: "mergeConfig (\<lambda>s. None) ?c ?fm [] = Inr ?m"
    by (simp add: merge_eval)
  have m': "mergeConfig (\<lambda>s. None) ?c ?fm [(''--stylesheet'', JStr ''b.css'')] = Inr ?m'"
    by (simp add: merge_eval)
  have f: "fst (mergeFrontMatter ?c ?fm) =
     [(''pdf_options'', JObj []), (''body_class'', JStr ''dark''), (''script'', JArr [JStr ''a.js'']),
      (''document_title'', JStr ''T''), (''stylesheet'', JStr ''a.css''),
      (''marked_extensions'', JStr [])]"
    by (simp add: merge_eval)
  note t = list_coercion [OF m, of "[]"]
  from t [THEN conjunct1, rule_format, of "''body_class''"]
  have a: "get_prop ?m ''body_class'' = JArr [JStr ''dark'']"
    unfolding f by (simp add: get_prop_def)
  from t [THEN conjunct1, rule_format, of "''script''"]
  have b: "get_prop ?m ''script'' = JArr [JStr ''a.js'']"
    unfolding f by (simp add: get_prop_def)
  from t [THEN conjunct1, rule_format, of "''stylesheet''"]
  have c: "get_prop ?m ''stylesheet'' = JArr [JStr ''a.css'']"
    unfolding f by (simp add: get_prop_def)
  from t [THEN conjunct1, rule_format, of "''marked_extensions''"]
  have d: "get_prop ?m ''marked_extensions'' = JArr []"
    unfolding f by (simp add: get_prop_def)
  from t [THEN conjunct2, THEN conjunct1, rule_format, of "''document_title''"]
  have e: "get_prop ?m ''document_title'' = JStr ''T''"
    unfolding f by (simp add: get_prop_def)
  from list_coercion [OF m', of "[]", THEN conjunct2, THEN conjunct2, THEN conjunct2, THEN conjunct2,
         rule_format, of "[]" "''--stylesheet''" "JStr ''b.css''" "[]"]
  have g: "get_prop ?m' ''stylesheet'' = JStr ''b.css''"
    by (simp add: argToKey_def jsonArgs_def)
  from m a b c d e m' g show ?thesis by blast
qed

section \<open>The nested option pdf_options\<close>

lemma pdf_options_mergeFrontMatter:
  "get_prop (fst (mergeFrontMatter config (FmData fm))) ''pdf_options'' =
     JObj (spread (own_entries (get_prop config ''pdf_options''))
                  (own_entries (get_prop fm ''pdf_options'')))"
  by (simp add: mergeFrontMatter_def)

lemma pdf_options_deriveDisplayHeaderFooter:
  "deriveDisplayHeaderFooter c = Inr c' \<Longrightarrow> get_prop c ''pdf_options'' = JObj po \<Longrightarrow>
   get_prop c' ''pdf_options'' =
     JObj (if (truthy (get_prop po ''headerTemplate'') \<or> truthy (get_prop po ''footerTemplate''))
              \<and> get_prop po ''displayHeaderFooter'' = JUndefined
           then set_prop ''displayHeaderFooter'' (JBool True) po else po)"
  by (auto simp: deriveDisplayHeaderFooter_def split: if_splits)

lemma pdf_options_finishMerge:
  assumes "finishMerge jp c args = Inr m"
    and "''pdf_options'' \<notin> argToKey ` fst ` set args"
    and "get_prop c ''pdf_options'' = JObj po"
  shows "get_prop m ''pdf_options'' =
     JObj (if (truthy (get_prop po ''headerTemplate'') \<or> truthy (get_prop po ''footerTemplate''))
              \<and> get_prop po ''displayHeaderFooter'' = JUndefined
           then set_prop ''displayHeaderFooter'' (JBool True) po else po)"
proof -
  from assms(1) obtain c' where d: "deriveDisplayHeaderFooter c = Inr c'"
    and a: "mergeCliArgs jp args (sanitizeArrayOptions c') = Inr m"
    by (auto simp: finishMerge_def split: sum.splits)
  have "get_prop m ''pdf_options'' = get_prop (sanitizeArrayOptions c') ''pdf_options''"
    using mergeCliArgs_other [OF a assms(2)] .
  also have "\<dots> = get_prop c' ''pdf_options''"
    by (simp add: get_sanitizeArrayOptions pdf_options_not_arrayOption)
  finally show ?thesis
    using pdf_options_deriveDisplayHeaderFooter [OF d assms(3)] by simp
qed

text \<open>
  C4 (as amended).  Let the merge of defaults \<open>config\<close>, front matter \<open>fm\<close> and invocation
  overrides \<open>args\<close> succeed with the configuration \<open>m\<close>.
  \<^item> When no invocation override sets \<open>pdf_options\<close>, the \<open>pdf_options\<close> of \<open>m\<close> is the
    field-by-field merge of the defaults' and the front matter's: every field of the
    front matter's \<open>pdf_options\<close> holds the front-matter value, and every other field
    holds what the defaults' \<open>pdf_options\<close> holds (\<open>displayHeaderFooter\<close> apart, which
    may be derived).
  \<^item> When an invocation override sets \<open>pdf_options\<close>, the \<open>pdf_options\<close> of \<open>m\<close> is the
    parsed value of the (last such) override as a whole: fields of the lower layers
    that it does not mention are not kept.
\<close>

theorem pdf_options_merge:
  assumes "mergeConfig jp config (FmData fm) args = Inr m"
    and "distinct (map fst (own_entries (get_prop fm ''pdf_options'')))"
  shows "(''pdf_options'' \<notin> argToKey ` fst ` set args \<longrightarrow>
            (\<exists>po. get_prop m ''pdf_options'' = JObj po
               \<and> (\<forall>field. field \<noteq> ''displayHeaderFooter'' \<longrightarrow>
                     get_prop po field =
                       (case map_of (own_entries (get_prop fm ''pdf_options'')) field of
                          Some v \<Rightarrow> v
                        | None \<Rightarrow> get_prop (own_entries (get_prop config ''pdf_options'')) field))))
       \<and> (\<forall>pre argKey argValue post.
            args = pre @ (argKey, argValue) # post \<and> argToKey argKey = ''pdf_options''
              \<and> ''pdf_options'' \<notin> argToKey ` fst ` set post
            \<longrightarrow> argToValue jp argKey argValue = Some (get_prop m ''pdf_options''))"
proof -
  have fin: "finishMerge jp (fst (mergeFrontMatter config (FmData fm))) args = Inr m"
    using assms(1) by (simp add: mergeConfig_def)
  have one: "\<exists>po. get_prop m ''pdf_options'' = JObj po
               \<and> (\<forall>field. field \<noteq> ''displayHeaderFooter'' \<longrightarrow>
                     get_prop po field =
                       (case map_of (own_entries (get_prop fm ''pdf_options'')) field of
                          Some v \<Rightarrow> v
                        | None \<Rightarrow> get_prop (own_entries (get_prop config ''pdf_options'')) field))"
    if "''pdf_options'' \<notin> argToKey ` fst ` set args"
    using pdf_options_finishMerge [OF fin that pdf_options_mergeFrontMatter]
    by (auto simp: get_spread [OF assms(2)])
  from mergeConfig_InrD [OF assms(1)] obtain c where
    a: "mergeCliArgs jp args (sanitizeArrayOptions c) = Inr m" by blast
  have two: "argToValue jp argKey argValue = Some (get_prop m ''pdf_options'')"
    if "args = pre @ (argKey, argValue) # post" "argToKey argKey = ''pdf_options''"
       "''pdf_options'' \<notin> argToKey ` fst ` set post" for pre argKey argValue post
    using mergeCliArgs_last [of jp pre argKey argValue post] a that by simp
  from one two show ?thesis by blast
qed

text \<open>The theorem at work on the example of the specification: defaults
  \<open>{scale: 1, format: 'A4'}\<close> and front matter \<open>{scale: 2}\<close> give \<open>scale = 2\<close> and
  \<open>format = 'A4'\<close>; and with the override \<open>--pdf-options '{"scale":2}'\<close> the merged
  \<open>pdf_options\<close> is the parsed value.\<close>

theorem pdf_options_merge_witness:
  "mergeConfig (\<lambda>s. None)
     [(''pdf_options'', JObj [(''scale'', JNum 1), (''format'', JStr ''A4'')])]
     (FmData [(''pdf_options'', JObj [(''scale'', JNum 2)])]) []
   = Inr [(''pdf_options'', JObj [(''scale'', JNum 2), (''format'', JStr ''A4'')]),
          (''body_class'', JArr []), (''script'', JArr []), (''stylesheet'', JArr []),
          (''marked_extensions'', JArr [])]
   \<and> distinct (map fst (own_entries (get_prop [(''pdf_options'', JObj [(''scale'', JNum 2)])] ''pdf_options'')))
   \<and> (\<exists>po. get_prop [(''pdf_options'', JObj [(''scale'', JNum 2), (''format'', JStr ''A4'')]),
          (''body_class'', JArr []), (''script'', JArr []), (''stylesheet'', JArr []),
          (''marked_extensions'', JArr [])] ''pdf_options'' = JObj po
        \<and> get_prop po ''scale'' = JNum 2 \<and> get_prop po ''format'' = JStr ''A4'')
   \<and> mergeConfig (\<lambda>s. if s = ''{\"scale\":2}'' then Some (JObj [(''scale'', JNum 2)]) else None)
     [(''pdf_options'', JObj [(''scale'', JNum 1), (''format'', JStr ''A4'')])]
     (FmData []) [(''--pdf-options'', JStr ''{\"scale\":2}'')]
   = Inr [(''pdf_options'', JObj [(''scale'', JNum 2)]),
          (''body_class'', JArr []), (''script'', JArr []), (''stylesheet'', JArr []),
          (''marked_extensions'', JArr [])]
   \<and> argToValue (\<lambda>s. if s = ''{\"scale\":2}'' then Some (JObj [(''scale'', JNum 2)]) else None)
         ''--pdf-options'' (JStr ''{\"scale\":2}'')
       = Some (get_prop [(''pdf_options'', JObj [(''scale'', JNum 2)]),
          (''body_class'', JArr []), (''script'', JArr []), (''stylesheet'', JArr []),
          (''marked_extensions'', JArr [])] ''pdf_options'')"
proof -
  let ?m = "[(''pdf_options'', JObj [(''scale'', JNum 2), (''format'', JStr ''A4'')]),
          (''body_class'', JArr []), (''script'', JArr []), (''stylesheet'', JArr []),
          (''marked_extensions'', JArr [])]"
  let ?c = "[(''pdf_options'', JObj [(''scale'', JNum 1), (''format'', JStr ''A4'')])]"
  let ?fm = "[(''pdf_options'', JObj [(''scale'', JNum 2)])]"
  have m: "mergeConfig (\<lambda>s. None) ?c (FmData ?fm) [] = Inr ?m"
    by (simp add: merge_eval)
  have d: "distinct (map fst (own_entries (get_prop ?fm ''pdf_options'')))"
    by (simp add: get_prop_def)
  from pdf_options_merge [OF m d, THEN conjunct1] obtain po where
    p: "get_prop ?m ''pdf_options'' = JObj po"
    and f: "\<And>field. field \<noteq> ''displayHeaderFooter'' \<Longrightarrow>
              get_prop po field =
                (case map_of (own_entries (get_prop ?fm ''pdf_options'')) field of
                   Some v \<Rightarrow> v
                 | None \<Rightarrow> get_prop (own_entries (get_prop ?c ''pdf_options'')) field)"
    by auto
  from f [of "''scale''"] have s: "get_prop po ''scale'' = JNum 2"
    by (simp add: get_prop_def)
  from f [of "''format''"] have t: "get_prop po ''format'' = JStr ''A4''"
    by (simp add: get_prop_def)
  let ?jp = "\<lambda>s. if s = ''{\"scale\":2}'' then Some (JObj [(''scale'', JNum 2)]) else None"
  let ?m' = "[(''pdf_options'', JObj [(''scale'', JNum 2)]),
          (''body_class'', JArr []), (''script'', JArr []), (''stylesheet'', JArr []),
          (''marked_extensions'', JArr [])]"
  have m': "mergeConfig ?jp ?c (FmData []) [(''--pdf-options'', JStr ''{\"scale\":2}'')] = Inr ?m'"
    by (simp add: merge_eval)
  have d': "distinct (map fst (own_entries (get_prop [] ''pdf_options'')))"
    by simp
  from pdf_options_merge [OF m' d', THEN conjunct2, rule_format,
         of "[]" "''--pdf-options''" "JStr ''{\"scale\":2}''" "[]"]
  have o: "argToValue ?jp ''--pdf-options'' (JStr ''{\"scale\":2}'') = Some (get_prop ?m' ''pdf_options'')"
    by (simp add: argToKey_def)
  from m d p s t m' o show ?thesis by blast
qed

text \<open>
  The claim as stated fails for the invocation layer: with the defaults
  \<open>{scale: 1, format: 'A4'}\<close> and the override \<open>--pdf-options '{"scale":2}'\<close> the merged
  \<open>pdf_options\<close> is \<open>{scale: 2}\<close>; the field \<open>format\<close> of the lower layer, absent from the
  overriding layer, is not preserved.
\<close>

theorem pdf_options_merge_counterexample:
  "mergeConfig (\<lambda>s. if s = ''{\"scale\":2}'' then Some (JObj [(''scale'', JNum 2)]) else None)
     [(''pdf_options'', JObj [(''scale'', JNum 1), (''format'', JStr ''A4'')])]
     (FmData []) [(''--pdf-options'', JStr ''{\"scale\":2}'')]
   = Inr [(''pdf_options'', JObj [(''scale'', JNum 2)]),
          (''body_class'', JArr []), (''script'', JArr []), (''stylesheet'', JArr []),
          (''marked_extensions'', JArr [])]
   \<and> get_prop [(''scale'', JNum 1), (''format'', JStr ''A4'')] ''format'' = JStr ''A4''
   \<and> get_prop [(''scale'', JNum 2)] ''format'' = JUndefined"
  by (simp add: merge_eval)

section \<open>The derived option displayHeaderFooter\<close>

text \<open>
  C8 (as amended).  Let the merge succeed with the configuration \<open>m\<close>, and let \<open>po\<close> be
  the \<open>pdf_options\<close> after the defaults and the front matter are merged.
  \<^item> When no invocation override sets \<open>pdf_options\<close>: if \<open>headerTemplate\<close> or
    \<open>footerTemplate\<close> of \<open>po\<close> is truthy and \<open>displayHeaderFooter\<close> of \<open>po\<close> is
    \<open>undefined\<close>, the \<open>pdf_options\<close> of \<open>m\<close> is \<open>po\<close> with \<open>displayHeaderFooter = true\<close>;
    otherwise it is \<open>po\<close> unchanged, so that a \<open>displayHeaderFooter\<close> set by the
    defaults or the front matter is kept.
  \<^item> When an invocation override sets \<open>pdf_options\<close>, the \<open>pdf_options\<close> of \<open>m\<close> is the
    parsed value of the override: nothing is derived for it.
\<close>

theorem display_header_footer:
  assumes "mergeConfig jp config fmc args = Inr m"
    and "get_prop (fst (mergeFrontMatter config fmc)) ''pdf_options'' = JObj po"
  shows "(''pdf_options'' \<notin> argToKey ` fst ` set args \<longrightarrow>
            get_prop m ''pdf_options'' =
              JObj (if (truthy (get_prop po ''headerTemplate'') \<or> truthy (get_prop po ''footerTemplate''))
                       \<and> get_prop po ''displayHeaderFooter'' = JUndefined
                    then set_prop ''displayHeaderFooter'' (JBool True) po else po))
       \<and> (\<forall>pre argKey argValue post.
            args = pre @ (argKey, argValue) # post \<and> argToKey argKey = ''pdf_options''
              \<and> ''pdf_options'' \<notin> argToKey ` fst ` set post
            \<longrightarrow> argToValue jp argKey argValue = Some (get_prop m ''pdf_options''))"
proof -
  have fin: "finishMerge jp (fst (mergeFrontMatter config fmc)) args = Inr m"
    using assms(1) by (simp add: mergeConfig_def)
  from mergeConfig_InrD [OF assms(1)] obtain c where
    a: "mergeCliArgs jp args (sanitizeArrayOptions c) = Inr m" by blast
  have two: "argToValue jp argKey argValue = Some (get_prop m ''pdf_options'')"
    if "args = pre @ (argKey, argValue) # post" "argToKey argKey = ''pdf_options''"
       "''pdf_options'' \<notin> argToKey ` fst ` set post" for pre argKey argValue post
    using mergeCliArgs_last [of jp pre argKey argValue post] a that by simp
  from pdf_options_finishMerge [OF fin _ assms(2)] two show ?thesis by blast
qed

text \<open>The theorem at work: a front-matter \<open>headerTemplate\<close> with no \<open>displayHeaderFooter\<close>
  in any layer gives \<open>displayHeaderFooter = true\<close>, and a \<open>displayHeaderFooter = false\<close> of the
  defaults is kept beside a \<open>footerTemplate\<close>.\<close>

theorem display_header_footer_witness:
  "mergeConfig (\<lambda>s. None) [(''pdf_options'', JObj [(''format'', JStr ''A4'')])]
     (FmData [(''pdf_options'', JObj [(''headerTemplate'', JStr ''<p>h</p>'')])]) []
   = Inr [(''pdf_options'', JObj [(''format'', JStr ''A4''), (''headerTemplate'', JStr ''<p>h</p>''),
                                 (''displayHeaderFooter'', JBool True)]),
          (''body_class'', JArr []), (''script'', JArr []), (''stylesheet'', JArr []),
          (''marked_extensions'', JArr [])]
   \<and> get_prop (fst (mergeFrontMatter [(''pdf_options'', JObj [(''format'', JStr ''A4'')])]
        (FmData [(''pdf_options'', JObj [(''headerTemplate'', JStr ''<p>h</p>'')])]))) ''pdf_options''
       = JObj [(''format'', JStr ''A4''), (''headerTemplate'', JStr ''<p>h</p>'')]
   \<and> get_prop [(''pdf_options'', JObj [(''format'', JStr ''A4''), (''headerTemplate'', JStr ''<p>h</p>''),
                                 (''displayHeaderFooter'', JBool True)]),
          (''body_class'', JArr []), (''script'', JArr []), (''stylesheet'', JArr []),
          (''marked_extensions'', JArr [])] ''pdf_options''
       = JObj (set_prop ''displayHeaderFooter'' (JBool True)
                 [(''format'', JStr ''A4''), (''headerTemplate'', JStr ''<p>h</p>'')])
   \<and> mergeConfig (\<lambda>s. None)
       [(''pdf_options'', JObj [(''footerTemplate'', JStr ''<p>f</p>''), (''displayHeaderFooter'', JBool False)])]
       (FmError ''bad indentation'') []
   = Inr [(''pdf_options'', JObj [(''footerTemplate'', JStr ''<p>f</p>''), (''displayHeaderFooter'', JBool False)]),
          (''body_class'', JArr []), (''script'', JArr []), (''stylesheet'', JArr []),
          (''marked_extensions'', JArr [])]
   \<and> get_prop [(''pdf_options'', JObj [(''footerTemplate'', JStr ''<p>f</p>''), (''displayHeaderFooter'', JBool False)]),
          (''body_class'', JArr []), (''script'', JArr []), (''stylesheet'', JArr []),
          (''marked_extensions'', JArr [])] ''pdf_options''
       = JObj [(''footerTemplate'', JStr ''<p>f</p>''), (''displayHeaderFooter'', JBool False)]"
proof -
  let ?m = "[(''pdf_options'', JObj [(''format'', JStr ''A4''), (''headerTemplate'', JStr ''<p>h</p>''),
                                 (''displayHeaderFooter'', JBool True)]),
          (''body_class'', JArr []), (''script'', JArr []), (''stylesheet'', JArr []),
          (''marked_extensions'', JArr [])]"
  let ?c = "[(''pdf_options'', JObj [(''format'', JStr ''A4'')])]"
  let ?fm = "FmData [(''pdf_options'', JObj [(''headerTemplate'', JStr ''<p>h</p>'')])]"
  let ?po = "[(''format'', JStr ''A4''), (''headerTemplate'', JStr ''<p>h</p>'')]"
  have m: "mergeConfig (\<lambda>s. None) ?c ?fm [] = Inr ?m"
    by (simp add: merge_eval)
  have p: "get_prop (fst (mergeFrontMatter ?c ?fm)) ''pdf_options'' = JObj ?po"
    by (simp add: merge_eval)
  from display_header_footer [OF m p, THEN conjunct1]
  have r: "get_prop ?m ''pdf_options'' = JObj (set_prop ''displayHeaderFooter'' (JBool True) ?po)"
    by (simp add: get_prop_def)
  let ?po' = "[(''footerTemplate'', JStr ''<p>f</p>''), (''displayHeaderFooter'', JBool False)]"
  let ?c' = "[(''pdf_options'', JObj ?po')]"
  let ?m' = "[(''pdf_options'', JObj ?po'),
          (''body_class'', JArr []), (''script'', JArr []), (''stylesheet'', JArr []),
          (''marked_extensions'', JArr [])]"
  have m': "mergeConfig (\<lambda>s. None) ?c' (FmError ''bad indentation'') [] = Inr ?m'"
    by (simp add: merge_eval)
  have p': "get_prop (fst (mergeFrontMatter ?c' (FmError ''bad indentation''))) ''pdf_options'' = JObj ?po'"
    by (simp add: merge_eval)
  from display_header_footer [OF m' p', THEN conjunct1]
  have r': "get_prop ?m' ''pdf_options'' = JObj ?po'"
    by (simp add: get_prop_def)
  from m p r m' r' show ?thesis by blast
qed

text \<open>
  The claim as stated fails when the template comes from the invocation layer: with
  \<open>--pdf-options '{"headerTemplate":"<p>h</p>"}'\<close> and no \<open>displayHeaderFooter\<close> in any
  layer, \<open>headerTemplate\<close> is present in the merged \<open>pdf_options\<close> and
  \<open>displayHeaderFooter\<close> is \<open>undefined\<close>, not \<open>true\<close>.
\<close>

theorem display_header_footer_counterexample:
  "mergeConfig
     (\<lambda>s. if s = ''{\"headerTemplate\":\"<p>h</p>\"}''
           then Some (JObj [(''headerTemplate'', JStr ''<p>h</p>'')]) else None)
     [(''pdf_options'', JObj [])] (FmData [])
     [(''--pdf-options'', JStr ''{\"headerTemplate\":\"<p>h</p>\"}'')]
   = Inr [(''pdf_options'', JObj [(''headerTemplate'', JStr ''<p>h</p>'')]),
          (''body_class'', JArr []), (''script'', JArr []), (''stylesheet'', JArr []),
          (''marked_extensions'', JArr [])]
   \<and> get_prop [(''headerTemplate'', JStr ''<p>h</p>'')] ''headerTemplate'' = JStr ''<p>h</p>''
   \<and> get_prop [(''headerTemplate'', JStr ''<p>h</p>'')] ''displayHeaderFooter'' = JUndefined
   \<and> JUndefined \<noteq> JBool True"
  by (simp add: merge_eval)

section \<open>A front matter that could not be parsed\<close>

lemma mergeFrontMatter_empty:
  assumes "get_prop config ''pdf_options'' = JObj po"
  shows "fst (mergeFrontMatter config (FmData [])) = config"
proof -
  from assms have "map_of config ''pdf_options'' = Some (JObj po)"
    by (auto simp: get_prop_def split: option.splits)
  then show ?thesis
    using assms by (simp add: mergeFrontMatter_def set_prop_def update_triv)
qed

text \<open>
  Reading the stylesheet depends on the module state through the cache only, and it
  changes the cache and the log of reads only.
\<close>

lemma inlineFonts_shape:
  "\<exists>r l. \<forall>st. inlineFonts fs ps css st = (r, st\<lparr>reads := reads st @ l\<rparr>)"
proof (induction ps arbitrary: css)
  case Nil
  have "\<forall>st. inlineFonts fs [] css st = (Inr css, st\<lparr>reads := reads st @ []\<rparr>)" by simp
  then show ?case by blast
next
  case (Cons p ps)
  show ?case
  proof (cases "readFile fs (absoluteFontPath fs p)")
    case None
    then have "\<forall>st. inlineFonts fs (p # ps) css st =
        (Inl (IOError (absoluteFontPath fs p)), st\<lparr>reads := reads st @ [absoluteFontPath fs p]\<rparr>)"
      by (simp add: Let_def)
    then show ?thesis by blast
  next
    case (Some fontData)
    let ?css = "fold (\<lambda>pattern css. replaceAll pattern (dataUri fs p fontData) [] css) (patterns p) css"
    from Cons.IH [of ?css] obtain r l where
      ih: "\<And>st. inlineFonts fs ps ?css st = (r, st\<lparr>reads := reads st @ l\<rparr>)" by blast
    have "\<forall>st. inlineFonts fs (p # ps) css st = (r, st\<lparr>reads := reads st @ (absoluteFontPath fs p # l)\<rparr>)"
      using Some by (simp add: Let_def ih)
    then show ?thesis by blast
  qed
qed

lemma readKatexCss_shape:
  "\<exists>r l c. \<forall>st. readKatexCss fs st = (r, st\<lparr>reads := reads st @ l, cachedKatexCss := c (cachedKatexCss st)\<rparr>)"
proof (cases "readFile fs (katexCssPath fs)")
  case None
  then have "\<forall>st. readKatexCss fs st =
      (Inl (IOError (katexCssPath fs)), st\<lparr>reads := reads st @ [katexCssPath fs], cachedKatexCss := id (cachedKatexCss st)\<rparr>)"
    by (simp add: readKatexCss_def Let_def)
  then show ?thesis by blast
next
  case (Some css)
  from inlineFonts_shape [of fs "fontMatches css" css] obtain r l where
    i: "\<And>st. inlineFonts fs (fontMatches css) css st = (r, st\<lparr>reads := reads st @ l\<rparr>)" by blast
  show ?thesis
  proof (cases r)
    case (Inl e)
    have "\<forall>st. readKatexCss fs st =
        (Inl e, st\<lparr>reads := reads st @ (katexCssPath fs # l), cachedKatexCss := id (cachedKatexCss st)\<rparr>)"
      using Some Inl by (simp add: readKatexCss_def Let_def i)
    then show ?thesis by blast
  next
    case (Inr css')
    have "\<forall>st. readKatexCss fs st =
        (Inr css', st\<lparr>reads := reads st @ (katexCssPath fs # l), cachedKatexCss := (\<lambda>_. Some css') (cachedKatexCss st)\<rparr>)"
      using Some Inr by (simp add: readKatexCss_def Let_def i)
    then show ?thesis
      by (intro exI [where x = "Inr css'"] exI [where x = "katexCssPath fs # l"]
            exI [where x = "\<lambda>_. Some css'"])
  qed
qed

lemma loadKatexCss_shape:
  "\<exists>r l c'. \<forall>st. cachedKatexCss st = c \<longrightarrow>
      loadKatexCss fs st = (r, st\<lparr>reads := reads st @ l, cachedKatexCss := c'\<rparr>)"
proof -
  from readKatexCss_shape [of fs] obtain r l f where
    rd: "\<And>st. readKatexCss fs st = (r, st\<lparr>reads := reads st @ l, cachedKatexCss := f (cachedKatexCss st)\<rparr>)"
    by blast
  show ?thesis
  proof (cases "\<exists>cached. c = Some cached \<and> cached \<noteq> []")
    case True
    then obtain cached where c: "c = Some cached" "cached \<noteq> []" by blast
    have "\<forall>st. cachedKatexCss st = c \<longrightarrow>
      loadKatexCss fs st = (Inr cached, st\<lparr>reads := reads st @ [], cachedKatexCss := c\<rparr>)"
      using c by (auto simp: loadKatexCss_def)
    then show ?thesis by blast
  next
    case False
    have "\<forall>st. cachedKatexCss st = c \<longrightarrow>
      loadKatexCss fs st = (r, st\<lparr>reads := reads st @ l, cachedKatexCss := f c\<rparr>)"
      using False by (auto simp: loadKatexCss_def rd split: option.splits)
    then show ?thesis by blast
  qed
qed

text \<open>For an object that is not in the \<open>WeakSet\<close>, the error and the resulting
  configuration depend neither on the identity of the object nor on the warnings
  printed.\<close>

lemma ensureKatexSupport_ident:
  assumes "i \<notin> configsWithKatexCss st" "j \<notin> configsWithKatexCss st"
  shows "fst (ensureKatexSupport fs mk i c (st\<lparr>console := x\<rparr>)) = fst (ensureKatexSupport fs mk j c st)
       \<and> fst (snd (ensureKatexSupport fs mk i c (st\<lparr>console := x\<rparr>)))
           = fst (snd (ensureKatexSupport fs mk j c st))"
proof -
  from loadKatexCss_shape [of "cachedKatexCss st" fs] obtain r l c' where
    ld: "\<And>s. cachedKatexCss s = cachedKatexCss st \<Longrightarrow>
           loadKatexCss fs s = (r, s\<lparr>reads := reads s @ l, cachedKatexCss := c'\<rparr>)"
    by blast
  have a: "loadKatexCss fs st = (r, st\<lparr>reads := reads st @ l, cachedKatexCss := c'\<rparr>)"
    by (rule ld) simp
  have b: "loadKatexCss fs (st\<lparr>console := x\<rparr>) =
             (r, (st\<lparr>console := x\<rparr>)\<lparr>reads := reads (st\<lparr>console := x\<rparr>) @ l, cachedKatexCss := c'\<rparr>)"
    by (rule ld) simp
  show ?thesis
    using assms
    by (cases r) (auto simp: ensureKatexSupport_def Let_def a b split: jsval.splits)
qed

lemma resolveFrom_ident:
  assumes "i \<notin> configsWithKatexCss st" "j \<notin> configsWithKatexCss st"
  shows "map_sum id snd (fst (resolveFrom fs ext inp i c args (st\<lparr>console := x\<rparr>)))
       = map_sum id snd (fst (resolveFrom fs ext inp j c args st))"
proof (cases "finishMerge (json_parse ext) c args")
  case (Inl e)
  then show ?thesis by (simp add: resolveFrom_def)
next
  case (Inr c1)
  obtain e1 c2 st1 where r1: "ensureKatexSupport fs (markedKatex ext) i c1 (st\<lparr>console := x\<rparr>) = (e1, c2, st1)"
    by (cases "ensureKatexSupport fs (markedKatex ext) i c1 (st\<lparr>console := x\<rparr>)") auto
  obtain e1' c2' st1' where r2: "ensureKatexSupport fs (markedKatex ext) j c1 st = (e1', c2', st1')"
    by (cases "ensureKatexSupport fs (markedKatex ext) j c1 st") auto
  from ensureKatexSupport_ident [OF assms, of fs "markedKatex ext" c1 x] r1 r2
  have eq: "e1 = e1'" "c2 = c2'" by simp_all
  show ?thesis
    using Inr r1 r2 eq
    by (auto simp: resolveFrom_def split: option.splits sum.splits)
qed

text \<open>
  What lines 147--149 do provide for: a call of \<open>grayMatter\<close> that returns an \<open>Error\<close> as
  the data.  Then one warning is printed, the configuration is left as it is, which is
  the configuration built from an empty front matter (when \<open>pdf_options\<close> is an object,
  as its type demands), and the conversion ends as the conversion of a document with
  an empty front matter ends, with the same error or the same resolved configuration
  (for configuration objects that are not yet in the \<open>WeakSet\<close>).
\<close>

lemma front_matter_error_returned:
  "mergeFrontMatter config (FmError msg) =
     (config, [''Warning: the front-matter was ignored because it could not be parsed:''
                 @ [CHR 0x0A] @ '' '' @ msg])
   \<and> (get_prop config ''pdf_options'' = JObj po \<longrightarrow>
        fst (mergeFrontMatter config (FmError msg)) = fst (mergeFrontMatter config (FmData [])))
   \<and> resolveConfig fs ext inp ident fresh config (FmError msg) args st =
        resolveFrom fs ext inp ident config args
          (st\<lparr>console := console st @
             [''Warning: the front-matter was ignored because it could not be parsed:''
                @ [CHR 0x0A] @ '' '' @ msg]\<rparr>)
   \<and> (get_prop config ''pdf_options'' = JObj po \<and> ident \<notin> configsWithKatexCss st
        \<and> fresh \<notin> configsWithKatexCss st \<longrightarrow>
        map_sum id snd (fst (resolveConfig fs ext inp ident fresh config (FmError msg) args st))
          = map_sum id snd (fst (resolveConfig fs ext inp ident fresh config (FmData []) args st)))"
proof -
  have one: "mergeFrontMatter config (FmError msg) =
     (config, [''Warning: the front-matter was ignored because it could not be parsed:''
                 @ [CHR 0x0A] @ '' '' @ msg])"
    by (simp add: mergeFrontMatter_def)
  have two: "fst (mergeFrontMatter config (FmError msg)) = fst (mergeFrontMatter config (FmData []))"
    if "get_prop config ''pdf_options'' = JObj po"
    using mergeFrontMatter_empty [OF that] one by simp
  have three: "resolveConfig fs ext inp ident fresh config (FmError msg) args st =
        resolveFrom fs ext inp ident config args
          (st\<lparr>console := console st @
             [''Warning: the front-matter was ignored because it could not be parsed:''
                @ [CHR 0x0A] @ '' '' @ msg]\<rparr>)"
    by (simp add: resolveConfig_def one)
  have four: "map_sum id snd (fst (resolveConfig fs ext inp ident fresh config (FmError msg) args st))
          = map_sum id snd (fst (resolveConfig fs ext inp ident fresh config (FmData []) args st))"
    if "get_prop config ''pdf_options'' = JObj po" "ident \<notin> configsWithKatexCss st"
       "fresh \<notin> configsWithKatexCss st"
  proof -
    have e: "resolveConfig fs ext inp ident fresh config (FmData []) args st =
               resolveFrom fs ext inp fresh config args st"
      using mergeFrontMatter_empty [OF that(1)]
      by (simp add: resolveConfig_def) (simp add: mergeFrontMatter_def)
    show ?thesis
      unfolding three e by (rule resolveFrom_ident [OF that(2) that(3)])
  qed
  from one two three four show ?thesis by blast
qed

text \<open>For example, a conversion of in-memory content for which \<open>grayMatter\<close> returns an
  \<open>Error\<close> resolves the configuration, with the destination \<open>stdout\<close>, as the same
  conversion with an empty front matter does.\<close>

lemma front_matter_error_returned_example:
  "get_prop [(''pdf_options'', JObj [])] ''pdf_options'' = JObj []
   \<and> (0::nat) \<notin> configsWithKatexCss \<lparr>configsWithKatexCss = {}, cachedKatexCss = None, reads = [], console = []\<rparr>
   \<and> (1::nat) \<notin> configsWithKatexCss \<lparr>configsWithKatexCss = {}, cachedKatexCss = None, reads = [], console = []\<rparr>
   \<and> map_sum id snd (fst (resolveConfig
        \<lparr>katexCssPath = ''katex.min.css'', readFile = (\<lambda>p. None), resolve = (\<lambda>d p. d @ p),
         dirname = (\<lambda>p. []), extname = (\<lambda>p. [])\<rparr>
        \<lparr>json_parse = (\<lambda>s. None), markedKatex = (\<lambda>v. JObj []), getMarginObject = (\<lambda>s. None),
         getOutputFilePath = (\<lambda>p e. p @ ''.'' @ e)\<rparr>
        (Content ''# Title'') 0 1 [(''pdf_options'', JObj [])] (FmError ''bad indentation'') []
        \<lparr>configsWithKatexCss = {}, cachedKatexCss = None, reads = [], console = []\<rparr>))
     = Inr [(''pdf_options'', JObj []), (''body_class'', JArr []), (''script'', JArr []),
            (''stylesheet'', JArr []), (''marked_extensions'', JArr []), (''dest'', JStr ''stdout'')]"
proof -
  let ?st = "\<lparr>configsWithKatexCss = {}, cachedKatexCss = None, reads = [], console = []\<rparr>"
  let ?fs = "\<lparr>katexCssPath = ''katex.min.css'', readFile = (\<lambda>p. None), resolve = (\<lambda>d p. d @ p),
         dirname = (\<lambda>p. []), extname = (\<lambda>p. [])\<rparr>"
  let ?ext = "\<lparr>json_parse = (\<lambda>s. None), markedKatex = (\<lambda>v. JObj []), getMarginObject = (\<lambda>s. None),
         getOutputFilePath = (\<lambda>p e. p @ ''.'' @ e)\<rparr>"
  let ?c = "[(''pdf_options'', JObj [])]"
  have p: "get_prop ?c ''pdf_options'' = JObj []" by (simp add: get_prop_def)
  have i: "(0::nat) \<notin> configsWithKatexCss ?st" "(1::nat) \<notin> configsWithKatexCss ?st" by simp_all
  have r: "map_sum id snd (fst (resolveConfig ?fs ?ext (Content ''# Title'') 0 1 ?c (FmData []) [] ?st))
     = Inr [(''pdf_options'', JObj []), (''body_class'', JArr []), (''script'', JArr []),
            (''stylesheet'', JArr []), (''marked_extensions'', JArr []), (''dest'', JStr ''stdout'')]"
    by (simp add: resolveConfig_def resolveFrom_def ensureKatexSupport_def sanitizeMargin_def
                  setDest_def merge_eval)
  from front_matter_error_returned [of ?c "''bad indentation''" "[]" ?fs ?ext "Content ''# Title''" 0 1 "[]" ?st]
  have "map_sum id snd (fst (resolveConfig ?fs ?ext (Content ''# Title'') 0 1 ?c (FmError ''bad indentation'') [] ?st))
      = map_sum id snd (fst (resolveConfig ?fs ?ext (Content ''# Title'') 0 1 ?c (FmData []) [] ?st))"
    using p i by blast
  with r p i show ?thesis by simp
qed

text \<open>A call of \<open>grayMatter\<close> that throws ends the conversion: nothing is printed and no
  configuration is resolved.\<close>

lemma convertMdToPdf_grayMatter_throws:
  assumes "get_prop args ''--gray-matter-options'' = JUndefined"
    and "grayMatter rd content (get_prop config ''gray_matter_options'') = None"
  shows "convertMdToPdf fs ext rd (Content content) ident fresh config args st
           = (Inl YAMLException, st)"
  using assms by (simp add: convertMdToPdf_def)

text \<open>A conversion that resolves a configuration has read the document, and \<open>grayMatter\<close>
  has returned the data from which \<open>resolveConfig\<close> resolves it.\<close>

lemma convertMdToPdf_InrD:
  assumes "convertMdToPdf fs ext rd inp ident fresh config args st = (Inr (i, final), st')"
  shows "\<exists>mdFileContent options md frontMatterConfig.
           grayMatter rd mdFileContent options = Some (md, frontMatterConfig)
           \<and> resolveConfig fs ext inp ident fresh config frontMatterConfig args st
                 = (Inr (i, final), st')"
  using assms
  by (auto simp: convertMdToPdf_def split: sum.splits option.splits if_splits prod.splits)

text \<open>
  C2.  The claim does not hold of the code.  The parse error of a front matter that is
  not well-formed YAML is an exception thrown by the call of \<open>grayMatter\<close> at line 141,
  and nothing catches it: the conversion of the document
  \<^verbatim>\<open>---\<close>, \<^verbatim>\<open>title: [unclosed\<close>, \<^verbatim>\<open>---\<close>, \<^verbatim>\<open># Title\<close> (four lines)
  ends with that exception, no warning is printed and no configuration is resolved,
  whereas the conversion of the same document without the front matter resolves the
  configuration.  The warning of lines 147--149 is reached only when \<open>grayMatter\<close>
  returns an \<open>Error\<close> as the data.
\<close>

theorem front_matter_throws:
  "convertMdToPdf
     \<lparr>katexCssPath = ''katex.min.css'', readFile = (\<lambda>p. None), resolve = (\<lambda>d p. d @ p),
      dirname = (\<lambda>p. []), extname = (\<lambda>p. [])\<rparr>
     \<lparr>json_parse = (\<lambda>s. None), markedKatex = (\<lambda>v. JObj []), getMarginObject = (\<lambda>s. None),
      getOutputFilePath = (\<lambda>p e. p @ ''.'' @ e)\<rparr>
     \<lparr>readMdFile = (\<lambda>p e. None),
      grayMatter = (\<lambda>md options. if md = ''# Title'' then Some (md, FmData []) else None)\<rparr>
     (Content (''---'' @ [CHR 0x0A] @ ''title: [unclosed'' @ [CHR 0x0A] @ ''---'' @ [CHR 0x0A] @ ''# Title''))
     0 1 [(''pdf_options'', JObj [])] []
     \<lparr>configsWithKatexCss = {}, cachedKatexCss = None, reads = [], console = []\<rparr>
   = (Inl YAMLException,
      \<lparr>configsWithKatexCss = {}, cachedKatexCss = None, reads = [], console = []\<rparr>)
   \<and> convertMdToPdf
     \<lparr>katexCssPath = ''katex.min.css'', readFile = (\<lambda>p. None), resolve = (\<lambda>d p. d @ p),
      dirname = (\<lambda>p. []), extname = (\<lambda>p. [])\<rparr>
     \<lparr>json_parse = (\<lambda>s. None), markedKatex = (\<lambda>v. JObj []), getMarginObject = (\<lambda>s. None),
      getOutputFilePath = (\<lambda>p e. p @ ''.'' @ e)\<rparr>
     \<lparr>readMdFile = (\<lambda>p e. None),
      grayMatter = (\<lambda>md options. if md = ''# Title'' then Some (md, FmData []) else None)\<rparr>
     (Content ''# Title'')
     0 1 [(''pdf_options'', JObj [])] []
     \<lparr>configsWithKatexCss = {}, cachedKatexCss = None, reads = [], console = []\<rparr>
   = (Inr (1, [(''pdf_options'', JObj []), (''body_class'', JArr []), (''script'', JArr []),
               (''stylesheet'', JArr []), (''marked_extensions'', JArr []), (''dest'', JStr ''stdout'')]),
      \<lparr>configsWithKatexCss = {}, cachedKatexCss = None, reads = [], console = []\<rparr>)"
  by (simp add: convertMdToPdf_def nullish_def resolveConfig_def resolveFrom_def
                ensureKatexSupport_def sanitizeMargin_def setDest_def merge_eval)

section \<open>The output destination\<close>

lemma get_ensureKatexSupport:
  "ensureKatexSupport fs mk i c st = (e, c', st') \<Longrightarrow>
   k \<noteq> ''marked_extensions'' \<Longrightarrow> k \<noteq> ''css'' \<Longrightarrow> get_prop c' k = get_prop c k"
  by (auto simp: ensureKatexSupport_def Let_def
           split: if_splits jsval.splits prod.splits sum.splits)

lemma get_sanitizeMargin:
  "sanitizeMargin g c = Inr c' \<Longrightarrow> k \<noteq> ''pdf_options'' \<Longrightarrow> get_prop c' k = get_prop c k"
  by (auto simp: sanitizeMargin_def split: jsval.splits option.splits)

lemma resolveFrom_InrD:
  assumes "resolveFrom fs ext inp i c args st = (Inr (i', final), st')"
  shows "\<exists>m c2 c3 st0. finishMerge (json_parse ext) c args = Inr m
           \<and> ensureKatexSupport fs (markedKatex ext) i m st = (None, c2, st0)
           \<and> sanitizeMargin (getMarginObject ext) c2 = Inr c3
           \<and> final = setDest (getOutputFilePath ext) inp c3"
  using assms
  by (auto simp: resolveFrom_def split: sum.splits prod.splits option.splits)

text \<open>
  C9.  Let the pipeline reach line 192 with the configuration \<open>final\<close>, and let \<open>m\<close> be the
  configuration after the three layers are merged.  If \<open>dest\<close> is \<open>undefined\<close> in \<open>m\<close>, then
  \<open>dest\<close> in \<open>final\<close> is \<open>getOutputFilePath(path, 'html')\<close> for a file-backed input when
  \<open>as_html\<close> is truthy, \<open>getOutputFilePath(path, 'pdf')\<close> for a file-backed input
  otherwise, and \<open>'stdout'\<close> for in-memory content.  If \<open>dest\<close> is set in \<open>m\<close>, \<open>final\<close> holds
  that value.
\<close>

theorem output_destination:
  assumes "resolveConfig fs ext inp ident fresh config fmc args st = (Inr (i, final), st')"
  shows "\<exists>m. mergeConfig (json_parse ext) config fmc args = Inr m
           \<and> get_prop final ''dest'' =
               (if get_prop m ''dest'' = JUndefined
                then (case inp of
                        Path path \<Rightarrow>
                          JStr (getOutputFilePath ext path
                                  (if truthy (get_prop m ''as_html'') then ''html'' else ''pdf''))
                      | Content content \<Rightarrow> JStr ''stdout'')
                else get_prop m ''dest'')"
proof -
  from assms have "resolveFrom fs ext inp
       (case fmc of FmError msg \<Rightarrow> ident | FmData fm \<Rightarrow> fresh)
       (fst (mergeFrontMatter config fmc)) args
       (st\<lparr>console := console st @ snd (mergeFrontMatter config fmc)\<rparr>) = (Inr (i, final), st')"
    by (simp add: resolveConfig_def)
  from resolveFrom_InrD [OF this] obtain m c2 c3 st0 where
    m: "finishMerge (json_parse ext) (fst (mergeFrontMatter config fmc)) args = Inr m"
    and e: "ensureKatexSupport fs (markedKatex ext)
              (case fmc of FmError msg \<Rightarrow> ident | FmData fm \<Rightarrow> fresh) m
              (st\<lparr>console := console st @ snd (mergeFrontMatter config fmc)\<rparr>) = (None, c2, st0)"
    and g: "sanitizeMargin (getMarginObject ext) c2 = Inr c3"
    and f: "final = setDest (getOutputFilePath ext) inp c3"
    by blast
  have d: "get_prop c3 ''dest'' = get_prop m ''dest''"
    using get_ensureKatexSupport [OF e, of "''dest''"] get_sanitizeMargin [OF g, of "''dest''"]
    by simp
  have h: "get_prop c3 ''as_html'' = get_prop m ''as_html''"
    using get_ensureKatexSupport [OF e, of "''as_html''"] get_sanitizeMargin [OF g, of "''as_html''"]
    by simp
  have "get_prop final ''dest'' =
               (if get_prop m ''dest'' = JUndefined
                then (case inp of
                        Path path \<Rightarrow>
                          JStr (getOutputFilePath ext path
                                  (if truthy (get_prop m ''as_html'') then ''html'' else ''pdf''))
                      | Content content \<Rightarrow> JStr ''stdout'')
                else get_prop m ''dest'')"
    unfolding f by (simp add: setDest_def d h)
  with m show ?thesis by (auto simp: mergeConfig_def)
qed

text \<open>The theorem at work: a file-backed input with \<open>as_html\<close> set in the front matter and
  no \<open>dest\<close> in any layer gets the HTML path derived from the input path.\<close>

theorem output_destination_witness:
  "resolveConfig
     \<lparr>katexCssPath = ''katex.min.css'', readFile = (\<lambda>p. None), resolve = (\<lambda>d p. d @ p),
      dirname = (\<lambda>p. []), extname = (\<lambda>p. [])\<rparr>
     \<lparr>json_parse = (\<lambda>s. None), markedKatex = (\<lambda>v. JObj []), getMarginObject = (\<lambda>s. None),
      getOutputFilePath = (\<lambda>p e. p @ ''.'' @ e)\<rparr>
     (Path ''doc.md'') 0 1 [(''pdf_options'', JObj [])] (FmData [(''as_html'', JBool True)]) []
     \<lparr>configsWithKatexCss = {}, cachedKatexCss = None, reads = [], console = []\<rparr>
   = (Inr (1, [(''pdf_options'', JObj []), (''as_html'', JBool True), (''body_class'', JArr []),
               (''script'', JArr []), (''stylesheet'', JArr []), (''marked_extensions'', JArr []),
               (''dest'', JStr ''doc.md.html'')]),
      \<lparr>configsWithKatexCss = {}, cachedKatexCss = None, reads = [], console = []\<rparr>)
   \<and> get_prop [(''pdf_options'', JObj []), (''as_html'', JBool True), (''body_class'', JArr []),
               (''script'', JArr []), (''stylesheet'', JArr []), (''marked_extensions'', JArr []),
               (''dest'', JStr ''doc.md.html'')] ''dest'' = JStr ''doc.md.html''"
proof -
  let ?st = "\<lparr>configsWithKatexCss = {}, cachedKatexCss = None, reads = [], console = []\<rparr>"
  let ?fs = "\<lparr>katexCssPath = ''katex.min.css'', readFile = (\<lambda>p. None), resolve = (\<lambda>d p. d @ p),
         dirname = (\<lambda>p. []), extname = (\<lambda>p. [])\<rparr>"
  let ?ext = "\<lparr>json_parse = (\<lambda>s. None), markedKatex = (\<lambda>v. JObj []), getMarginObject = (\<lambda>s. None),
         getOutputFilePath = (\<lambda>p e. p @ ''.'' @ e)\<rparr>"
  let ?c = "[(''pdf_options'', JObj [])]"
  let ?fm = "FmData [(''as_html'', JBool True)]"
  let ?final = "[(''pdf_options'', JObj []), (''as_html'', JBool True), (''body_class'', JArr []),
               (''script'', JArr []), (''stylesheet'', JArr []), (''marked_extensions'', JArr []),
               (''dest'', JStr ''doc.md.html'')]"
  have r: "resolveConfig ?fs ?ext (Path ''doc.md'') 0 1 ?c ?fm [] ?st = (Inr (1, ?final), ?st)"
    by (simp add: resolveConfig_def resolveFrom_def ensureKatexSupport_def sanitizeMargin_def
                  setDest_def merge_eval)
  have m: "mergeConfig (json_parse ?ext) ?c ?fm [] =
      Inr [(''pdf_options'', JObj []), (''as_html'', JBool True), (''body_class'', JArr []),
           (''script'', JArr []), (''stylesheet'', JArr []), (''marked_extensions'', JArr [])]"
    by (simp add: merge_eval)
  from output_destination [OF r] m
  have "get_prop ?final ''dest'' = JStr ''doc.md.html''"
    by (auto simp: get_prop_def)
  with r show ?thesis by blast
qed

section \<open>The default highlighter\<close>

lemma map_of_fold_update:
  "distinct (map fst b) \<Longrightarrow>
   map_of (fold (\<lambda>(k, v). AList.update k v) b a) k =
     (case map_of b k of Some v \<Rightarrow> Some v | None \<Rightarrow> map_of a k)"
proof (induction b arbitrary: a)
  case Nil
  then show ?case by simp
next
  case (Cons x b)
  obtain k' v' where x: "x = (k', v')" by (cases x)
  from Cons.prems x have d: "distinct (map fst b)" and nin: "k' \<notin> fst ` set b" by auto
  from nin have none: "map_of b k' = None" by (simp add: map_of_eq_None_iff)
  show ?case
    using Cons.IH [OF d, of "AList.update k' v' a"] none
    by (auto simp: x update_conv' split: option.splits)
qed

text \<open>
  C10.  The default highlighter highlights the code under the supplied language name
  when highlight.js knows that language, and as \<open>plaintext\<close> otherwise.  In the options
  that \<open>getMarked\<close> installs, an option that the caller supplies holds the caller's value
  (also \<open>highlight\<close> and \<open>langPrefix\<close>), and any other option holds the default.
\<close>

theorem default_highlighter:
  "defaultHighlight h code languageName =
     highlight h code (if getLanguage h languageName then languageName else ''plaintext'')
   \<and> (distinct (map fst options) \<longrightarrow>
        (\<forall>k. map_of (fst (getMarked h options extensions)) k =
           (case map_of options k of
              Some v \<Rightarrow> Some v
            | None \<Rightarrow> map_of [(''highlight'', Callback (defaultHighlight h)),
                              (''langPrefix'', Data (JStr ''hljs ''))] k)))"
  by (simp add: defaultHighlight_def getMarked_def markedOptions_def map_of_fold_update)

text \<open>The theorem at work: an unknown language is highlighted as \<open>plaintext\<close>, a known one
  under its name, and a caller's \<open>langPrefix\<close> replaces the default while the default
  highlighter stays.\<close>

theorem default_highlighter_witness:
  "defaultHighlight \<lparr>getLanguage = (\<lambda>l. l = ''js''), highlight = (\<lambda>c l. Some (l @ '':'' @ c))\<rparr>
     ''x = 1'' ''brainfog'' = Some ''plaintext:x = 1''
   \<and> defaultHighlight \<lparr>getLanguage = (\<lambda>l. l = ''js''), highlight = (\<lambda>c l. Some (l @ '':'' @ c))\<rparr>
     ''x = 1'' ''js'' = Some ''js:x = 1''
   \<and> distinct (map fst [(''langPrefix'', Data (JStr ''language-''))])
   \<and> map_of (fst (getMarked \<lparr>getLanguage = (\<lambda>l. l = ''js''), highlight = (\<lambda>c l. Some (l @ '':'' @ c))\<rparr>
        [(''langPrefix'', Data (JStr ''language-''))] ([] :: jsval list))) ''langPrefix''
       = Some (Data (JStr ''language-''))
   \<and> map_of (fst (getMarked \<lparr>getLanguage = (\<lambda>l. l = ''js''), highlight = (\<lambda>c l. Some (l @ '':'' @ c))\<rparr>
        [(''langPrefix'', Data (JStr ''language-''))] ([] :: jsval list))) ''highlight''
       = Some (Callback (defaultHighlight
            \<lparr>getLanguage = (\<lambda>l. l = ''js''), highlight = (\<lambda>c l. Some (l @ '':'' @ c))\<rparr>))"
proof -
  let ?h = "\<lparr>getLanguage = (\<lambda>l. l = ''js''), highlight = (\<lambda>c l. Some (l @ '':'' @ c))\<rparr>"
  let ?o = "[(''langPrefix'', Data (JStr ''language-''))]"
  have d: "distinct (map fst ?o)" by simp
  note t = default_highlighter [of ?h _ _ ?o "[] :: jsval list"]
  from t [of "''x = 1''" "''brainfog''", THEN conjunct1]
  have a: "defaultHighlight ?h ''x = 1'' ''brainfog'' = Some ''plaintext:x = 1''" by simp
  from t [of "''x = 1''" "''js''", THEN conjunct1]
  have b: "defaultHighlight ?h ''x = 1'' ''js'' = Some ''js:x = 1''" by simp
  from t [of "[]" "[]", THEN conjunct2, rule_format, OF d, of "''langPrefix''"]
  have c: "map_of (fst (getMarked ?h ?o ([] :: jsval list))) ''langPrefix'' = Some (Data (JStr ''language-''))"
    by simp
  from t [of "[]" "[]", THEN conjunct2, rule_format, OF d, of "''highlight''"]
  have e: "map_of (fst (getMarked ?h ?o ([] :: jsval list))) ''highlight'' = Some (Callback (defaultHighlight ?h))"
    by simp
  from a b c d e show ?thesis by blast
qed

section \<open>The stylesheet cache\<close>

lemma readKatexCss_cached:
  "readKatexCss fs st = (Inr css, st1) \<Longrightarrow> cachedKatexCss st1 = Some css"
  by (auto simp: readKatexCss_def Let_def split: option.splits prod.splits sum.splits)

lemma loadKatexCss_cached:
  "loadKatexCss fs st = (Inr css, st1) \<Longrightarrow> css \<noteq> [] \<Longrightarrow> cachedKatexCss st1 = Some css"
  by (auto simp: loadKatexCss_def readKatexCss_cached split: option.splits if_splits)

lemma loadKatexCss_hit:
  "cachedKatexCss st = Some css \<Longrightarrow> css \<noteq> [] \<Longrightarrow> loadKatexCss fs st = (Inr css, st)"
  by (simp add: loadKatexCss_def)

text \<open>
  What the cache does provide for: calls made one after the other.  Once a call of
  \<open>loadKatexCss\<close> has returned a stylesheet that is not empty, the cache holds it, and
  every later call, in whatever state of the module that still holds this cache, returns
  the same string and leaves the state as it is: no file is read again.
\<close>

lemma stylesheet_cache_sequential:
  assumes "loadKatexCss fs st = (Inr css, st1)" and "css \<noteq> []"
  shows "cachedKatexCss st1 = Some css
       \<and> loadKatexCss fs st1 = (Inr css, st1)
       \<and> (\<forall>st2. cachedKatexCss st2 = Some css \<longrightarrow> loadKatexCss fs st2 = (Inr css, st2))"
  using loadKatexCss_cached [OF assms] assms(2) by (simp add: loadKatexCss_hit)

text \<open>For example, with a stylesheet that refers to one font the first call reads the
  stylesheet and the font, and a call made after it has returned reads nothing.\<close>

lemma stylesheet_cache_sequential_example:
  "loadKatexCss
     \<lparr>katexCssPath = ''/k/katex.min.css'',
      readFile = (\<lambda>p. if p = ''/k/katex.min.css'' then Some ''@font-face{src:url(fonts/x.woff2)}''
                     else if p = ''/k/fonts/x.woff2'' then Some ''Man'' else None),
      resolve = (\<lambda>d p. d @ ''/'' @ p), dirname = (\<lambda>p. ''/k''),
      extname = (\<lambda>p. dropWhile (\<lambda>c. c \<noteq> CHR ''.'') p)\<rparr>
     \<lparr>configsWithKatexCss = {}, cachedKatexCss = None, reads = [], console = []\<rparr>
   = (Inr ''@font-face{src:url(\"data:font/woff2;base64,TWFu\")}'',
      \<lparr>configsWithKatexCss = {},
       cachedKatexCss = Some ''@font-face{src:url(\"data:font/woff2;base64,TWFu\")}'',
       reads = [''/k/katex.min.css'', ''/k/fonts/x.woff2''], console = []\<rparr>)
   \<and> ''@font-face{src:url(\"data:font/woff2;base64,TWFu\")}'' \<noteq> []
   \<and> loadKatexCss
     \<lparr>katexCssPath = ''/k/katex.min.css'',
      readFile = (\<lambda>p. if p = ''/k/katex.min.css'' then Some ''@font-face{src:url(fonts/x.woff2)}''
                     else if p = ''/k/fonts/x.woff2'' then Some ''Man'' else None),
      resolve = (\<lambda>d p. d @ ''/'' @ p), dirname = (\<lambda>p. ''/k''),
      extname = (\<lambda>p. dropWhile (\<lambda>c. c \<noteq> CHR ''.'') p)\<rparr>
     \<lparr>configsWithKatexCss = {},
      cachedKatexCss = Some ''@font-face{src:url(\"data:font/woff2;base64,TWFu\")}'',
      reads = [''/k/katex.min.css'', ''/k/fonts/x.woff2''], console = []\<rparr>
   = (Inr ''@font-face{src:url(\"data:font/woff2;base64,TWFu\")}'',
      \<lparr>configsWithKatexCss = {},
       cachedKatexCss = Some ''@font-face{src:url(\"data:font/woff2;base64,TWFu\")}'',
       reads = [''/k/katex.min.css'', ''/k/fonts/x.woff2''], console = []\<rparr>)"
proof -
  let ?fs = "\<lparr>katexCssPath = ''/k/katex.min.css'',
      readFile = (\<lambda>p. if p = ''/k/katex.min.css'' then Some ''@font-face{src:url(fonts/x.woff2)}''
                     else if p = ''/k/fonts/x.woff2'' then Some ''Man'' else None),
      resolve = (\<lambda>d p. d @ ''/'' @ p), dirname = (\<lambda>p. ''/k''),
      extname = (\<lambda>p. dropWhile (\<lambda>c. c \<noteq> CHR ''.'') p)\<rparr>"
  let ?css = "''@font-face{src:url(\"data:font/woff2;base64,TWFu\")}''"
  let ?st = "\<lparr>configsWithKatexCss = {}, cachedKatexCss = None, reads = [], console = []\<rparr>"
  let ?st1 = "\<lparr>configsWithKatexCss = {}, cachedKatexCss = Some ?css,
       reads = [''/k/katex.min.css'', ''/k/fonts/x.woff2''], console = []\<rparr>"
  have a: "loadKatexCss ?fs ?st = (Inr ?css, ?st1)"
    by (simp add: katex_eval)
  have b: "?css \<noteq> []" by simp
  from stylesheet_cache_sequential [OF a b] have "loadKatexCss ?fs ?st1 = (Inr ?css, ?st1)"
    by blast
  with a b show ?thesis by blast
qed

text \<open>Reading the stylesheet (lines 70--99) is calling \<open>fs.readFile\<close> for it and going on
  when the read is done.\<close>

lemma readKatexCss_resume:
  "readKatexCss fs st = resumeKatexCss fs (st\<lparr>reads := reads st @ [katexCssPath fs]\<rparr>)"
  by (simp add: readKatexCss_def resumeKatexCss_def Let_def)

text \<open>
  C6.  The claim does not hold of the code: the stylesheet can be computed more than
  once in a process.  The cache is a plain variable that is tested at line 66 and
  assigned at line 97, with the reads of the stylesheet and of the fonts awaited in
  between.  When two conversions are started together, the second call of
  \<open>loadKatexCss\<close> is made while the first is suspended at line 71: both calls find the
  cache \<open>undefined\<close>, and each reads the stylesheet and the font and encodes it.  In a
  fresh process, with a stylesheet that refers to one font, the two calls return the
  same string, and the stylesheet file and the font file have each been read twice.
\<close>

theorem stylesheet_cache_overlap:
  "loadKatexCssTwice
     \<lparr>katexCssPath = ''/k/katex.min.css'',
      readFile = (\<lambda>p. if p = ''/k/katex.min.css'' then Some ''@font-face{src:url(fonts/x.woff2)}''
                     else if p = ''/k/fonts/x.woff2'' then Some ''Man'' else None),
      resolve = (\<lambda>d p. d @ ''/'' @ p), dirname = (\<lambda>p. ''/k''),
      extname = (\<lambda>p. dropWhile (\<lambda>c. c \<noteq> CHR ''.'') p)\<rparr>
     \<lparr>configsWithKatexCss = {}, cachedKatexCss = None, reads = [], console = []\<rparr>
   = (Inr ''@font-face{src:url(\"data:font/woff2;base64,TWFu\")}'',
      Inr ''@font-face{src:url(\"data:font/woff2;base64,TWFu\")}'',
      \<lparr>configsWithKatexCss = {},
       cachedKatexCss = Some ''@font-face{src:url(\"data:font/woff2;base64,TWFu\")}'',
       reads = [''/k/katex.min.css'', ''/k/katex.min.css'', ''/k/fonts/x.woff2'', ''/k/fonts/x.woff2''],
       console = []\<rparr>)"
  by (simp add: loadKatexCssTwice_def resumeKatexCss_def katex_eval)

text \<open>
  The test of line 66 is a test for truthiness, so that it also misses a cached
  stylesheet that is the empty string: with an empty stylesheet file, a call made
  after the first has returned reads the file again.
\<close>

lemma stylesheet_cache_empty:
  "loadKatexCss
     \<lparr>katexCssPath = ''/k/katex.min.css'',
      readFile = (\<lambda>p. if p = ''/k/katex.min.css'' then Some [] else None),
      resolve = (\<lambda>d p. d @ ''/'' @ p), dirname = (\<lambda>p. ''/k''), extname = (\<lambda>p. [])\<rparr>
     \<lparr>configsWithKatexCss = {}, cachedKatexCss = None, reads = [], console = []\<rparr>
   = (Inr [], \<lparr>configsWithKatexCss = {}, cachedKatexCss = Some [],
               reads = [''/k/katex.min.css''], console = []\<rparr>)
   \<and> loadKatexCss
     \<lparr>katexCssPath = ''/k/katex.min.css'',
      readFile = (\<lambda>p. if p = ''/k/katex.min.css'' then Some [] else None),
      resolve = (\<lambda>d p. d @ ''/'' @ p), dirname = (\<lambda>p. ''/k''), extname = (\<lambda>p. [])\<rparr>
     \<lparr>configsWithKatexCss = {}, cachedKatexCss = Some [],
      reads = [''/k/katex.min.css''], console = []\<rparr>
   = (Inr [], \<lparr>configsWithKatexCss = {}, cachedKatexCss = Some [],
               reads = [''/k/katex.min.css'', ''/k/katex.min.css''], console = []\<rparr>)"
  by (simp add: katex_eval)

section \<open>Calling ensureKatexSupport twice\<close>

lemma filter_isKatexExtension_none:
  "\<not> list_ex isKatexExtension xs \<Longrightarrow> filter isKatexExtension xs = []"
  by (induction xs) auto

lemma filter_isKatexExtension_some:
  "list_ex isKatexExtension xs \<Longrightarrow> 1 \<le> length (filter isKatexExtension xs)"
  by (induction xs) auto

text \<open>The first part of the function, lines 107--111: the extension list after it.\<close>

lemma ensureKatexSupport_extensions:
  assumes "get_prop config ''math_engine'' = JStr ''katex''"
    and "get_prop config ''marked_extensions'' = JArr extensions"
    and "ensureKatexSupport fs mk ident config st = (e, config1, st1)"
  shows "get_prop config1 ''marked_extensions'' =
           JArr (if list_ex isKatexExtension extensions then extensions
                 else extensions @ [mk (get_prop config ''math_engine_options'')])
       \<and> get_prop config1 ''math_engine'' = JStr ''katex''"
  using assms
  by (auto simp: ensureKatexSupport_def Let_def split: if_splits prod.splits sum.splits)

lemma ensureKatexSupport_marked:
  assumes "get_prop config ''math_engine'' = JStr ''katex''"
    and "ensureKatexSupport fs mk ident config st = (None, config1, st1)"
  shows "ident \<in> configsWithKatexCss st1"
  using assms
  by (auto simp: ensureKatexSupport_def Let_def split: if_splits jsval.splits prod.splits sum.splits)

lemma ensureKatexSupport_done:
  assumes "get_prop config ''math_engine'' = JStr ''katex''"
    and "get_prop config ''marked_extensions'' = JArr extensions"
    and "list_ex isKatexExtension extensions"
    and "ident \<in> configsWithKatexCss st"
  shows "ensureKatexSupport fs mk ident config st = (None, config, st)"
  using assms by (simp add: ensureKatexSupport_def)

lemma ensureKatexSupport_css:
  assumes "get_prop config ''math_engine'' = JStr ''katex''"
    and "get_prop config ''marked_extensions'' = JArr extensions"
    and "ident \<notin> configsWithKatexCss st"
    and "ensureKatexSupport fs mk ident config st = (None, config1, st1)"
  shows "\<exists>katexCss. fst (loadKatexCss fs st) = Inr katexCss
           \<and> get_prop config1 ''css'' =
                JStr (if truthy (get_prop config ''css'')
                      then to_string (get_prop config ''css'') @ [CHR 0x0A] @ katexCss
                      else katexCss)"
  using assms
  by (auto simp: ensureKatexSupport_def Let_def split: if_splits prod.splits sum.splits)

lemma ensureKatexSupport_marked_before:
  assumes "ident \<in> configsWithKatexCss st"
    and "ensureKatexSupport fs mk ident config st = (e, config1, st1)"
  shows "get_prop config1 ''css'' = get_prop config ''css''"
  using assms
  by (auto simp: ensureKatexSupport_def Let_def split: if_splits jsval.splits)

text \<open>
  C5 (as amended).  Let \<open>ensureKatexSupport\<close> be called on a configuration object with
  \<open>math_engine = 'katex'\<close> whose \<open>marked_extensions\<close> is the list \<open>extensions\<close>, let
  \<open>markedKatex\<close> build an extension that \<open>isKatexExtension\<close> recognises, and let the call
  return normally.
  \<^item> A second call on the same object changes nothing: neither the configuration nor
    the module state.
  \<^item> After the calls \<open>marked_extensions\<close> is \<open>extensions\<close> itself when it held a math
    extension, and otherwise \<open>extensions\<close> followed by the one extension that
    \<open>markedKatex\<close> builds from \<open>math_engine_options\<close>: the entries of the caller are kept,
    in their order, and at most one is added.  So the number of math extensions is one
    when there was none or one before, and otherwise the number there was before.
  \<^item> For an object that had not been marked, \<open>css\<close> after the calls is the stylesheet
    alone when \<open>css\<close> was falsy before, and otherwise the former \<open>css\<close>, a newline and the
    stylesheet: the stylesheet has been appended once.  For an object that had been
    marked, \<open>css\<close> is left as it was.
\<close>

theorem ensure_twice:
  assumes "get_prop config ''math_engine'' = JStr ''katex''"
    and "get_prop config ''marked_extensions'' = JArr extensions"
    and "isKatexExtension (mk (get_prop config ''math_engine_options''))"
    and "ensureKatexSupport fs mk ident config st = (None, config1, st1)"
  shows "ensureKatexSupport fs mk ident config1 st1 = (None, config1, st1)
       \<and> get_prop config1 ''marked_extensions'' =
           JArr (if list_ex isKatexExtension extensions then extensions
                 else extensions @ [mk (get_prop config ''math_engine_options'')])
       \<and> length (filter isKatexExtension
                   (if list_ex isKatexExtension extensions then extensions
                    else extensions @ [mk (get_prop config ''math_engine_options'')]))
           = max 1 (length (filter isKatexExtension extensions))
       \<and> (ident \<notin> configsWithKatexCss st \<longrightarrow>
             (\<exists>katexCss. fst (loadKatexCss fs st) = Inr katexCss
                \<and> get_prop config1 ''css'' =
                     JStr (if truthy (get_prop config ''css'')
                           then to_string (get_prop config ''css'') @ [CHR 0x0A] @ katexCss
                           else katexCss)))
       \<and> (ident \<in> configsWithKatexCss st \<longrightarrow> get_prop config1 ''css'' = get_prop config ''css'')"
proof -
  let ?exts1 = "if list_ex isKatexExtension extensions then extensions
                else extensions @ [mk (get_prop config ''math_engine_options'')]"
  from ensureKatexSupport_extensions [OF assms(1,2,4)]
  have x: "get_prop config1 ''marked_extensions'' = JArr ?exts1"
    and m: "get_prop config1 ''math_engine'' = JStr ''katex''" by simp_all
  have has: "list_ex isKatexExtension ?exts1"
    using assms(3) by simp
  have one: "ensureKatexSupport fs mk ident config1 st1 = (None, config1, st1)"
    by (rule ensureKatexSupport_done [OF m x has ensureKatexSupport_marked [OF assms(1,4)]])
  have two: "length (filter isKatexExtension ?exts1)
               = max 1 (length (filter isKatexExtension extensions))"
    using assms(3) filter_isKatexExtension_some [of extensions]
    by (auto simp: filter_isKatexExtension_none)
  have three: "\<exists>katexCss. fst (loadKatexCss fs st) = Inr katexCss
                \<and> get_prop config1 ''css'' =
                     JStr (if truthy (get_prop config ''css'')
                           then to_string (get_prop config ''css'') @ [CHR 0x0A] @ katexCss
                           else katexCss)"
    if "ident \<notin> configsWithKatexCss st"
    by (rule ensureKatexSupport_css [OF assms(1,2) that assms(4)])
  have four: "get_prop config1 ''css'' = get_prop config ''css''"
    if "ident \<in> configsWithKatexCss st"
    by (rule ensureKatexSupport_marked_before [OF that assms(4)])
  from one x two three four show ?thesis by blast
qed

text \<open>The theorem at work: a configuration with one extension of the caller's that is
  no math extension, and with some \<open>css\<close>, keeps that extension, receives the math
  extension after it and the stylesheet once, and the second call changes nothing.\<close>

theorem ensure_twice_witness:
  "get_prop [(''math_engine'', JStr ''katex''),
             (''marked_extensions'', JArr [JObj [(''name'', JStr ''footnotes'')]]),
             (''css'', JStr ''p{}'')]
     ''math_engine'' = JStr ''katex''
   \<and> isKatexExtension (JObj [(''extensions'', JArr [JObj [(''name'', JStr ''inlineKatex'')],
                                                      JObj [(''name'', JStr ''blockKatex'')]])])
   \<and> ensureKatexSupport
        \<lparr>katexCssPath = ''/k/katex.min.css'',
         readFile = (\<lambda>p. if p = ''/k/katex.min.css'' then Some ''.katex{}'' else None),
         resolve = (\<lambda>d p. d @ ''/'' @ p), dirname = (\<lambda>p. ''/k''), extname = (\<lambda>p. [])\<rparr>
        (\<lambda>options. JObj [(''extensions'', JArr [JObj [(''name'', JStr ''inlineKatex'')],
                                                 JObj [(''name'', JStr ''blockKatex'')]])])
        7
        [(''math_engine'', JStr ''katex''),
         (''marked_extensions'', JArr [JObj [(''name'', JStr ''footnotes'')]]),
         (''css'', JStr ''p{}'')]
        \<lparr>configsWithKatexCss = {}, cachedKatexCss = None, reads = [], console = []\<rparr>
      = (None,
         [(''math_engine'', JStr ''katex''),
          (''marked_extensions'',
             JArr [JObj [(''name'', JStr ''footnotes'')],
                   JObj [(''extensions'', JArr [JObj [(''name'', JStr ''inlineKatex'')],
                                                JObj [(''name'', JStr ''blockKatex'')]])]]),
          (''css'', JStr (''p{}'' @ [CHR 0x0A] @ ''.katex{}''))],
         \<lparr>configsWithKatexCss = {7}, cachedKatexCss = Some ''.katex{}'',
          reads = [''/k/katex.min.css''], console = []\<rparr>)
   \<and> ensureKatexSupport
        \<lparr>katexCssPath = ''/k/katex.min.css'',
         readFile = (\<lambda>p. if p = ''/k/katex.min.css'' then Some ''.katex{}'' else None),
         resolve = (\<lambda>d p. d @ ''/'' @ p), dirname = (\<lambda>p. ''/k''), extname = (\<lambda>p. [])\<rparr>
        (\<lambda>options. JObj [(''extensions'', JArr [JObj [(''name'', JStr ''inlineKatex'')],
                                                 JObj [(''name'', JStr ''blockKatex'')]])])
        7
        [(''math_engine'', JStr ''katex''),
          (''marked_extensions'',
             JArr [JObj [(''name'', JStr ''footnotes'')],
                   JObj [(''extensions'', JArr [JObj [(''name'', JStr ''inlineKatex'')],
                                                JObj [(''name'', JStr ''blockKatex'')]])]]),
          (''css'', JStr (''p{}'' @ [CHR 0x0A] @ ''.katex{}''))]
        \<lparr>configsWithKatexCss = {7}, cachedKatexCss = Some ''.katex{}'',
          reads = [''/k/katex.min.css''], console = []\<rparr>
      = (None,
         [(''math_engine'', JStr ''katex''),
          (''marked_extensions'',
             JArr [JObj [(''name'', JStr ''footnotes'')],
                   JObj [(''extensions'', JArr [JObj [(''name'', JStr ''inlineKatex'')],
                                                JObj [(''name'', JStr ''blockKatex'')]])]]),
          (''css'', JStr (''p{}'' @ [CHR 0x0A] @ ''.katex{}''))],
         \<lparr>configsWithKatexCss = {7}, cachedKatexCss = Some ''.katex{}'',
          reads = [''/k/katex.min.css''], console = []\<rparr>)
   \<and> get_prop
        [(''math_engine'', JStr ''katex''),
          (''marked_extensions'',
             JArr [JObj [(''name'', JStr ''footnotes'')],
                   JObj [(''extensions'', JArr [JObj [(''name'', JStr ''inlineKatex'')],
                                                JObj [(''name'', JStr ''blockKatex'')]])]]),
          (''css'', JStr (''p{}'' @ [CHR 0x0A] @ ''.katex{}''))] ''marked_extensions''
      = JArr [JObj [(''name'', JStr ''footnotes'')],
              JObj [(''extensions'', JArr [JObj [(''name'', JStr ''inlineKatex'')],
                                           JObj [(''name'', JStr ''blockKatex'')]])]]"
proof -
  let ?fs = "\<lparr>katexCssPath = ''/k/katex.min.css'',
         readFile = (\<lambda>p. if p = ''/k/katex.min.css'' then Some ''.katex{}'' else None),
         resolve = (\<lambda>d p. d @ ''/'' @ p), dirname = (\<lambda>p. ''/k''), extname = (\<lambda>p. [])\<rparr>"
  let ?k = "JObj [(''extensions'', JArr [JObj [(''name'', JStr ''inlineKatex'')],
                                         JObj [(''name'', JStr ''blockKatex'')]])]"
  let ?f = "JObj [(''name'', JStr ''footnotes'')]"
  let ?c = "[(''math_engine'', JStr ''katex''), (''marked_extensions'', JArr [?f]), (''css'', JStr ''p{}'')]"
  let ?c1 = "[(''math_engine'', JStr ''katex''), (''marked_extensions'', JArr [?f, ?k]),
              (''css'', JStr (''p{}'' @ [CHR 0x0A] @ ''.katex{}''))]"
  let ?st = "\<lparr>configsWithKatexCss = {}, cachedKatexCss = None, reads = [], console = []\<rparr>"
  let ?st1 = "\<lparr>configsWithKatexCss = {7::nat}, cachedKatexCss = Some ''.katex{}'',
          reads = [''/k/katex.min.css''], console = []\<rparr>"
  have a: "get_prop ?c ''math_engine'' = JStr ''katex''" by (simp add: get_prop_def)
  have b: "get_prop ?c ''marked_extensions'' = JArr [?f]" by (simp add: get_prop_def)
  have k: "isKatexExtension ((\<lambda>options. ?k) (get_prop ?c ''math_engine_options''))"
    by (simp add: get_prop_def)
  have f: "ensureKatexSupport ?fs (\<lambda>options. ?k) 7 ?c ?st = (None, ?c1, ?st1)"
    by (simp add: ensureKatexSupport_def katex_eval get_prop_def set_prop_def)
  note t = ensure_twice [OF a b k f]
  from t have s: "ensureKatexSupport ?fs (\<lambda>options. ?k) 7 ?c1 ?st1 = (None, ?c1, ?st1)"
    by blast
  from t [THEN conjunct2, THEN conjunct1]
  have x: "get_prop ?c1 ''marked_extensions'' = JArr [?f, ?k]"
    by (simp add: get_prop_def)
  from a k f s x show ?thesis by auto
qed

text \<open>
  The claim as stated fails for a configuration to which the caller has given two math
  extensions: both calls leave the two entries, so that \<open>marked_extensions\<close> does not
  hold exactly one.
\<close>

theorem ensure_twice_counterexample:
  "ensureKatexSupport
     \<lparr>katexCssPath = ''/k/katex.min.css'',
      readFile = (\<lambda>p. if p = ''/k/katex.min.css'' then Some ''.katex{}'' else None),
      resolve = (\<lambda>d p. d @ ''/'' @ p), dirname = (\<lambda>p. ''/k''), extname = (\<lambda>p. [])\<rparr>
     (\<lambda>options. JObj [(''extensions'', JArr [JObj [(''name'', JStr ''inlineKatex'')]])])
     7
     [(''math_engine'', JStr ''katex''),
      (''marked_extensions'',
         JArr [JObj [(''extensions'', JArr [JObj [(''name'', JStr ''inlineKatex'')]])],
               JObj [(''extensions'', JArr [JObj [(''name'', JStr ''inlineKatex'')]])]])]
     \<lparr>configsWithKatexCss = {}, cachedKatexCss = None, reads = [], console = []\<rparr>
   = (None,
      [(''math_engine'', JStr ''katex''),
       (''marked_extensions'',
          JArr [JObj [(''extensions'', JArr [JObj [(''name'', JStr ''inlineKatex'')]])],
                JObj [(''extensions'', JArr [JObj [(''name'', JStr ''inlineKatex'')]])]]),
       (''css'', JStr ''.katex{}'')],
      \<lparr>configsWithKatexCss = {7}, cachedKatexCss = Some ''.katex{}'',
       reads = [''/k/katex.min.css''], console = []\<rparr>)
   \<and> ensureKatexSupport
     \<lparr>katexCssPath = ''/k/katex.min.css'',
      readFile = (\<lambda>p. if p = ''/k/katex.min.css'' then Some ''.katex{}'' else None),
      resolve = (\<lambda>d p. d @ ''/'' @ p), dirname = (\<lambda>p. ''/k''), extname = (\<lambda>p. [])\<rparr>
     (\<lambda>options. JObj [(''extensions'', JArr [JObj [(''name'', JStr ''inlineKatex'')]])])
     7
     [(''math_engine'', JStr ''katex''),
      (''marked_extensions'',
         JArr [JObj [(''extensions'', JArr [JObj [(''name'', JStr ''inlineKatex'')]])],
               JObj [(''extensions'', JArr [JObj [(''name'', JStr ''inlineKatex'')]])]]),
      (''css'', JStr ''.katex{}'')]
     \<lparr>configsWithKatexCss = {7}, cachedKatexCss = Some ''.katex{}'',
      reads = [''/k/katex.min.css''], console = []\<rparr>
   = (None,
      [(''math_engine'', JStr ''katex''),
       (''marked_extensions'',
          JArr [JObj [(''extensions'', JArr [JObj [(''name'', JStr ''inlineKatex'')]])],
                JObj [(''extensions'', JArr [JObj [(''name'', JStr ''inlineKatex'')]])]]),
       (''css'', JStr ''.katex{}'')],
      \<lparr>configsWithKatexCss = {7}, cachedKatexCss = Some ''.katex{}'',
       reads = [''/k/katex.min.css''], console = []\<rparr>)
   \<and> length (filter isKatexExtension
         [JObj [(''extensions'', JArr [JObj [(''name'', JStr ''inlineKatex'')]])],
          JObj [(''extensions'', JArr [JObj [(''name'', JStr ''inlineKatex'')]])]]) = 2"
  by (simp add: ensureKatexSupport_def katex_eval get_prop_def set_prop_def)

section \<open>Matching a font reference\<close>

lemma reference_Cons: "reference q p = CHR ''u'' # CHR ''r'' # CHR ''l'' # CHR ''('' # q @ p @ q @ '')''"
  by (simp add: reference_def)

lemma patterns_reference:
  "patterns p = [reference [] p, reference [CHR 0x27] p, reference [CHR 0x22] p]"
  by (simp add: patterns_def reference_def)

lemma isFontPathE:
  assumes "isFontPath p"
  obtains run where "p = ''fonts/'' @ run" "run \<noteq> []" "\<forall>c \<in> set run. isPathChar c"
proof -
  from assms obtain run where p: "p = ''fonts/'' @ run"
    by (auto simp: isFontPath_def prefix_def)
  with assms have "run \<noteq> []" "\<forall>c \<in> set run. isPathChar c"
    by (auto simp: isFontPath_def list_all_iff)
  with p show ?thesis by (rule that)
qed

lemma matchFontUrl_SomeD:
  assumes "matchFontUrl s = Some (q, p, n)"
  shows "isQuoteMark q \<and> isFontPath p \<and> n = length (reference q p)
       \<and> s = reference q p @ drop n s"
proof -
  define r where "r = drop 4 s"
  define q0 where "q0 = (case r of [] \<Rightarrow> [] | c # _ \<Rightarrow> if isQuote c then [c] else [])"
  define r1 where "r1 = drop (length q0) r"
  define r2 where "r2 = drop 6 r1"
  define run where "run = takeWhile isPathChar r2"
  define r3 where "r3 = drop (length run) r2"
  have eq: "matchFontUrl s =
     (if prefix ''url('' s then
        if prefix ''fonts/'' r1 then
          if run \<noteq> [] \<and> prefix (q0 @ '')'') r3
          then Some (q0, ''fonts/'' @ run, 4 + length q0 + 6 + length run + length q0 + 1)
          else None
        else None
      else None)"
    by (simp only: matchFontUrl_def Let_def r_def q0_def r1_def r2_def run_def r3_def)
  from assms eq have c: "prefix ''url('' s" "prefix ''fonts/'' r1" "run \<noteq> []"
    "prefix (q0 @ '')'') r3" "q = q0" "p = ''fonts/'' @ run"
    "n = 4 + length q0 + 6 + length run + length q0 + 1"
    by (auto split: if_splits)
  from c(1) have s: "s = ''url('' @ r"
    unfolding r_def by (auto simp: prefix_def)
  have q0: "isQuoteMark q0" "prefix q0 r"
    by (auto simp: q0_def isQuoteMark_def isQuote_def split: list.splits)
  then have r: "r = q0 @ r1"
    unfolding r1_def by (auto simp: prefix_def)
  from c(2) have r1: "r1 = ''fonts/'' @ r2"
    unfolding r2_def by (auto simp: prefix_def)
  have "r2 = take (length run) r2 @ r3"
    unfolding r3_def by simp
  also have "take (length run) r2 = run"
    unfolding run_def by (rule takeWhile_eq_take [symmetric])
  finally have r2: "r2 = run @ r3" .
  from c(4) obtain z where r3: "r3 = q0 @ '')'' @ z"
    by (auto simp: prefix_def)
  have pc: "list_all isPathChar run"
    unfolding run_def list_all_iff by (auto dest: set_takeWhileD)
  have fp: "isFontPath p"
    using c(3,6) pc by (simp add: isFontPath_def)
  have len: "n = length (reference q p)"
    using c(5,6,7) by (simp add: reference_def)
  have "s = reference q p @ z"
    unfolding s r r1 r2 r3 c(5) c(6) by (simp add: reference_def)
  then have "s = reference q p @ drop n s"
    using len by simp
  with q0(1) c(5) fp len show ?thesis by simp
qed

lemma takeWhile_run:
  "\<forall>c \<in> set run. isPathChar c \<Longrightarrow> \<not> isPathChar y \<Longrightarrow>
   takeWhile isPathChar (run @ y # ys) = run"
  by (simp add: takeWhile_tail)

lemma matchFontUrl_reference:
  assumes "isQuoteMark q" "isFontPath p"
  shows "matchFontUrl (reference q p @ z) = Some (q, p, length (reference q p))"
proof -
  from assms(2) obtain run where p: "p = ''fonts/'' @ run" and ne: "run \<noteq> []"
    and pc: "\<forall>c \<in> set run. isPathChar c" by (rule isFontPathE)
  have np: "\<not> isPathChar (CHR '')'')" "\<not> isPathChar (CHR 0x27)" "\<not> isPathChar (CHR 0x22)"
    by (simp_all add: isPathChar_def isQuote_def)
  have nq: "\<not> isQuote (CHR ''f'')" "isQuote (CHR 0x27)" "isQuote (CHR 0x22)"
    by (simp_all add: isQuote_def)
  from assms(1) consider "q = []" | "q = [CHR 0x27]" | "q = [CHR 0x22]"
    by (auto simp: isQuoteMark_def)
  then show ?thesis
  proof cases
    case 1
    then show ?thesis
      using ne by (simp add: matchFontUrl_def reference_def p Let_def nq takeWhile_run [OF pc np(1)])
  next
    case 2
    then show ?thesis
      using ne by (simp add: matchFontUrl_def reference_def p Let_def nq takeWhile_run [OF pc np(2)])
  next
    case 3
    then show ?thesis
      using ne by (simp add: matchFontUrl_def reference_def p Let_def nq takeWhile_run [OF pc np(3)])
  qed
qed

lemma matchFontUrl_prefix:
  "isQuoteMark q \<Longrightarrow> isFontPath p \<Longrightarrow> prefix (reference q p) s \<Longrightarrow>
   matchFontUrl s = Some (q, p, length (reference q p))"
  by (auto simp: prefix_def matchFontUrl_reference)

section \<open>Replacing a literal text\<close>

lemma expandReplacement_plain:
  "CHR ''$'' \<notin> set replacement \<Longrightarrow> expandReplacement replacement matched passed rest = replacement"
  by (induction replacement matched passed rest rule: expandReplacement.induct) auto

lemma replaceAll_Nil: "pat \<noteq> [] \<Longrightarrow> replaceAll pat replacement passed [] = []"
  by simp

lemma replaceAll_no_match:
  "pat \<noteq> [] \<Longrightarrow> \<not> prefix pat (c # cs) \<Longrightarrow>
   replaceAll pat replacement passed (c # cs) = c # replaceAll pat replacement (passed @ [c]) cs"
  by simp

lemma replaceAll_match:
  assumes "pat \<noteq> []" "CHR ''$'' \<notin> set replacement"
  shows "replaceAll pat replacement passed (pat @ z) =
           replacement @ replaceAll pat replacement (passed @ pat) z"
proof -
  from assms(1) obtain c cs where pat: "pat = c # cs" by (cases pat) auto
  have "drop (length pat - 1) (cs @ z) = z" by (simp add: pat)
  then show ?thesis
    using assms by (simp add: pat expandReplacement_plain)
qed

text \<open>A stretch of text in which no occurrence of the pattern starts is copied.\<close>

lemma replaceAll_skip:
  assumes "pat \<noteq> []"
    and "\<And>a r. w = a @ r \<Longrightarrow> r \<noteq> [] \<Longrightarrow> \<not> prefix pat (r @ z)"
  shows "replaceAll pat replacement passed (w @ z) = w @ replaceAll pat replacement (passed @ w) z"
  using assms(2)
proof (induction w arbitrary: passed)
  case Nil
  then show ?case by simp
next
  case (Cons c w)
  have "\<not> prefix pat ((c # w) @ z)"
    by (rule Cons.prems [of "[]"]) simp_all
  then have "replaceAll pat replacement passed ((c # w) @ z)
               = c # replaceAll pat replacement (passed @ [c]) (w @ z)"
    using assms(1) by simp
  moreover have "replaceAll pat replacement (passed @ [c]) (w @ z)
               = w @ replaceAll pat replacement ((passed @ [c]) @ w) z"
  proof (rule Cons.IH)
    fix a r
    assume "w = a @ r" "r \<noteq> []"
    then show "\<not> prefix pat (r @ z)"
      using Cons.prems [of "c # a" r] by simp
  qed
  ultimately show ?case by simp
qed

section \<open>Texts of the form url(...)\<close>

text \<open>A text \<open>url(b)\<close> with no opening parenthesis in \<open>b\<close> has no text \<open>url(\<dots>)\<close> as a
  proper suffix, and neither has a text \<open>url(cbc)\<close> with the quote \<open>c\<close> not in \<open>b\<close> a
  proper suffix of the same form.\<close>

lemma token_not_proper_suffix:
  assumes "''url('' @ b @ '')'' = a @ ''url('' @ b' @ '')''" and "CHR ''('' \<notin> set b"
  shows "a = []"
proof -
  let ?o = "\<lambda>c. c = CHR ''(''"
  let ?n = "\<lambda>c. c \<noteq> CHR ''(''"
  have e1: "filter ?o (''url('' @ b @ '')'') = [CHR ''('']"
    using assms(2) by (auto simp add: filter_empty_conv)
  have e2: "filter ?o (a @ ''url('' @ b' @ '')'') = filter ?o a @ CHR ''('' # filter ?o b'"
    by simp
  from assms(1) have "filter ?o (''url('' @ b @ '')'') = filter ?o (a @ ''url('' @ b' @ '')'')"
    by (rule arg_cong)
  then have "[CHR ''(''] = filter ?o a @ CHR ''('' # filter ?o b'"
    unfolding e1 e2 .
  then have "filter ?o a = []"
    by (simp add: Cons_eq_append_conv)
  then have na: "\<forall>c \<in> set a. c \<noteq> CHR ''(''"
    by (simp add: filter_empty_conv)
  have t1: "takeWhile ?n (''url('' @ b @ '')'') = ''url''"
    by simp
  have t2: "takeWhile ?n (a @ ''url('' @ b' @ '')'') = a @ ''url''"
    using na by simp
  from assms(1) have "takeWhile ?n (''url('' @ b @ '')'') = takeWhile ?n (a @ ''url('' @ b' @ '')'')"
    by (rule arg_cong)
  then have "''url'' = a @ ''url''"
    unfolding t1 t2 .
  then show ?thesis by simp
qed

lemma quoted_not_proper_suffix:
  assumes "''url('' @ [c] @ b @ [c] @ '')'' = a @ ''url('' @ [c] @ b' @ [c] @ '')''"
    and "c \<notin> set b" and "c \<notin> set b'" and "c \<notin> set ''url(''" and "c \<noteq> CHR '')''"
  shows "a = []"
proof -
  let ?o = "\<lambda>x. x = c"
  let ?n = "\<lambda>x. x \<noteq> c"
  have e1: "filter ?o (''url('' @ [c] @ b @ [c] @ '')'') = [c, c]"
    using assms(2,4,5) by (auto simp add: filter_empty_conv)
  have e2: "filter ?o (a @ ''url('' @ [c] @ b' @ [c] @ '')'') = filter ?o a @ [c, c]"
    using assms(3,4,5) by (auto simp add: filter_empty_conv)
  from assms(1) have "filter ?o (''url('' @ [c] @ b @ [c] @ '')'')
      = filter ?o (a @ ''url('' @ [c] @ b' @ [c] @ '')'')"
    by (rule arg_cong)
  then have "[c, c] = filter ?o a @ [c, c]"
    unfolding e1 e2 .
  then have "filter ?o a = []" by simp
  then have na: "\<forall>x \<in> set a. x \<noteq> c"
    by (simp add: filter_empty_conv)
  have t1: "takeWhile ?n (''url('' @ [c] @ b @ [c] @ '')'') = ''url(''"
    using assms(4) by auto
  have t2: "takeWhile ?n (a @ ''url('' @ [c] @ b' @ [c] @ '')'') = a @ ''url(''"
    using na assms(4) by auto
  from assms(1) have "takeWhile ?n (''url('' @ [c] @ b @ [c] @ '')'')
      = takeWhile ?n (a @ ''url('' @ [c] @ b' @ [c] @ '')'')"
    by (rule arg_cong)
  then have "''url('' = a @ ''url(''"
    unfolding t1 t2 .
  then show ?thesis by simp
qed

text \<open>A text \<open>url(p)\<close> has a text \<open>url(\<dots>)\<close> as a proper suffix only when \<open>p\<close> contains
  \<open>url(\<close>.\<close>

lemma unquoted_suffix:
  assumes "''url('' @ p' @ '')'' = a @ ''url('' @ x @ '')''" and "\<not> sublist ''url('' p'"
  shows "a = []"
proof (rule ccontr)
  assume ne: "a \<noteq> []"
  then obtain a1 t1 where a: "a = a1 # t1" by (cases a) auto
  with assms(1) have e1: "''rl('' @ p' @ '')'' = t1 @ ''url('' @ x @ '')''" by simp
  then obtain a2 t2 where t1: "t1 = a2 # t2" by (cases t1) auto
  with e1 have e2: "''l('' @ p' @ '')'' = t2 @ ''url('' @ x @ '')''" by simp
  then obtain a3 t3 where t2: "t2 = a3 # t3" by (cases t2) auto
  with e2 have e3: "''('' @ p' @ '')'' = t3 @ ''url('' @ x @ '')''" by simp
  then obtain a4 t4 where t3: "t3 = a4 # t4" by (cases t3) auto
  with e3 have "p' @ '')'' = (t4 @ ''url('' @ x) @ '')''" by simp
  then have "p' = t4 @ ''url('' @ x" by (simp only: append_same_eq)
  then have "sublist ''url('' p'" unfolding sublist_def by blast
  with assms(2) show False by simp
qed

lemma first_close_paren:
  assumes "prefix (r @ '')'') (v @ '')'' @ z)"
    and "CHR '')'' \<notin> set r" and "CHR '')'' \<notin> set v"
  shows "r = v"
proof -
  let ?n = "\<lambda>c. c \<noteq> CHR '')''"
  from assms(1) obtain y where e: "v @ CHR '')'' # z = r @ CHR '')'' # y"
    by (auto simp: prefix_def)
  have t1: "takeWhile ?n (v @ CHR '')'' # z) = v"
    using assms(3) by (auto simp add: takeWhile_tail)
  have t2: "takeWhile ?n (r @ CHR '')'' # y) = r"
    using assms(2) by (auto simp add: takeWhile_tail)
  from e have "takeWhile ?n (v @ CHR '')'' # z) = takeWhile ?n (r @ CHR '')'' # y)"
    by (rule arg_cong)
  then show ?thesis unfolding t1 t2 by simp
qed

lemma token_suffix:
  assumes "''url('' @ b @ '')'' = a @ r" and "r \<noteq> []" and "CHR '')'' \<notin> set b"
  shows "\<exists>r0. r = r0 @ '')'' \<and> CHR '')'' \<notin> set r0"
proof -
  from assms(2) have r: "r = butlast r @ [last r]" by simp
  with assms(1) have "(''url('' @ b) @ [CHR '')''] = (a @ butlast r) @ [last r]"
    by simp
  then have e: "''url('' @ b = a @ butlast r" and l: "last r = CHR '')''"
    by (simp_all only: append1_eq_conv)
  have "set (butlast r) \<subseteq> set (''url('' @ b)"
    unfolding e by simp
  then have "CHR '')'' \<notin> set (butlast r)"
    using assms(3) by auto
  with r l show ?thesis by (metis append_Nil append_Cons)
qed

text \<open>Of two texts \<open>url(\<dots>)\<close> without a closing parenthesis inside, a piece of the one
  that starts where the other starts, or the other way round, ends where the other
  ends.\<close>

lemma rest_is_token:
  assumes w: "w = ''url('' @ b @ '')''" "CHR '')'' \<notin> set b"
    and p: "pat = ''url('' @ x @ '')''" "CHR '')'' \<notin> set x"
    and "pat = a @ r" "r \<noteq> []" "prefix r (w @ z)"
  shows "r = w"
proof -
  from token_suffix [of x a r] p assms(5,6) obtain r0 where
    r: "r = r0 @ '')''" "CHR '')'' \<notin> set r0" by auto
  have "prefix (r0 @ '')'') ((''url('' @ b) @ '')'' @ z)"
    using assms(7) by (simp add: w(1) r(1))
  from first_close_paren [OF this r(2)] w(2) have "r0 = ''url('' @ b" by simp
  then show ?thesis by (simp add: w(1) r(1))
qed

lemma token_is_rest:
  assumes w: "w = ''url('' @ b @ '')''" "CHR '')'' \<notin> set b"
    and p: "pat = ''url('' @ x @ '')''" "CHR '')'' \<notin> set x"
    and "w = a @ r" "r \<noteq> []" "prefix pat (r @ z)"
  shows "pat = r"
proof -
  from token_suffix [of b a r] w assms(5,6) obtain r0 where
    r: "r = r0 @ '')''" "CHR '')'' \<notin> set r0" by auto
  have "prefix ((''url('' @ x) @ '')'') (r0 @ '')'' @ z)"
    using assms(7) by (simp add: p(1) r(1))
  from first_close_paren [OF this] p(2) r(2) have "''url('' @ x = r0" by simp
  then show ?thesis by (simp add: p(1) r(1))
qed

section \<open>References and data URIs as tokens\<close>

lemma isFontPath_no_close: "isFontPath p \<Longrightarrow> CHR '')'' \<notin> set p"
  by (erule isFontPathE) (auto simp: isPathChar_def)

lemma isFontPath_no_quote: "isFontPath p \<Longrightarrow> CHR 0x27 \<notin> set p \<and> CHR 0x22 \<notin> set p"
  by (erule isFontPathE) (auto simp: isPathChar_def isQuote_def)

lemma isFontPath_nonempty: "isFontPath p \<Longrightarrow> p \<noteq> []"
  by (auto simp: isFontPath_def)

lemma reference_close:
  assumes "isQuoteMark q" "isFontPath p"
  shows "reference q p = ''url('' @ (q @ p @ q) @ '')'' \<and> CHR '')'' \<notin> set (q @ p @ q)"
  using assms isFontPath_no_close [OF assms(2)]
  by (auto simp: reference_def isQuoteMark_def)

lemma reference_inject:
  assumes "isQuoteMark q" "isFontPath p" "isQuoteMark q'" "isFontPath p'"
    and "reference q p = reference q' p'"
  shows "q = q' \<and> p = p'"
proof -
  have "matchFontUrl (reference q p @ []) = Some (q, p, length (reference q p))"
    by (rule matchFontUrl_reference [OF assms(1,2)])
  moreover have "matchFontUrl (reference q' p' @ []) = Some (q', p', length (reference q' p'))"
    by (rule matchFontUrl_reference [OF assms(3,4)])
  ultimately show ?thesis using assms(5) by simp
qed

lemma reference_not_dataUriLike:
  assumes "isQuoteMark q" "isFontPath p"
  shows "\<not> dataUriLike (reference q p)"
proof
  assume "dataUriLike (reference q p)"
  then obtain b where e: "reference q p = ''url('' @ [CHR 0x22, CHR ''d''] @ b @ [CHR 0x22] @ '')''"
    by (auto simp: dataUriLike_def)
  from assms(2) obtain run where p: "p = ''fonts/'' @ run" by (rule isFontPathE)
  from assms(1) e show False
    by (auto simp: isQuoteMark_def reference_def p)
qed

lemma dataUriLike_body:
  assumes "dataUriLike u"
  obtains b where "u = ''url('' @ b @ '')''" "CHR ''('' \<notin> set b" "CHR '')'' \<notin> set b"
    "CHR ''$'' \<notin> set u"
proof -
  from assms obtain b0 where u: "u = ''url('' @ [CHR 0x22, CHR ''d''] @ b0 @ [CHR 0x22] @ '')''"
    and n: "CHR ''('' \<notin> set b0" "CHR '')'' \<notin> set b0" "CHR ''$'' \<notin> set b0"
    by (auto simp: dataUriLike_def)
  show ?thesis
  proof (rule that [of "[CHR 0x22, CHR ''d''] @ b0 @ [CHR 0x22]"])
    show "u = ''url('' @ ([CHR 0x22, CHR ''d''] @ b0 @ [CHR 0x22]) @ '')''" using u by simp
    show "CHR ''('' \<notin> set ([CHR 0x22, CHR ''d''] @ b0 @ [CHR 0x22])" using n by simp
    show "CHR '')'' \<notin> set ([CHR 0x22, CHR ''d''] @ b0 @ [CHR 0x22])" using n by simp
    show "CHR ''$'' \<notin> set u" using n u by simp
  qed
qed

lemma b64_in_alphabet: "b64 n \<in> set b64alphabet"
proof -
  have "length b64alphabet = 64" by (simp add: b64alphabet_def)
  then have "n mod 64 < length b64alphabet" by simp
  then show ?thesis unfolding b64_def by (rule nth_mem)
qed

lemma base64_chars: "set (base64 d) \<subseteq> insert (CHR ''='') (set b64alphabet)"
  by (induction d rule: base64.induct) (auto simp: Let_def b64_in_alphabet)

lemma base64_plain:
  "CHR ''('' \<notin> set (base64 d) \<and> CHR '')'' \<notin> set (base64 d) \<and> CHR ''$'' \<notin> set (base64 d)
   \<and> CHR 0x22 \<notin> set (base64 d)"
proof -
  have "CHR ''('' \<notin> insert (CHR ''='') (set b64alphabet)"
    "CHR '')'' \<notin> insert (CHR ''='') (set b64alphabet)"
    "CHR ''$'' \<notin> insert (CHR ''='') (set b64alphabet)"
    "CHR 0x22 \<notin> insert (CHR ''='') (set b64alphabet)"
    by (simp_all add: b64alphabet_def)
  with base64_chars [of d] show ?thesis by blast
qed

lemma getMimeType_plain:
  "CHR ''('' \<notin> set (getMimeType e) \<and> CHR '')'' \<notin> set (getMimeType e)
   \<and> CHR ''$'' \<notin> set (getMimeType e) \<and> CHR 0x22 \<notin> set (getMimeType e)"
  by (simp add: getMimeType_def)

lemma dataUriLike_dataUri: "dataUriLike (dataUri fs p d)"
proof -
  let ?m = "getMimeType (toLowerCase (extname fs (absoluteFontPath fs p)))"
  let ?b = "''ata:'' @ ?m @ '';base64,'' @ base64 d"
  have "dataUri fs p d = ''url('' @ [CHR 0x22, CHR ''d''] @ ?b @ [CHR 0x22] @ '')''"
    by (simp add: dataUri_def)
  moreover have "CHR ''('' \<notin> set ?b \<and> CHR '')'' \<notin> set ?b \<and> CHR ''$'' \<notin> set ?b
                 \<and> CHR 0x22 \<notin> set ?b"
    using base64_plain [of d] getMimeType_plain [of "toLowerCase (extname fs (absoluteFontPath fs p))"]
    by simp
  ultimately show ?thesis unfolding dataUriLike_def by blast
qed

lemma dataUriLike_fontUri: "dataUriLike (fontUri fs p)"
  by (simp add: fontUri_def dataUriLike_dataUri)

text \<open>A reference has another reference as a proper suffix only when it is unquoted
  and its path contains \<open>url(\<close>.\<close>

lemma reference_suffix_reference:
  assumes w: "isQuoteMark q'" "isFontPath p'" "q' = [] \<longrightarrow> \<not> sublist ''url('' p'"
    and p: "isQuoteMark q" "isFontPath p"
    and e: "reference q' p' = a @ reference q p"
  shows "a = []"
proof (cases "q' = []")
  case True
  with e have "''url('' @ p' @ '')'' = a @ ''url('' @ (q @ p @ q) @ '')''"
    by (simp add: reference_def)
  from unquoted_suffix [OF this] w(3) True show ?thesis by simp
next
  case False
  with w(1) obtain c where q': "q' = [c]" and c: "c = CHR 0x27 \<or> c = CHR 0x22"
    by (auto simp: isQuoteMark_def)
  from isFontPath_no_quote [OF w(2)] c have cp': "c \<notin> set p'" by auto
  from isFontPath_no_quote [OF p(2)] c have cp: "c \<notin> set p" by auto
  from e have e': "(''url('' @ [c] @ p') @ [c] @ '')'' = (a @ ''url('' @ q @ p) @ q @ '')''"
    by (simp add: reference_def q')
  have q: "q = [c]"
  proof (cases "q = []")
    case True
    from isFontPath_nonempty [OF p(2)] have pl: "p = butlast p @ [last p]" by simp
    from e' True have "((''url('' @ [c] @ p') @ [c]) @ '')'' = (a @ ''url('' @ p) @ '')''" by simp
    then have "(''url('' @ [c] @ p') @ [c] = a @ ''url('' @ p" by (simp only: append_same_eq)
    also have "\<dots> = (a @ ''url('' @ butlast p) @ [last p]" using pl by simp
    finally have "last ((''url('' @ [c] @ p') @ [c]) = last ((a @ ''url('' @ butlast p) @ [last p])"
      by (rule arg_cong)
    then have "c = last p" by (simp only: last_snoc)
    with isFontPath_nonempty [OF p(2)] have "c \<in> set p" by simp
    with cp show ?thesis by simp
  next
    case False
    with p(1) obtain c2 where q2: "q = [c2]" by (auto simp: isQuoteMark_def)
    from e [unfolded reference_def q' q2]
    have "((''url('' @ [c] @ p') @ [c]) @ '')'' = ((a @ ''url('' @ [c2] @ p) @ [c2]) @ '')''"
      by (simp only: append_assoc)
    then have "(''url('' @ [c] @ p') @ [c] = (a @ ''url('' @ [c2] @ p) @ [c2]" by (simp only: append_same_eq)
    then have "last ((''url('' @ [c] @ p') @ [c]) = last ((a @ ''url('' @ [c2] @ p) @ [c2])"
      by (rule arg_cong)
    then have "c = c2" by (simp only: last_snoc)
    with q2 show ?thesis by simp
  qed
  have "''url('' @ [c] @ p' @ [c] @ '')'' = a @ ''url('' @ [c] @ p @ [c] @ '')''"
    using e by (simp add: reference_def q q')
  from quoted_not_proper_suffix [OF this cp' cp] c show ?thesis by auto
qed


text \<open>A data URI has no reference as a proper suffix, and no reference ends with a data
  URI.\<close>

lemma uri_suffix_reference:
  assumes "dataUriLike u" and "u = a @ reference q p"
  shows "a = []"
proof -
  from assms(1) obtain b where u: "u = ''url('' @ b @ '')''" and b: "CHR ''('' \<notin> set b"
    by (rule dataUriLike_body)
  from assms(2) have "''url('' @ b @ '')'' = a @ ''url('' @ (q @ p @ q) @ '')''"
    unfolding u by (simp add: reference_def)
  from token_not_proper_suffix [OF this b] show ?thesis .
qed

lemma reference_suffix_uri:
  assumes "dataUriLike u" and "isQuoteMark q" "isFontPath p" and "reference q p = a @ u"
  shows False
proof -
  from assms(1) obtain b where
    u: "u = ''url('' @ [CHR 0x22, CHR ''d''] @ b @ [CHR 0x22] @ '')''" and b: "CHR 0x22 \<notin> set b"
    by (auto simp: dataUriLike_def)
  from isFontPath_no_quote [OF assms(3)] have np: "CHR 0x22 \<notin> set p" by simp
  show False
  proof (cases "q = [CHR 0x22]")
    case True
    from assms(4) have "''url('' @ [CHR 0x22] @ p @ [CHR 0x22] @ '')''
        = a @ ''url('' @ [CHR 0x22] @ (CHR ''d'' # b) @ [CHR 0x22] @ '')''"
      unfolding u by (simp add: reference_def True)
    from quoted_not_proper_suffix [OF this np] b have "a = []" by simp
    with assms(4) have "dataUriLike (reference q p)" using assms(1) by simp
    with reference_not_dataUriLike [OF assms(2,3)] show False by simp
  next
    case False
    with assms(2) np have "CHR 0x22 \<notin> set (reference q p)"
      by (auto simp: isQuoteMark_def reference_def)
    moreover have "CHR 0x22 \<in> set (a @ u)" unfolding u by simp
    ultimately show False using assms(4) by simp
  qed
qed

section \<open>The scan for references\<close>

lemma matchFontUrl_Nil [simp]: "matchFontUrl [] = None"
  by (simp add: matchFontUrl_def)

lemma reference_length: "5 \<le> length (reference q p)"
  by (simp add: reference_def)

lemma matchFontUrl_drop:
  assumes "matchFontUrl s = Some (q, p, n)"
  shows "s \<noteq> [] \<and> 1 \<le> n \<and> drop (n - 1) (tl s) = drop n s \<and> length (drop n s) < length s"
proof -
  from matchFontUrl_SomeD [OF assms] have n: "n = length (reference q p)" by simp
  with reference_length [of q p] have "5 \<le> n" by simp
  moreover from assms have "s \<noteq> []" by auto
  ultimately show ?thesis by (cases s) (auto simp: drop_Cons')
qed

lemma rewriteRefs_Nil [simp]: "rewriteRefs sel uri [] = []"
  by (simp add: rewriteRefs.simps)

lemma rewriteRefs_None:
  "matchFontUrl (c # cs) = None \<Longrightarrow> rewriteRefs sel uri (c # cs) = c # rewriteRefs sel uri cs"
  by (simp add: rewriteRefs.simps [of sel uri "c # cs"])

lemma rewriteRefs_Some:
  assumes "matchFontUrl s = Some (q, p, n)"
  shows "rewriteRefs sel uri s =
           (if sel (q, p) then uri p else reference q p) @ rewriteRefs sel uri (drop n s)"
proof -
  from matchFontUrl_drop [OF assms] obtain c cs where s: "s = c # cs"
    and d: "drop (n - 1) cs = drop n s" by (cases s) auto
  show ?thesis
    using assms d by (simp add: rewriteRefs.simps [of sel uri "c # cs"] s)
qed

lemma matchAll_Nil [simp]: "matchAll [] = []"
  by (simp add: matchAll.simps)

lemma matchAll_None: "matchFontUrl (c # cs) = None \<Longrightarrow> matchAll (c # cs) = matchAll cs"
  by (simp add: matchAll.simps [of "c # cs"])

lemma matchAll_Some:
  assumes "matchFontUrl s = Some (q, p, n)"
  shows "matchAll s = (q, p) # matchAll (drop n s)"
proof -
  from matchFontUrl_drop [OF assms] obtain c cs where s: "s = c # cs"
    and d: "drop (n - 1) cs = drop n s" by (cases s) auto
  show ?thesis
    using assms d by (simp add: matchAll.simps [of "c # cs"] s)
qed

text \<open>Every match is a well-formed reference.\<close>

lemma matchAll_wf:
  "(q, p) \<in> set (matchAll s) \<Longrightarrow> isQuoteMark q \<and> isFontPath p"
proof (induction s rule: measure_induct_rule [where f = length])
  case (less s)
  show ?case
  proof (cases s)
    case Nil
    with less.prems show ?thesis by simp
  next
    case (Cons c cs)
    show ?thesis
    proof (cases "matchFontUrl s")
      case None
      with less.prems Cons have "(q, p) \<in> set (matchAll cs)"
        by (simp add: matchAll_None)
      with less.IH [of cs] Cons show ?thesis by simp
    next
      case (Some m)
      obtain q' p' n where m: "m = (q', p', n)" by (cases m)
      note some = Some [unfolded m]
      from less.prems matchAll_Some [OF some]
      consider "(q, p) = (q', p')" | "(q, p) \<in> set (matchAll (drop n s))" by auto
      then show ?thesis
      proof cases
        case 1
        with matchFontUrl_SomeD [OF some] show ?thesis by simp
      next
        case 2
        with less.IH [of "drop n s"] matchFontUrl_drop [OF some] show ?thesis by simp
      qed
    qed
  qed
qed

section \<open>One replacement is one more reference rewritten\<close>

text \<open>
  In a text in which some references are already rewritten, a piece of a pattern can
  only start where it starts in the original text.
\<close>

lemma prefix_rewriteRefs:
  assumes uri: "\<And>p'. dataUriLike (uri p')"
    and q: "isQuoteMark q" "isFontPath p"
  shows "reference q p = a @ r \<Longrightarrow> r \<noteq> [] \<Longrightarrow> prefix r (rewriteRefs sel uri s) \<Longrightarrow>
         prefix r s"
proof (induction s arbitrary: a r rule: measure_induct_rule [where f = length])
  case (less s)
  note pat = reference_close [OF q]
  show ?case
  proof (cases s)
    case Nil
    with less.prems show ?thesis by simp
  next
    case (Cons c cs)
    show ?thesis
    proof (cases "matchFontUrl s")
      case None
      then have rw: "rewriteRefs sel uri s = c # rewriteRefs sel uri cs"
        unfolding Cons by (simp_all add: rewriteRefs_None)
      from less.prems(2,3) rw obtain r' where r: "r = c # r'"
        and p': "prefix r' (rewriteRefs sel uri cs)"
        by (cases r) auto
      show ?thesis
      proof (cases "r' = []")
        case True
        with r Cons show ?thesis by simp
      next
        case False
        have "prefix r' cs"
        proof (rule less.IH [of cs "a @ [c]" r'])
          show "length cs < length s" using Cons by simp
          show "reference q p = (a @ [c]) @ r'" using less.prems(1) r by simp
        qed (fact False, fact p')
        with r Cons show ?thesis by simp
      qed
    next
      case (Some m)
      obtain q' p' n where m: "m = (q', p', n)" by (cases m)
      note some = Some [unfolded m]
      from matchFontUrl_SomeD [OF some] have wf: "isQuoteMark q'" "isFontPath p'"
        and s: "s = reference q' p' @ drop n s" by blast+
      let ?w = "if sel (q', p') then uri p' else reference q' p'"
      have rw: "rewriteRefs sel uri s = ?w @ rewriteRefs sel uri (drop n s)"
        by (rule rewriteRefs_Some [OF some])
      obtain b where w: "?w = ''url('' @ b @ '')''" "CHR '')'' \<notin> set b"
      proof (cases "sel (q', p')")
        case True
        from uri [of p'] obtain b where "uri p' = ''url('' @ b @ '')''" "CHR '')'' \<notin> set b"
          by (rule dataUriLike_body)
        with True that show ?thesis by simp
      next
        case False
        with reference_close [OF wf] that show ?thesis by simp
      qed
      have rw': "r = ?w"
      proof (rule rest_is_token [OF w])
        show "reference q p = ''url('' @ (q @ p @ q) @ '')''" using pat by simp
        show "CHR '')'' \<notin> set (q @ p @ q)" using pat by simp
        show "reference q p = a @ r" by (fact less.prems(1))
        show "r \<noteq> []" by (fact less.prems(2))
        show "prefix r (?w @ rewriteRefs sel uri (drop n s))"
          using less.prems(3) rw by simp
      qed
      have "\<not> sel (q', p')"
      proof
        assume "sel (q', p')"
        with rw' less.prems(1) have "reference q p = a @ uri p'" by simp
        from reference_suffix_uri [OF uri q this] show False .
      qed
      with rw' have "r = reference q' p'" by simp
      then show ?thesis
        using s by (metis prefixI)
    qed
  qed
qed

text \<open>
  Replacing every occurrence of the reference \<open>(q, p)\<close> in a text in which the selected
  references are rewritten gives the text in which this reference is rewritten too,
  provided that no unquoted reference of the text has \<open>url(\<close> inside its path.
\<close>

lemma replaceAll_rewriteRefs:
  assumes uri: "\<And>p'. dataUriLike (uri p')"
    and q: "isQuoteMark q" "isFontPath p"
  shows "\<forall>x \<in> set (matchAll s). fst x = [] \<longrightarrow> \<not> sublist ''url('' (snd x) \<Longrightarrow>
         replaceAll (reference q p) (uri p) passed (rewriteRefs sel uri s)
           = rewriteRefs (\<lambda>x. sel x \<or> x = (q, p)) uri s"
proof (induction s arbitrary: passed rule: measure_induct_rule [where f = length])
  case (less s)
  note pat = reference_close [OF q]
  have ne: "reference q p \<noteq> []" using reference_length [of q p] by auto
  from uri [of p] have plain: "CHR ''$'' \<notin> set (uri p)" by (rule dataUriLike_body)
  let ?sel = "\<lambda>x. sel x \<or> x = (q, p)"
  show ?case
  proof (cases s)
    case Nil
    with ne show ?thesis by simp
  next
    case (Cons c cs)
    show ?thesis
    proof (cases "matchFontUrl s")
      case None
      then have rw: "rewriteRefs sel uri s = c # rewriteRefs sel uri cs"
        "rewriteRefs ?sel uri s = c # rewriteRefs ?sel uri cs"
        and ma: "matchAll s = matchAll cs"
        unfolding Cons by (simp_all add: rewriteRefs_None matchAll_None)
      have "\<not> prefix (reference q p) (rewriteRefs sel uri s)"
      proof
        assume "prefix (reference q p) (rewriteRefs sel uri s)"
        with prefix_rewriteRefs [where uri = uri and a = "[]" and r = "reference q p", OF uri q] ne
        have "prefix (reference q p) s" by simp
        from matchFontUrl_prefix [OF q this] None show False by simp
      qed
      then have "replaceAll (reference q p) (uri p) passed (rewriteRefs sel uri s)
                   = c # replaceAll (reference q p) (uri p) (passed @ [c]) (rewriteRefs sel uri cs)"
        unfolding rw by (rule replaceAll_no_match [OF ne])
      moreover have "replaceAll (reference q p) (uri p) (passed @ [c]) (rewriteRefs sel uri cs)
                   = rewriteRefs ?sel uri cs"
      proof (rule less.IH)
        show "length cs < length s" using Cons by simp
        show "\<forall>x \<in> set (matchAll cs). fst x = [] \<longrightarrow> \<not> sublist ''url('' (snd x)"
          using less.prems ma by simp
      qed
      ultimately show ?thesis using rw by simp
    next
      case (Some m)
      obtain q' p' n where m: "m = (q', p', n)" by (cases m)
      note some = Some [unfolded m]
      from matchFontUrl_SomeD [OF some] have wf: "isQuoteMark q'" "isFontPath p'" by simp_all
      have ma: "matchAll s = (q', p') # matchAll (drop n s)" by (rule matchAll_Some [OF some])
      with less.prems have np: "q' = [] \<longrightarrow> \<not> sublist ''url('' p'" by auto
      let ?w = "if sel (q', p') then uri p' else reference q' p'"
      let ?z = "rewriteRefs sel uri (drop n s)"
      have rw: "rewriteRefs sel uri s = ?w @ ?z"
        by (rule rewriteRefs_Some [OF some])
      have rw': "rewriteRefs ?sel uri s
                   = (if ?sel (q', p') then uri p' else reference q' p') @ rewriteRefs ?sel uri (drop n s)"
        by (rule rewriteRefs_Some [OF some])
      have ih: "replaceAll (reference q p) (uri p) passed' ?z = rewriteRefs ?sel uri (drop n s)"
        for passed'
      proof (rule less.IH)
        show "length (drop n s) < length s" using matchFontUrl_drop [OF some] by simp
        show "\<forall>x \<in> set (matchAll (drop n s)). fst x = [] \<longrightarrow> \<not> sublist ''url('' (snd x)"
          using less.prems ma by simp
      qed
      show ?thesis
      proof (cases "\<not> sel (q', p') \<and> (q', p') = (q, p)")
        case True
        then have w: "?w = reference q p" by auto
        have "replaceAll (reference q p) (uri p) passed (reference q p @ ?z)
                = uri p @ replaceAll (reference q p) (uri p) (passed @ reference q p) ?z"
          by (rule replaceAll_match [OF ne plain])
        with True show ?thesis
          unfolding rw rw' w by (simp add: ih)
      next
        case False
        obtain b where w: "?w = ''url('' @ b @ '')''" "CHR '')'' \<notin> set b"
        proof (cases "sel (q', p')")
          case True
          from uri [of p'] obtain b where "uri p' = ''url('' @ b @ '')''" "CHR '')'' \<notin> set b"
            by (rule dataUriLike_body)
          with True that show ?thesis by simp
        next
          case False
          with reference_close [OF wf] that show ?thesis by simp
        qed
        have diff: "reference q p \<noteq> ?w"
        proof (cases "sel (q', p')")
          case True
          with uri [of p'] reference_not_dataUriLike [OF q] show ?thesis by auto
        next
          case f: False
          with False have "(q', p') \<noteq> (q, p)" by simp
          with reference_inject [OF q wf] f show ?thesis by auto
        qed
        have "replaceAll (reference q p) (uri p) passed (?w @ ?z)
                = ?w @ replaceAll (reference q p) (uri p) (passed @ ?w) ?z"
        proof (rule replaceAll_skip [OF ne])
          fix a r
          assume ar: "?w = a @ r" "r \<noteq> []"
          show "\<not> prefix (reference q p) (r @ ?z)"
          proof
            assume pr: "prefix (reference q p) (r @ ?z)"
            have pr': "reference q p = r"
            proof (rule token_is_rest [OF w])
              show "reference q p = ''url('' @ (q @ p @ q) @ '')''" using pat by simp
              show "CHR '')'' \<notin> set (q @ p @ q)" using pat by simp
            qed (fact ar(1), fact ar(2), fact pr)
            have "a = []"
            proof (cases "sel (q', p')")
              case True
              with ar(1) pr' have "uri p' = a @ reference q p" by simp
              from uri_suffix_reference [OF uri this] show ?thesis .
            next
              case f: False
              with ar(1) pr' have "reference q' p' = a @ reference q p" by simp
              from reference_suffix_reference [OF wf np q this] show ?thesis .
            qed
            with ar(1) pr' diff show False by simp
          qed
        qed
        moreover have "(if ?sel (q', p') then uri p' else reference q' p') = ?w"
          using False by auto
        ultimately show ?thesis
          unfolding rw rw' by (simp add: ih)
      qed
    qed
  qed
qed

section \<open>The loop over the font references\<close>

lemma rewriteRefs_cong:
  "\<forall>x \<in> set (matchAll s). sel x = sel' x \<Longrightarrow> rewriteRefs sel uri s = rewriteRefs sel' uri s"
proof (induction s rule: measure_induct_rule [where f = length])
  case (less s)
  show ?case
  proof (cases s)
    case Nil
    then show ?thesis by simp
  next
    case (Cons c cs)
    show ?thesis
    proof (cases "matchFontUrl s")
      case None
      with less.IH [of cs] less.prems Cons show ?thesis
        by (simp add: rewriteRefs_None matchAll_None)
    next
      case (Some m)
      obtain q p n where m: "m = (q, p, n)" by (cases m)
      note some = Some [unfolded m]
      have "rewriteRefs sel uri (drop n s) = rewriteRefs sel' uri (drop n s)"
        using less.IH [of "drop n s"] less.prems matchFontUrl_drop [OF some]
        by (simp add: matchAll_Some [OF some])
      moreover have "sel (q, p) = sel' (q, p)"
        using less.prems by (simp add: matchAll_Some [OF some])
      ultimately show ?thesis
        by (simp add: rewriteRefs_Some [OF some])
    qed
  qed
qed

lemma rewriteRefs_none: "rewriteRefs (\<lambda>x. False) uri s = s"
proof (induction s rule: measure_induct_rule [where f = length])
  case (less s)
  show ?case
  proof (cases s)
    case Nil
    then show ?thesis by simp
  next
    case (Cons c cs)
    show ?thesis
    proof (cases "matchFontUrl s")
      case None
      with less.IH [of cs] Cons show ?thesis
        by (simp add: rewriteRefs_None)
    next
      case (Some m)
      obtain q p n where m: "m = (q, p, n)" by (cases m)
      note some = Some [unfolded m]
      from matchFontUrl_SomeD [OF some] have s: "s = reference q p @ drop n s" by blast
      have "rewriteRefs (\<lambda>x. False) uri (drop n s) = drop n s"
        using less.IH [of "drop n s"] matchFontUrl_drop [OF some] by simp
      then have "rewriteRefs (\<lambda>x. False) uri s = reference q p @ drop n s"
        by (simp add: rewriteRefs_Some [OF some])
      with s show ?thesis by simp
    qed
  qed
qed

text \<open>Lines 86--94: the three replacements for one font rewrite its references in all
  three quoting styles.\<close>

lemma patterns_rewriteRefs:
  assumes uri: "\<And>p'. dataUriLike (uri p')"
    and p: "isFontPath p"
    and s: "\<forall>x \<in> set (matchAll s). fst x = [] \<longrightarrow> \<not> sublist ''url('' (snd x)"
  shows "fold (\<lambda>pattern css. replaceAll pattern (uri p) [] css) (patterns p) (rewriteRefs sel uri s)
           = rewriteRefs (\<lambda>x. sel x \<or> snd x = p) uri s"
proof -
  have q: "isQuoteMark []" "isQuoteMark [CHR 0x27]" "isQuoteMark [CHR 0x22]"
    by (simp_all add: isQuoteMark_def)
  let ?s1 = "\<lambda>x. sel x \<or> x = ([], p)"
  let ?s2 = "\<lambda>x. ?s1 x \<or> x = ([CHR 0x27], p)"
  let ?s3 = "\<lambda>x. ?s2 x \<or> x = ([CHR 0x22], p)"
  have r1: "replaceAll (reference [] p) (uri p) [] (rewriteRefs sel uri s) = rewriteRefs ?s1 uri s"
    by (rule replaceAll_rewriteRefs [OF uri q(1) p s])
  have r2: "replaceAll (reference [CHR 0x27] p) (uri p) [] (rewriteRefs ?s1 uri s) = rewriteRefs ?s2 uri s"
    by (rule replaceAll_rewriteRefs [OF uri q(2) p s])
  have r3: "replaceAll (reference [CHR 0x22] p) (uri p) [] (rewriteRefs ?s2 uri s) = rewriteRefs ?s3 uri s"
    by (rule replaceAll_rewriteRefs [OF uri q(3) p s])
  have f: "fold (\<lambda>pattern css. replaceAll pattern (uri p) [] css) [a, b, c] z
             = replaceAll c (uri p) [] (replaceAll b (uri p) [] (replaceAll a (uri p) [] z))"
    for a b c z by simp
  have "fold (\<lambda>pattern css. replaceAll pattern (uri p) [] css) (patterns p) (rewriteRefs sel uri s)
          = rewriteRefs ?s3 uri s"
    unfolding patterns_reference f r1 r2 r3 ..
  also have "\<dots> = rewriteRefs (\<lambda>x. sel x \<or> snd x = p) uri s"
  proof (rule rewriteRefs_cong, rule ballI)
    fix x
    assume "x \<in> set (matchAll s)"
    then have "isQuoteMark (fst x)"
      using matchAll_wf [of "fst x" "snd x" s] by simp
    then show "?s3 x = (sel x \<or> snd x = p)"
      by (cases x) (auto simp: isQuoteMark_def)
  qed
  finally show ?thesis .
qed

lemma set_uniq_fold:
  "set (fold (\<lambda>x seen. if x \<in> set seen then seen else seen @ [x]) xs acc) = set acc \<union> set xs"
  by (induction xs arbitrary: acc) auto

lemma set_fontMatches: "set (fontMatches css) = snd ` set (matchAll css)"
proof -
  have "p \<noteq> []" if "(q, p) \<in> set (matchAll css)" for q p
    using matchAll_wf [OF that] by (auto simp: isFontPath_def)
  then have "filter (\<lambda>relativePath. relativePath \<noteq> []) (map snd (matchAll css)) = map snd (matchAll css)"
    by (auto simp: filter_id_conv)
  then show ?thesis
    by (simp add: fontMatches_def uniq_def set_uniq_fold)
qed

lemma inlineFonts_rewriteRefs:
  assumes s: "\<forall>x \<in> set (matchAll css). fst x = [] \<longrightarrow> \<not> sublist ''url('' (snd x)"
  shows "set ps \<subseteq> snd ` set (matchAll css) \<Longrightarrow>
         \<forall>p \<in> set ps. readFile fs (absoluteFontPath fs p) \<noteq> None \<Longrightarrow>
         inlineFonts fs ps (rewriteRefs (\<lambda>x. snd x \<in> seen) (fontUri fs) css) st
           = (Inr (rewriteRefs (\<lambda>x. snd x \<in> seen \<union> set ps) (fontUri fs) css),
              st\<lparr>reads := reads st @ map (absoluteFontPath fs) ps\<rparr>)"
proof (induction ps arbitrary: seen st)
  case Nil
  then show ?case by simp
next
  case (Cons p ps)
  from Cons.prems(2) obtain fontData where
    rd: "readFile fs (absoluteFontPath fs p) = Some fontData" by auto
  then have u: "dataUri fs p fontData = fontUri fs p"
    by (simp add: fontUri_def)
  from Cons.prems(1) obtain q where m: "(q, p) \<in> set (matchAll css)" by auto
  from matchAll_wf [OF m] have wf: "isFontPath p" by simp
  let ?st = "st\<lparr>reads := reads st @ [absoluteFontPath fs p]\<rparr>"
  have step: "fold (\<lambda>pattern css. replaceAll pattern (fontUri fs p) [] css) (patterns p)
                (rewriteRefs (\<lambda>x. snd x \<in> seen) (fontUri fs) css)
              = rewriteRefs (\<lambda>x. snd x \<in> insert p seen) (fontUri fs) css"
    using patterns_rewriteRefs [where uri = "fontUri fs" and sel = "\<lambda>x. snd x \<in> seen",
            OF dataUriLike_fontUri wf s]
    by (simp add: disj_commute)
  have "inlineFonts fs (p # ps) (rewriteRefs (\<lambda>x. snd x \<in> seen) (fontUri fs) css) st
          = inlineFonts fs ps (rewriteRefs (\<lambda>x. snd x \<in> insert p seen) (fontUri fs) css) ?st"
    by (simp add: rd u step Let_def)
  also have "\<dots> = (Inr (rewriteRefs (\<lambda>x. snd x \<in> insert p seen \<union> set ps) (fontUri fs) css),
                    ?st\<lparr>reads := reads ?st @ map (absoluteFontPath fs) ps\<rparr>)"
    using Cons.prems by (intro Cons.IH) auto
  finally show ?case by simp
qed

lemma inlineFonts_inlineAll:
  assumes "\<forall>p \<in> set (fontMatches css). readFile fs (absoluteFontPath fs p) \<noteq> None"
    and s: "\<forall>x \<in> set (matchAll css). fst x = [] \<longrightarrow> \<not> sublist ''url('' (snd x)"
  shows "inlineFonts fs (fontMatches css) css st
           = (Inr (inlineAll fs css),
              st\<lparr>reads := reads st @ map (absoluteFontPath fs) (fontMatches css)\<rparr>)"
proof -
  have "inlineFonts fs (fontMatches css) (rewriteRefs (\<lambda>x. snd x \<in> {}) (fontUri fs) css) st
          = (Inr (rewriteRefs (\<lambda>x. snd x \<in> {} \<union> set (fontMatches css)) (fontUri fs) css),
             st\<lparr>reads := reads st @ map (absoluteFontPath fs) (fontMatches css)\<rparr>)"
    using assms(1) by (intro inlineFonts_rewriteRefs [OF s]) (simp_all add: set_fontMatches)
  moreover have "rewriteRefs (\<lambda>x. snd x \<in> {}) (fontUri fs) css = css"
    by (simp add: rewriteRefs_none)
  moreover have "rewriteRefs (\<lambda>x. snd x \<in> {} \<union> set (fontMatches css)) (fontUri fs) css
                   = inlineAll fs css"
    unfolding inlineAll_def
    by (rule rewriteRefs_cong) (auto simp: set_fontMatches)
  ultimately show ?thesis by simp
qed

section \<open>Inlining the fonts of the stylesheet\<close>

text \<open>
  C7.  Let the first call of \<open>loadKatexCss\<close> read the stylesheet \<open>css\<close>, and let every font
  that \<open>css\<close> refers to be readable (a font that cannot be read ends the call with the
  error).  Let \<open>css\<close> be well-formed in that no unquoted reference \<open>url(fonts/\<dots>)\<close> has the
  text \<open>url(\<close> inside its path: CSS admits no opening parenthesis in an unquoted
  \<open>url(\<dots>)\<close> unless it is escaped, and the stylesheet of KaTeX refers to its fonts by
  plain file names.  A path in quotes may contain an opening parenthesis.  Then the call
  returns \<open>inlineAll fs css\<close>: the stylesheet in which every occurrence of every
  reference \<open>url(fonts/\<dots>)\<close>, \<open>url('fonts/\<dots>')\<close> or \<open>url("fonts/\<dots>")\<close> is replaced by the
  data URI of its path and all other text is kept.  It reads the stylesheet and then
  each distinct font once, in the order of first appearance, and caches the result.
  The data URI of a path depends on the path only, so that two occurrences of one
  reference become the same text; it is \<open>url("data:<mime>;base64,<data>")\<close> with the
  base64 encoding of the font file and the MIME type that \<open>getMimeType\<close> gives for the
  lower-cased extension of the resolved path: the fixed table, and
  \<open>application/octet-stream\<close> for any other extension.
\<close>

theorem font_inlining:
  assumes "cachedKatexCss st = None"
    and "readFile fs (katexCssPath fs) = Some css"
    and "\<forall>p \<in> set (fontMatches css). readFile fs (absoluteFontPath fs p) \<noteq> None"
    and "\<forall>(q, p) \<in> set (matchAll css). q = [] \<longrightarrow> \<not> sublist ''url('' p"
  shows "loadKatexCss fs st =
           (Inr (inlineAll fs css),
            st\<lparr>reads := reads st @ katexCssPath fs # map (absoluteFontPath fs) (fontMatches css),
               cachedKatexCss := Some (inlineAll fs css)\<rparr>)
       \<and> (\<forall>p fontData. readFile fs (absoluteFontPath fs p) = Some fontData \<longrightarrow>
             fontUri fs p =
               ''url('' @ [CHR 0x22] @ ''data:''
                 @ getMimeType (toLowerCase (extname fs (absoluteFontPath fs p)))
                 @ '';base64,'' @ base64 fontData @ [CHR 0x22] @ '')'')
       \<and> getMimeType ''.woff2'' = ''font/woff2''
       \<and> getMimeType ''.woff'' = ''font/woff''
       \<and> getMimeType ''.ttf'' = ''font/ttf''
       \<and> getMimeType ''.otf'' = ''font/otf''
       \<and> getMimeType ''.eot'' = ''application/vnd.ms-fontobject''
       \<and> getMimeType ''.svg'' = ''image/svg+xml''
       \<and> (e \<notin> set [''.woff2'', ''.woff'', ''.ttf'', ''.otf'', ''.eot'', ''.svg''] \<longrightarrow>
             getMimeType e = ''application/octet-stream'')"
proof -
  let ?st = "st\<lparr>reads := reads st @ [katexCssPath fs]\<rparr>"
  have h: "\<forall>x \<in> set (matchAll css). fst x = [] \<longrightarrow> \<not> sublist ''url('' (snd x)"
    using assms(4) by auto
  have "inlineFonts fs (fontMatches css) css ?st
          = (Inr (inlineAll fs css),
             ?st\<lparr>reads := reads ?st @ map (absoluteFontPath fs) (fontMatches css)\<rparr>)"
    by (rule inlineFonts_inlineAll [OF assms(3) h])
  then have one: "loadKatexCss fs st =
           (Inr (inlineAll fs css),
            st\<lparr>reads := reads st @ katexCssPath fs # map (absoluteFontPath fs) (fontMatches css),
               cachedKatexCss := Some (inlineAll fs css)\<rparr>)"
    using assms(1,2) by (simp add: loadKatexCss_def readKatexCss_def Let_def)
  have two: "fontUri fs p =
               ''url('' @ [CHR 0x22] @ ''data:''
                 @ getMimeType (toLowerCase (extname fs (absoluteFontPath fs p)))
                 @ '';base64,'' @ base64 fontData @ [CHR 0x22] @ '')''"
    if "readFile fs (absoluteFontPath fs p) = Some fontData" for p fontData
    using that by (simp add: fontUri_def dataUri_def)
  have three: "getMimeType ''.woff2'' = ''font/woff2''" "getMimeType ''.woff'' = ''font/woff''"
    "getMimeType ''.ttf'' = ''font/ttf''" "getMimeType ''.otf'' = ''font/otf''"
    "getMimeType ''.eot'' = ''application/vnd.ms-fontobject''"
    "getMimeType ''.svg'' = ''image/svg+xml''"
    by (simp_all add: getMimeType_def)
  have four: "getMimeType e = ''application/octet-stream''"
    if "e \<notin> set [''.woff2'', ''.woff'', ''.ttf'', ''.otf'', ''.eot'', ''.svg'']"
    using that by (simp add: getMimeType_def)
  from one two three four show ?thesis by blast
qed

lemmas inline_eval = inlineAll_def rewriteRefs.simps fontUri_def reference_def

text \<open>The theorem at work on the example of the specification, one font referred to
  twice, without quotes and in double quotes, and another one in single quotes, with a
  third font in double quotes whose name has a parenthesis.\<close>

theorem font_inlining_witness:
  "matchAll ''a{src:url(fonts/a.woff2)}b{src:url('fonts/b.woff')}c{src:url(\"fonts/a.woff2\")}d{src:url(\"fonts/c(1.ttf\")}''
     = [([], ''fonts/a.woff2''), ([CHR 0x27], ''fonts/b.woff''), ([CHR 0x22], ''fonts/a.woff2''),
        ([CHR 0x22], ''fonts/c(1.ttf'')]
   \<and> \<not> sublist ''url('' ''fonts/a.woff2''
   \<and> fontMatches ''a{src:url(fonts/a.woff2)}b{src:url('fonts/b.woff')}c{src:url(\"fonts/a.woff2\")}d{src:url(\"fonts/c(1.ttf\")}''
     = [''fonts/a.woff2'', ''fonts/b.woff'', ''fonts/c(1.ttf'']
   \<and> loadKatexCss
        \<lparr>katexCssPath = ''/k/katex.min.css'',
         readFile = (\<lambda>p. if p = ''/k/katex.min.css''
                         then Some ''a{src:url(fonts/a.woff2)}b{src:url('fonts/b.woff')}c{src:url(\"fonts/a.woff2\")}d{src:url(\"fonts/c(1.ttf\")}''
                         else if p = ''/k/fonts/a.woff2'' then Some ''Man''
                         else if p = ''/k/fonts/b.woff'' then Some ''Ma''
                         else if p = ''/k/fonts/c(1.ttf'' then Some ''M'' else None),
         resolve = (\<lambda>d p. d @ ''/'' @ p), dirname = (\<lambda>p. ''/k''),
         extname = (\<lambda>p. dropWhile (\<lambda>c. c \<noteq> CHR ''.'') p)\<rparr>
        \<lparr>configsWithKatexCss = {}, cachedKatexCss = None, reads = [], console = []\<rparr>
     = (Inr ''a{src:url(\"data:font/woff2;base64,TWFu\")}b{src:url(\"data:font/woff;base64,TWE=\")}c{src:url(\"data:font/woff2;base64,TWFu\")}d{src:url(\"data:font/ttf;base64,TQ==\")}'',
        \<lparr>configsWithKatexCss = {},
         cachedKatexCss = Some ''a{src:url(\"data:font/woff2;base64,TWFu\")}b{src:url(\"data:font/woff;base64,TWE=\")}c{src:url(\"data:font/woff2;base64,TWFu\")}d{src:url(\"data:font/ttf;base64,TQ==\")}'',
         reads = [''/k/katex.min.css'', ''/k/fonts/a.woff2'', ''/k/fonts/b.woff'', ''/k/fonts/c(1.ttf''],
         console = []\<rparr>)"
proof -
  let ?css = "''a{src:url(fonts/a.woff2)}b{src:url('fonts/b.woff')}c{src:url(\"fonts/a.woff2\")}d{src:url(\"fonts/c(1.ttf\")}''"
  let ?out = "''a{src:url(\"data:font/woff2;base64,TWFu\")}b{src:url(\"data:font/woff;base64,TWE=\")}c{src:url(\"data:font/woff2;base64,TWFu\")}d{src:url(\"data:font/ttf;base64,TQ==\")}''"
  let ?fs = "\<lparr>katexCssPath = ''/k/katex.min.css'',
         readFile = (\<lambda>p. if p = ''/k/katex.min.css'' then Some ?css
                         else if p = ''/k/fonts/a.woff2'' then Some ''Man''
                         else if p = ''/k/fonts/b.woff'' then Some ''Ma''
                         else if p = ''/k/fonts/c(1.ttf'' then Some ''M'' else None),
         resolve = (\<lambda>d p. d @ ''/'' @ p), dirname = (\<lambda>p. ''/k''),
         extname = (\<lambda>p. dropWhile (\<lambda>c. c \<noteq> CHR ''.'') p)\<rparr>"
  let ?st = "\<lparr>configsWithKatexCss = {}, cachedKatexCss = None, reads = [], console = []\<rparr>"
  have a: "cachedKatexCss ?st = None" by simp
  have b: "readFile ?fs (katexCssPath ?fs) = Some ?css" by simp
  have ma: "matchAll ?css
     = [([], ''fonts/a.woff2''), ([CHR 0x27], ''fonts/b.woff''), ([CHR 0x22], ''fonts/a.woff2''),
        ([CHR 0x22], ''fonts/c(1.ttf'')]"
    by (simp add: katex_eval)
  have m: "fontMatches ?css = [''fonts/a.woff2'', ''fonts/b.woff'', ''fonts/c(1.ttf'']"
    by (simp add: fontMatches_def uniq_def ma)
  have n: "\<not> sublist ''url('' ''fonts/a.woff2''"
    by (simp add: sublist_Cons_right)
  have c: "\<forall>p \<in> set (fontMatches ?css). readFile ?fs (absoluteFontPath ?fs p) \<noteq> None"
    unfolding m by (simp add: absoluteFontPath_def)
  have d: "\<forall>(q, p) \<in> set (matchAll ?css). q = [] \<longrightarrow> \<not> sublist ''url('' p"
    unfolding ma using n by simp
  have i: "inlineAll ?fs ?css = ?out"
    by (simp add: inline_eval katex_eval)
  from font_inlining [OF a b c d, THEN conjunct1]
  have "loadKatexCss ?fs ?st =
     (Inr ?out, \<lparr>configsWithKatexCss = {}, cachedKatexCss = Some ?out,
         reads = [''/k/katex.min.css'', ''/k/fonts/a.woff2'', ''/k/fonts/b.woff'', ''/k/fonts/c(1.ttf''],
         console = []\<rparr>)"
    unfolding i m by (simp add: absoluteFontPath_def)
  with ma n m show ?thesis by blast
qed

text \<open>
  The hypothesis on the unquoted references cannot be dropped.  The text
  \<open>url(fonts/a) url(fonts/burl(fonts/a)\<close>, which is no valid CSS, holds the two
  references \<open>fonts/a\<close> and \<open>fonts/burl(fonts/a\<close>.  The loop reads both fonts and builds
  both data URIs, but replacing \<open>url(fonts/a)\<close> first also rewrites the end of the second
  reference, whose occurrence is then not replaced by its own data URI (which ends in
  \<open>TQ==\<close>): the result differs from the text with every reference replaced.
\<close>

lemma font_inlining_malformed:
  "fontMatches ''url(fonts/a) url(fonts/burl(fonts/a)'' = [''fonts/a'', ''fonts/burl(fonts/a'']
   \<and> fst (loadKatexCss
        \<lparr>katexCssPath = ''/k/katex.min.css'',
         readFile = (\<lambda>p. if p = ''/k/katex.min.css'' then Some ''url(fonts/a) url(fonts/burl(fonts/a)''
                         else if p = ''/k/fonts/a'' then Some ''Man''
                         else if p = ''/k/fonts/burl(fonts/a'' then Some ''M'' else None),
         resolve = (\<lambda>d p. d @ ''/'' @ p), dirname = (\<lambda>p. ''/k''),
         extname = (\<lambda>p. dropWhile (\<lambda>c. c \<noteq> CHR ''.'') p)\<rparr>
        \<lparr>configsWithKatexCss = {}, cachedKatexCss = None, reads = [], console = []\<rparr>)
     = Inr ''url(\"data:application/octet-stream;base64,TWFu\") url(fonts/burl(\"data:application/octet-stream;base64,TWFu\")''
   \<and> inlineAll
        \<lparr>katexCssPath = ''/k/katex.min.css'',
         readFile = (\<lambda>p. if p = ''/k/katex.min.css'' then Some ''url(fonts/a) url(fonts/burl(fonts/a)''
                         else if p = ''/k/fonts/a'' then Some ''Man''
                         else if p = ''/k/fonts/burl(fonts/a'' then Some ''M'' else None),
         resolve = (\<lambda>d p. d @ ''/'' @ p), dirname = (\<lambda>p. ''/k''),
         extname = (\<lambda>p. dropWhile (\<lambda>c. c \<noteq> CHR ''.'') p)\<rparr>
        ''url(fonts/a) url(fonts/burl(fonts/a)''
     = ''url(\"data:application/octet-stream;base64,TWFu\") url(\"data:application/octet-stream;base64,TQ==\")''
   \<and> ''url(\"data:application/octet-stream;base64,TWFu\") url(fonts/burl(\"data:application/octet-stream;base64,TWFu\")''
     \<noteq> ''url(\"data:application/octet-stream;base64,TWFu\") url(\"data:application/octet-stream;base64,TQ==\")''"
  by (simp add: inline_eval katex_eval)

end
